(* ===== verification/Kio_Prelude.thy ===== *)
theory Kio_Prelude
  imports Main "HOL-Library.Word" "HOL-Library.Signed_Division"
begin

text \<open>
  The vocabulary every component of the driver shares: the C integer types as words of their
  width, the error numbers, C's truncating signed division on 64-bit values, and the lemmas that
  move word arithmetic to the integers when it does not wrap around.  A signed C type is a word
  read with \<open>sint\<close>, an unsigned one a word read with \<open>uint\<close>; a widening conversion of an unsigned
  value is \<open>ucast\<close>, of a signed one \<open>scast\<close>.  The driver is built for 64-bit Linux: \<open>long\<close>, \<open>off_t\<close>,
  \<open>size_t\<close> and \<open>sector_t\<close> are 64 bits wide, \<open>int\<close> and \<open>unsigned\<close> are 32.  The kernel is compiled
  with wrapping signed arithmetic, so an overflow of a signed value wraps in the model too.
\<close>

named_theorems kio_word \<open>moving word arithmetic of the driver to the integers\<close>
named_theorems kio_inv \<open>facts that the components' invariants give\<close>

section \<open>C types\<close>

type_synonym u8 = "8 word"
type_synonym u32 = "32 word"
type_synonym u64 = "64 word"
type_synonym s32 = "32 word"
type_synonym s64 = "64 word"

text \<open>Kernel objects are known by their address only.\<close>

type_synonym kobj = nat

section \<open>Error numbers (\<open>errno\<close>)\<close>

text \<open>A function returning \<open>int\<close> or \<open>ssize_t\<close> returns an integer here, a negative one on failure.\<close>

abbreviation (input) ENOENT :: int where "ENOENT \<equiv> 2"
abbreviation (input) EINTR :: int where "EINTR \<equiv> 4"
abbreviation (input) EAGAIN :: int where "EAGAIN \<equiv> 11"
abbreviation (input) EIO :: int where "EIO \<equiv> 5"
abbreviation (input) ENOEXEC :: int where "ENOEXEC \<equiv> 8"
abbreviation (input) ECHILD :: int where "ECHILD \<equiv> 10"
abbreviation (input) ENOMEM :: int where "ENOMEM \<equiv> 12"
abbreviation (input) EFAULT :: int where "EFAULT \<equiv> 14"
abbreviation (input) EBUSY :: int where "EBUSY \<equiv> 16"
abbreviation (input) EEXIST :: int where "EEXIST \<equiv> 17"
abbreviation (input) ENODEV :: int where "ENODEV \<equiv> 19"
abbreviation (input) EINVAL :: int where "EINVAL \<equiv> 22"
abbreviation (input) ERANGE :: int where "ERANGE \<equiv> 34"
abbreviation (input) EOVERFLOW :: int where "EOVERFLOW \<equiv> 75"
abbreviation (input) ETOOSMALL :: int where "ETOOSMALL \<equiv> 525"

text \<open>What the C program would do where it has no defined behaviour.\<close>

datatype fault = Null_Deref | Div_By_Zero | Bad_Pointer

section \<open>C arithmetic on signed 64-bit values\<close>

definition s64_div :: "s64 \<Rightarrow> s64 \<Rightarrow> s64" where
  "s64_div a b = word_of_int (sint a sdiv sint b)"

definition s64_mod :: "s64 \<Rightarrow> s64 \<Rightarrow> s64" where
  "s64_mod a b = word_of_int (sint a smod sint b)"

lemma sint_of_bounded [kio_word]:
  assumes "- (2 ^ 63) \<le> k" and "k < 2 ^ 63"
  shows "sint (word_of_int k :: s64) = k"
  using assms by (simp add: signed_of_int signed_take_bit_int_eq_self)

lemma sint_ucast32 [simp]: "sint (ucast (x :: u32) :: s64) = uint x"
proof -
  have "- (2 ^ 63) \<le> uint x"
    by (rule order_trans [OF _ uint_ge_0]) simp
  moreover have "uint x < 2 ^ 63"
    using uint_lt2p [of x] by simp
  ultimately show ?thesis
    by (simp add: signed_ucast_eq signed_take_bit_int_eq_self)
qed

lemma uint_ucast32 [simp]: "uint (ucast (x :: u32) :: u64) = uint x"
proof -
  have "uint x < 2 ^ 32" using uint_lt2p [of x] by simp
  then show ?thesis
    by (simp add: unsigned_ucast_eq take_bit_int_eq_self)
qed

lemma uint_of_sint_nonneg [kio_word]:
  fixes x :: s64
  assumes "0 \<le> sint x"
  shows "uint x = sint x"
proof -
  have "uint x = take_bit 64 (sint x)"
    by (simp add: uint_sint)
  moreover have "sint x < 2 ^ 64"
    using sint_lt [of x] by simp
  ultimately show ?thesis
    using assms by (simp add: take_bit_int_eq_self)
qed

lemma sint_of_uint_small [kio_word]:
  fixes x :: s64
  assumes "uint x < 2 ^ 63"
  shows "sint x = uint x"
proof -
  have "- (2 ^ 63) \<le> uint x"
    by (rule order_trans [OF _ uint_ge_0]) simp
  then show ?thesis
    using assms by (simp add: sint_uint signed_take_bit_int_eq_self)
qed

lemma sint_add_bounded [kio_word]:
  fixes a b :: s64
  assumes "- (2 ^ 63) \<le> sint a + sint b" and "sint a + sint b < 2 ^ 63"
  shows "sint (a + b) = sint a + sint b"
  using assms by (simp add: sint_word_add signed_take_bit_int_eq_self)

lemma sint_diff_bounded [kio_word]:
  fixes a b :: s64
  assumes "- (2 ^ 63) \<le> sint a - sint b" and "sint a - sint b < 2 ^ 63"
  shows "sint (a - b) = sint a - sint b"
  using assms by (simp add: sint_word_ariths signed_take_bit_int_eq_self)

lemma sint_mult_bounded [kio_word]:
  fixes a b :: s64
  assumes "- (2 ^ 63) \<le> sint a * sint b" and "sint a * sint b < 2 ^ 63"
  shows "sint (a * b) = sint a * sint b"
  using assms by (simp add: sint_word_ariths signed_take_bit_int_eq_self)

lemma uint_add_bounded [kio_word]:
  fixes a b :: "'a::len word"
  assumes "uint a + uint b < 2 ^ LENGTH('a)"
  shows "uint (a + b) = uint a + uint b"
  using assms by (simp add: uint_add_lem)

lemma uint_mult_bounded [kio_word]:
  fixes a b :: "'a::len word"
  assumes "uint a * uint b < 2 ^ LENGTH('a)"
  shows "uint (a * b) = uint a * uint b"
  using assms by (simp add: uint_mult_lem)

lemma uint_diff_bounded [kio_word]:
  fixes a b :: "'a::len word"
  assumes "uint b \<le> uint a"
  shows "uint (a - b) = uint a - uint b"
  using assms by (simp add: uint_sub_lem)

text \<open>Truncating a 64-bit result to 32 bits commutes with addition and multiplication.\<close>

lemma take_bit_narrow:
  fixes a b :: int
  shows "take_bit 32 (take_bit 64 a + take_bit 64 b) = take_bit 32 (a + b)"
    and "take_bit 32 (take_bit 64 a * take_bit 64 b) = take_bit 32 (a * b)"
  by (subst (1 2) take_bit_add [symmetric], simp) (subst (1 2) take_bit_mult [symmetric], simp)

lemma ucast_down_add: "(ucast (a + b :: u64) :: u32) = ucast a + ucast b"
  by transfer (simp add: take_bit_narrow)

lemma ucast_down_mult: "(ucast (a * b :: u64) :: u32) = ucast a * ucast b"
  by transfer (simp add: take_bit_narrow)

section \<open>Rounding down to a multiple\<close>

lemma le_div_int_iff:
  fixes a b k :: int
  assumes "0 < b"
  shows "k \<le> a div b \<longleftrightarrow> k * b \<le> a"
proof
  assume "k \<le> a div b"
  then have "k * b \<le> a div b * b"
    using assms by (simp add: mult_right_mono)
  also have "\<dots> = a - a mod b"
    by (rule minus_mod_eq_div_mult [symmetric])
  finally show "k * b \<le> a"
    using pos_mod_sign [OF assms, of a] by linarith
next
  assume "k * b \<le> a"
  then have "k * b div b \<le> a div b"
    using assms by (rule zdiv_mono1)
  then show "k \<le> a div b"
    using assms by simp
qed

text \<open>\<open>result /= n; result *= n;\<close> on a signed 64-bit value and an unsigned 32-bit \<open>n\<close>.\<close>

definition s64_round_down :: "s64 \<Rightarrow> u32 \<Rightarrow> s64" where
  "s64_round_down a n = s64_div a (ucast n) * ucast n"

lemma sdiv_nonneg:
  fixes a b :: int
  assumes "0 \<le> a" and "0 \<le> b"
  shows "a sdiv b = a div b"
  using assms by (cases "a = 0"; cases "b = 0") (auto simp: signed_divide_int_def)

lemma smod_nonneg:
  fixes a b :: int
  assumes "0 \<le> a" and "0 \<le> b"
  shows "a smod b = a mod b"
proof -
  have "a smod b = a - a sdiv b * b"
    by (simp add: minus_sdiv_mult_eq_smod)
  then show ?thesis
    using assms by (simp add: sdiv_nonneg minus_div_mult_eq_mod)
qed

lemma sint_s64_div:
  assumes "0 \<le> sint a" and "0 \<le> sint b"
  shows "sint (s64_div a b) = sint a div sint b"
proof -
  have "sint a div sint b \<le> sint a"
    using assms by (cases "sint b = 0") (auto intro: zdiv_mono2 [of _ 1, simplified])
  moreover have "sint a < 2 ^ 63"
    using sint_lt [of a] by simp
  moreover have "0 \<le> sint a div sint b"
    using assms by (simp add: div_int_pos_iff)
  ultimately show ?thesis
    unfolding s64_div_def using assms by (simp add: sdiv_nonneg sint_of_bounded)
qed

lemma sint_s64_mod:
  assumes "0 \<le> sint a" and "0 < sint b"
  shows "sint (s64_mod a b) = sint a mod sint b"
proof -
  have lt: "sint a mod sint b < sint b" and ge: "0 \<le> sint a mod sint b"
    using assms by simp_all
  have "sint b < 2 ^ 63"
    using sint_lt [of b] by simp
  then have "sint (word_of_int (sint a mod sint b) :: s64) = sint a mod sint b"
    using lt ge by (intro sint_of_bounded) linarith+
  then show ?thesis
    unfolding s64_mod_def using assms by (simp add: smod_nonneg)
qed

lemma uint_signed_plus: "uint (off + sz :: s64) = (sint off + uint sz) mod 2 ^ 64"
proof -
  have "uint off = sint off mod 2 ^ 64"
    by (simp add: uint_sint take_bit_eq_mod)
  then show ?thesis
    by (simp add: uint_word_ariths(1) mod_add_left_eq)
qed

lemma smod_eq_0_iff: "a smod b = 0 \<longleftrightarrow> b dvd (a :: int)"
  by (auto simp: smod_int_alt_def sgn_0_0 dvd_eq_mod_eq_0 [symmetric])

lemma s64_mod_eq_0_iff:
  assumes "b \<noteq> 0"
  shows "s64_mod a (ucast (b :: u32)) = 0 \<longleftrightarrow> uint b dvd sint a"
proof -
  have "0 < uint b" "uint b < 2 ^ 32"
    using assms uint_lt2p [of b] by (simp_all add: word_neq_0_conv word_less_def)
  with smod_int_range [of "uint b" "sint a"] have "\<bar>sint a smod uint b\<bar> < 2 ^ 32"
    by auto
  then have "sint (word_of_int (sint a smod uint b) :: s64) = sint a smod uint b"
    by (subst sint_sbintrunc') (intro signed_take_bit_int_eq_self, auto)
  then show ?thesis
    unfolding s64_mod_def by (metis sint_ucast32 signed_0 signed_word_eqI smod_eq_0_iff)
qed

lemma sint_s64_round_down:
  assumes "0 \<le> sint a" and "0 < uint n"
  shows "sint (s64_round_down a n) = sint a - sint a mod uint n"
proof -
  have d: "sint (s64_div a (ucast n)) = sint a div uint n"
    using assms by (simp add: sint_s64_div)
  have "sint a div uint n * uint n = sint a - sint a mod uint n"
    by (simp add: minus_mod_eq_div_mult)
  moreover have "0 \<le> sint a - sint a mod uint n" and "sint a - sint a mod uint n \<le> sint a"
    using assms by (simp_all add: zmod_le_nonneg_dividend)
  moreover have "sint a < 2 ^ 63"
    using sint_lt [of a] by simp
  ultimately show ?thesis
    unfolding s64_round_down_def using d by (simp add: sint_mult_bounded)
qed

lemma s64_round_down_bounds:
  assumes "0 \<le> sint a" and "0 < uint n"
  shows "0 \<le> sint (s64_round_down a n)" and "sint (s64_round_down a n) \<le> sint a"
    and "sint a - uint n < sint (s64_round_down a n)" and "uint n dvd sint (s64_round_down a n)"
proof -
  have eq: "sint (s64_round_down a n) = sint a - sint a mod uint n"
    using assms by (rule sint_s64_round_down)
  have "0 \<le> sint a mod uint n" and "sint a mod uint n < uint n" and "sint a mod uint n \<le> sint a"
    using assms by (simp_all add: zmod_le_nonneg_dividend)
  then show "0 \<le> sint (s64_round_down a n)" and "sint (s64_round_down a n) \<le> sint a"
    and "sint a - uint n < sint (s64_round_down a n)"
    unfolding eq by linarith+
  show "uint n dvd sint (s64_round_down a n)"
    unfolding eq by (rule dvd_minus_mod)
qed

end
