(* ===== verification/Kio_Transition.thy ===== *)
theory Kio_Transition
  imports Kio_Prelude "HOL-Library.Multiset"
begin

text \<open>
  The generic part of the concurrent components: a transition system is a set of start states and
  a step relation; an invariant holds in every reachable state; a system whose steps decrease a
  measure and that is never stuck before its final states reaches a final state on every run.  The
  worker thread of \<open>kio_run.c\<close> and the run controller interpret these locales on their own step
  relations.  The second half counts acquisitions and releases of kernel resources in a call trace.
\<close>

section \<open>Transition systems\<close>

locale transition_system =
  fixes start :: "'s \<Rightarrow> bool"
    and step :: "'s \<Rightarrow> 's \<Rightarrow> bool"
begin

definition reach :: "'s \<Rightarrow> bool" where
  "reach s \<longleftrightarrow> (\<exists>s0. start s0 \<and> step\<^sup>*\<^sup>* s0 s)"

lemma reach_start: "start s \<Longrightarrow> reach s"
  by (auto simp: reach_def)

lemma reach_step: "reach s \<Longrightarrow> step s t \<Longrightarrow> reach t"
  by (auto simp: reach_def intro: rtranclp.rtrancl_into_rtrancl)

lemma reach_steps: "reach s \<Longrightarrow> step\<^sup>*\<^sup>* s t \<Longrightarrow> reach t"
  by (auto simp: reach_def)

lemma steps_invariant:
  assumes "step\<^sup>*\<^sup>* s t" and "I s" and "\<And>x y. step x y \<Longrightarrow> I x \<Longrightarrow> I y"
  shows "I t"
  using assms(1,2) by (induction rule: rtranclp_induct) (auto intro: assms(3))

lemma reach_invariant:
  assumes "reach s" and "\<And>x. start x \<Longrightarrow> I x" and "\<And>x y. step x y \<Longrightarrow> I x \<Longrightarrow> I y"
  shows "I s"
  using assms by (auto simp: reach_def intro: steps_invariant)

end

text \<open>
  A terminating system: on the states that satisfy \<open>live\<close> every step decreases \<open>variant\<close> and keeps
  \<open>live\<close>, and a state with no step satisfies \<open>final\<close>.
\<close>

locale terminating_system =
  fixes step :: "'s \<Rightarrow> 's \<Rightarrow> bool"
    and live :: "'s \<Rightarrow> bool"
    and final :: "'s \<Rightarrow> bool"
    and variant :: "'s \<Rightarrow> nat"
  assumes live_step: "step s t \<Longrightarrow> live s \<Longrightarrow> live t"
    and variant_step: "step s t \<Longrightarrow> live s \<Longrightarrow> variant t < variant s"
    and progress: "live s \<Longrightarrow> \<not> final s \<Longrightarrow> \<exists>t. step s t"
begin

lemma run_length_bounded:
  assumes "(step ^^ n) s t" and "live s"
  shows "n + variant t \<le> variant s \<and> live t"
  using assms
proof (induction n arbitrary: t)
  case 0
  then show ?case by simp
next
  case (Suc n)
  then obtain u where u: "(step ^^ n) s u" and ut: "step u t"
    by auto
  from Suc.IH [OF u Suc.prems(2)] have "n + variant u \<le> variant s" and "live u"
    by simp_all
  with ut live_step variant_step show ?case
    by fastforce
qed

lemma steps_bounded:
  "step\<^sup>*\<^sup>* s t \<Longrightarrow> live s \<Longrightarrow> live t \<and> variant t \<le> variant s"
  using run_length_bounded by (fastforce simp: rtranclp_power)

lemma stuck_is_final: "step\<^sup>*\<^sup>* s t \<Longrightarrow> live s \<Longrightarrow> \<nexists>u. step t u \<Longrightarrow> final t"
  using steps_bounded progress by blast

lemma reaches_final: "live s \<Longrightarrow> \<exists>t. step\<^sup>*\<^sup>* s t \<and> final t \<and> live t"
proof (induction "variant s" arbitrary: s rule: less_induct)
  case less
  show ?case
  proof (cases "final s")
    case True
    with less.prems show ?thesis by blast
  next
    case False
    with less.prems progress obtain t where st: "step s t" by blast
    with less.hyps [of t] less.prems live_step variant_step obtain u
      where "step\<^sup>*\<^sup>* t u" and "final u" and "live u"
      by blast
    with st show ?thesis
      by (meson converse_rtranclp_into_rtranclp)
  qed
qed

end

section \<open>Acquiring and releasing kernel resources\<close>

datatype 'r res_event = Acq 'r | Rel 'r

text \<open>
  What a call trace leaves held, starting from the resources \<open>hs\<close>; \<open>None\<close> as soon as it releases
  something that is not held.
\<close>

fun held_after :: "'r list \<Rightarrow> 'r res_event list \<Rightarrow> 'r list option" where
  "held_after hs [] = Some hs"
| "held_after hs (Acq r # es) = held_after (r # hs) es"
| "held_after hs (Rel r # es) = (if r \<in> set hs then held_after (remove1 r hs) es else None)"

lemma held_after_append:
  "held_after hs (es @ fs) = Option.bind (held_after hs es) (\<lambda>hs'. held_after hs' fs)"
  by (induction hs es rule: held_after.induct) auto

lemma held_after_acquire: "held_after hs (map Acq rs) = Some (rev rs @ hs)"
  by (induction rs arbitrary: hs) auto

lemma held_after_release:
  assumes "mset rs \<subseteq># mset hs"
  shows "\<exists>hs'. held_after hs (map Rel rs) = Some hs' \<and> mset hs' = mset hs - mset rs"
  using assms
proof (induction rs arbitrary: hs)
  case Nil
  then show ?case by simp
next
  case (Cons r rs)
  then have "r \<in> set hs" and sub: "mset rs \<subseteq># mset (remove1 r hs)"
    by (auto simp: insert_subset_eq_iff)
  with Cons.IH [OF sub] show ?case
    by (auto simp: add_mset_commute)
qed

text \<open>Everything acquired is released in any order: nothing stays held, nothing is released twice.\<close>

lemma held_after_balanced:
  assumes "mset rs' = mset rs"
  shows "held_after [] (map Acq rs @ map Rel rs') = Some []"
proof -
  have "mset rs' \<subseteq># mset (rev rs)"
    using assms by simp
  then obtain hs' where "held_after (rev rs) (map Rel rs') = Some hs'" and "mset hs' = mset (rev rs) - mset rs'"
    using held_after_release by blast
  with assms show ?thesis
    by (simp add: held_after_append held_after_acquire)
qed

text \<open>Releasing what is neither held nor acquired first.\<close>

lemma held_after_bad_release:
  assumes "Rel r \<in> set es" and "Acq r \<notin> set es" and "r \<notin> set hs"
  shows "held_after hs es = None"
  using assms by (induction hs es rule: held_after.induct) (auto dest: notin_set_remove1)

end
