(* ===== verification/Kio_Compat.thy ===== *)
theory Kio_Compat
  imports Kio_Prelude
begin

text \<open>
  \<open>driver/kio_compat.h\<close>: which kernel interfaces the driver is compiled against, as a function of
  the kernel version, and the header's inline functions.  The macros that the driver's own code tests are
  fields of \<open>compat\<close>; those for memory management, MMU notifiers, tasks and module parameters, which the
  header also defines, follow in records and functions of their own.
\<close>

section \<open>Version tests\<close>

definition KERNEL_VERSION :: "int \<Rightarrow> int \<Rightarrow> int \<Rightarrow> int" where
  "KERNEL_VERSION a b c = a * 65536 + b * 256 + c"

datatype bio_disk_field = Bi_Bdev_Disk | Bi_Disk | Bi_Bdev

record compat =
  bio_disk_access :: bio_disk_field
  bdev_has_bd_part :: bool
  have_generic_make_request :: bool
  have_prandom_h :: bool
  gendisk_has_submit_bio :: bool
  use_bioset_init :: bool
  use_bioset_create :: bool
  bioset_create_has_flags :: bool

definition kio_compat :: "int \<Rightarrow> compat" where
  "kio_compat LINUX_VERSION_CODE = \<lparr>
     bio_disk_access =
       (if LINUX_VERSION_CODE \<ge> KERNEL_VERSION 5 12 0 then Bi_Bdev_Disk
        else if LINUX_VERSION_CODE \<ge> KERNEL_VERSION 4 13 0 then Bi_Disk
        else Bi_Bdev),
     bdev_has_bd_part = (LINUX_VERSION_CODE < KERNEL_VERSION 5 11 0),
     have_generic_make_request = (LINUX_VERSION_CODE < KERNEL_VERSION 5 9 0),
     have_prandom_h = (LINUX_VERSION_CODE \<ge> KERNEL_VERSION 5 9 0),
     gendisk_has_submit_bio = (\<not> LINUX_VERSION_CODE < KERNEL_VERSION 5 9 0),
     use_bioset_init = (LINUX_VERSION_CODE \<ge> KERNEL_VERSION 4 18 0),
     use_bioset_create = (\<not> LINUX_VERSION_CODE \<ge> KERNEL_VERSION 4 18 0),
     bioset_create_has_flags =
       (\<not> LINUX_VERSION_CODE \<ge> KERNEL_VERSION 4 18 0
        \<and> LINUX_VERSION_CODE \<ge> KERNEL_VERSION 4 13 0) \<rparr>"

section \<open>The fallback random number generator\<close>

text \<open>
  \<open>static long long state = 282589933; return (state = (state * 1664525) + 1013904223);\<close>: the new
  state is kept in 64 bits and returned truncated to 32.
\<close>

definition prandom_init :: s64 where
  "prandom_init = 282589933"

definition prandom_u32 :: "s64 \<Rightarrow> u32 \<times> s64" where
  "prandom_u32 state = (let state' = state * 1664525 + 1013904223 in (ucast state', state'))"

fun prandom_seq :: "nat \<Rightarrow> s64 \<Rightarrow> u32 list" where
  "prandom_seq 0 state = []"
| "prandom_seq (Suc n) state = (let (r, state') = prandom_u32 state in r # prandom_seq n state')"

section \<open>Inline wrappers\<close>

datatype vm_fault = VM_FAULT_OOM | VM_FAULT_SIGBUS | VM_FAULT_NOPAGE

text \<open>\<open>vmf_insert_pfn\<close> maps the result of \<open>vm_insert_pfn\<close>.\<close>

definition vmf_insert_pfn :: "int \<Rightarrow> vm_fault" where
  "vmf_insert_pfn err =
     (if err = - ENOMEM then VM_FAULT_OOM
      else if err < 0 \<and> err \<noteq> - EBUSY then VM_FAULT_SIGBUS
      else VM_FAULT_NOPAGE)"

text \<open>\<open>down_read_killable\<close>: the result and whether the semaphore was taken.\<close>

definition down_read_killable :: "bool \<Rightarrow> int \<times> bool" where
  "down_read_killable fatal_signal_pending =
     (if fatal_signal_pending then (- EINTR, False) else (0, True))"

text \<open>A task's affinity mask: \<open>cpus_allowed\<close> before 5.3, afterwards \<open>cpus_ptr\<close> unless it is NULL.\<close>

definition compat_task_cpus_allowed :: "int \<Rightarrow> 'mask \<Rightarrow> 'mask option \<Rightarrow> 'mask \<Rightarrow> 'mask" where
  "compat_task_cpus_allowed LINUX_VERSION_CODE cpus_allowed cpus_ptr cpus_mask =
     (if LINUX_VERSION_CODE < KERNEL_VERSION 5 3 0 then cpus_allowed
      else (case cpus_ptr of Some m \<Rightarrow> m | None \<Rightarrow> cpus_mask))"

text \<open>\<open>bdev_whole\<close> before 5.11 is the field \<open>bd_contains\<close>, and \<open>submit_bio_noacct\<close> before 5.9 another name for
  \<open>generic_make_request\<close>.\<close>

definition bdev_whole :: "int \<Rightarrow> ('bdev \<Rightarrow> 'bdev) \<Rightarrow> ('bdev \<Rightarrow> 'bdev) \<Rightarrow> 'bdev \<Rightarrow> 'bdev" where
  "bdev_whole LINUX_VERSION_CODE bd_contains kernel_bdev_whole bdev =
     (if LINUX_VERSION_CODE < KERNEL_VERSION 5 11 0 then bd_contains bdev else kernel_bdev_whole bdev)"

definition submit_bio_noacct :: "int \<Rightarrow> ('bio \<Rightarrow> 'qc) \<Rightarrow> ('bio \<Rightarrow> 'qc) \<Rightarrow> 'bio \<Rightarrow> 'qc" where
  "submit_bio_noacct LINUX_VERSION_CODE generic_make_request kernel_submit_bio_noacct bio =
     (if LINUX_VERSION_CODE < KERNEL_VERSION 5 9 0 then generic_make_request bio else kernel_submit_bio_noacct bio)"

section \<open>Memory management, tasks and notifiers\<close>

text \<open>The return type of an MMU notifier's start function with its two results, its arguments, and where it
  takes the range from.\<close>

datatype notifier_result = Returns_Void | Returns_Int int int

datatype notifier_range = Start_And_End_Args | Range_Struct_Arg

record mmu_notifier =
  start_result :: notifier_result
  mm_arg :: bool
  range_arg :: notifier_range
  blockable_arg :: bool

definition mmu_notifier_compat :: "int \<Rightarrow> mmu_notifier" where
  "mmu_notifier_compat LINUX_VERSION_CODE =
     (if LINUX_VERSION_CODE < KERNEL_VERSION 4 19 0 then
        \<lparr>start_result = Returns_Void, mm_arg = True, range_arg = Start_And_End_Args, blockable_arg = False\<rparr>
      else if LINUX_VERSION_CODE < KERNEL_VERSION 4 21 0 then
        \<lparr>start_result = Returns_Int 0 (- EAGAIN), mm_arg = True, range_arg = Start_And_End_Args, blockable_arg = True\<rparr>
      else
        \<lparr>start_result = Returns_Int 0 (- EAGAIN), mm_arg = False, range_arg = Range_Struct_Arg, blockable_arg = False\<rparr>)"

text \<open>Page faults; a macro that is only defined or not is a field that is true when it is defined.\<close>

record vm_compat =
  poll_t_is_unsigned :: bool
  vm_fault_t_is_int :: bool
  vm_fault_takes_vma_vmf :: bool
  vm_mkwrite_takes_vma_vmf :: bool
  vm_fault_has_ptl :: bool
  vm_fault_has_pte :: bool
  vm_fault_has_orig_pte :: bool
  have_vm_fault_env :: bool
  vmf_has_address :: bool
  use_p4d_t :: bool

definition vm_compat_of :: "int \<Rightarrow> vm_compat" where
  "vm_compat_of LINUX_VERSION_CODE = \<lparr>
     poll_t_is_unsigned = (LINUX_VERSION_CODE < KERNEL_VERSION 4 16 0),
     vm_fault_t_is_int = (LINUX_VERSION_CODE < KERNEL_VERSION 4 17 0),
     vm_fault_takes_vma_vmf = (LINUX_VERSION_CODE < KERNEL_VERSION 4 11 0),
     vm_mkwrite_takes_vma_vmf = (LINUX_VERSION_CODE < KERNEL_VERSION 4 11 0),
     vm_fault_has_ptl = (\<not> LINUX_VERSION_CODE < KERNEL_VERSION 4 10 0),
     vm_fault_has_pte = (\<not> LINUX_VERSION_CODE < KERNEL_VERSION 4 10 0),
     vm_fault_has_orig_pte = (\<not> LINUX_VERSION_CODE < KERNEL_VERSION 4 10 0),
     have_vm_fault_env = (LINUX_VERSION_CODE < KERNEL_VERSION 4 10 0),
     vmf_has_address = (\<not> LINUX_VERSION_CODE < KERNEL_VERSION 4 10 0),
     use_p4d_t = (LINUX_VERSION_CODE \<ge> KERNEL_VERSION 4 12 0) \<rparr>"

text \<open>Wrappers whose kernel function changed its arguments or its name.\<close>

definition compat_release_pages ::
  "int \<Rightarrow> ('pages \<Rightarrow> int \<Rightarrow> 'r) \<Rightarrow> ('pages \<Rightarrow> int \<Rightarrow> bool \<Rightarrow> 'r) \<Rightarrow> 'pages \<Rightarrow> int \<Rightarrow> 'r" where
  "compat_release_pages LINUX_VERSION_CODE release_pages release_pages_cold pages nr_pages =
     (if LINUX_VERSION_CODE > KERNEL_VERSION 4 14 0 then release_pages pages nr_pages
      else release_pages_cold pages nr_pages False)"

definition compat_cpumask_last :: "int \<Rightarrow> ('mask \<Rightarrow> nat) \<Rightarrow> ('mask \<Rightarrow> nat \<Rightarrow> nat) \<Rightarrow> nat \<Rightarrow> 'mask \<Rightarrow> nat" where
  "compat_cpumask_last LINUX_VERSION_CODE cpumask_last find_last_bit nr_cpumask_bits cpumask =
     (if LINUX_VERSION_CODE > KERNEL_VERSION 4 14 0 then cpumask_last cpumask
      else find_last_bit cpumask nr_cpumask_bits)"

definition flush_tlb_one_user :: "int \<Rightarrow> ('addr \<Rightarrow> 'r) \<Rightarrow> ('addr \<Rightarrow> 'r) \<Rightarrow> 'addr \<Rightarrow> 'r" where
  "flush_tlb_one_user LINUX_VERSION_CODE flush_tlb_single kernel_flush_tlb_one_user addr =
     (if LINUX_VERSION_CODE < KERNEL_VERSION 4 15 0 then flush_tlb_single addr else kernel_flush_tlb_one_user addr)"

definition compat_access_ok :: "int \<Rightarrow> ('type \<Rightarrow> 'addr \<Rightarrow> u64 \<Rightarrow> bool) \<Rightarrow> ('addr \<Rightarrow> u64 \<Rightarrow> bool) \<Rightarrow> 'type \<Rightarrow> 'addr \<Rightarrow> u64 \<Rightarrow> bool" where
  "compat_access_ok LINUX_VERSION_CODE access_ok_type access_ok type addr sz =
     (if LINUX_VERSION_CODE < KERNEL_VERSION 4 21 0 then access_ok_type type addr sz else access_ok addr sz)"

text \<open>Fields of bios and block devices.\<close>

record blk_compat =
  bvec_iter_has_bi_done :: bool
  bio_has_bi_status :: bool
  bio_has_bi_issue :: bool

definition blk_compat_of :: "int \<Rightarrow> blk_compat" where
  "blk_compat_of LINUX_VERSION_CODE = \<lparr>
     bvec_iter_has_bi_done = (LINUX_VERSION_CODE \<ge> KERNEL_VERSION 4 13 0),
     bio_has_bi_status = (LINUX_VERSION_CODE \<ge> KERNEL_VERSION 4 13 0),
     bio_has_bi_issue = (LINUX_VERSION_CODE \<ge> KERNEL_VERSION 4 18 0) \<rparr>"

text \<open>Tasks and the memory map.\<close>

record task_compat =
  task_struct_has_recent_used_cpu :: bool
  task_struct_has_cpus_allowed :: bool
  use_mmu_notifier_subscriptions :: bool
  use_mm_trace_rss_stat :: bool
  use_mmu_notifier_mm :: bool
  have_mmu_notifier_unregister_no_release :: bool
  have_mmu_notifier_range :: bool
  mmap_lock_is_mmap_sem :: bool

definition task_compat_of :: "int \<Rightarrow> task_compat" where
  "task_compat_of LINUX_VERSION_CODE = \<lparr>
     task_struct_has_recent_used_cpu = (LINUX_VERSION_CODE \<ge> KERNEL_VERSION 4 16 0),
     task_struct_has_cpus_allowed = (LINUX_VERSION_CODE < KERNEL_VERSION 5 3 0),
     use_mmu_notifier_subscriptions = (LINUX_VERSION_CODE \<ge> KERNEL_VERSION 5 5 0),
     use_mm_trace_rss_stat = (LINUX_VERSION_CODE \<ge> KERNEL_VERSION 5 5 0),
     use_mmu_notifier_mm = (\<not> LINUX_VERSION_CODE \<ge> KERNEL_VERSION 5 5 0),
     have_mmu_notifier_unregister_no_release = (LINUX_VERSION_CODE < KERNEL_VERSION 5 3 0),
     have_mmu_notifier_range = (LINUX_VERSION_CODE < KERNEL_VERSION 5 4 0),
     mmap_lock_is_mmap_sem = (LINUX_VERSION_CODE < KERNEL_VERSION 5 7 0) \<rparr>"

text \<open>\<open>vm_fault_release_vmf_ptl\<close> on the page table lock of a fault, a pointer to a lock that is held or not: it
  unlocks a held lock and clears the pointer.\<close>

definition vm_fault_release_vmf_ptl :: "int \<Rightarrow> bool option \<Rightarrow> bool option \<times> bool" where
  "vm_fault_release_vmf_ptl LINUX_VERSION_CODE ptl =
     (if vm_fault_has_ptl (vm_compat_of LINUX_VERSION_CODE) \<and> ptl = Some True then (None, True) else (ptl, False))"

text \<open>The type of an \<open>atomic64_t\<close> module parameter: the headers decide which of the two macros is defined, up to 4.20
  it is always the second, and without any of the headers the compilation stops.\<close>

datatype module_param = Param_Ullong | Param_Ulong

record param_headers =
  has_int_ll64_h :: bool
  has_int_l64_h :: bool
  has_config_64bit :: bool
  has_generic_atomic64_h :: bool

definition atomic64_module_param :: "int \<Rightarrow> param_headers \<Rightarrow> module_param option" where
  "atomic64_module_param LINUX_VERSION_CODE h =
     (let chosen = (if has_int_ll64_h h then Some Param_Ullong
                    else if has_int_l64_h h then Some Param_Ulong
                    else if has_config_64bit h then Some Param_Ulong
                    else if has_generic_atomic64_h h then Some Param_Ullong
                    else None)
      in if chosen \<noteq> None \<and> LINUX_VERSION_CODE \<le> KERNEL_VERSION 4 20 0 then Some Param_Ulong else chosen)"

section \<open>Facts\<close>

text \<open>For every kernel exactly one of two alternative interfaces is chosen.\<close>

lemma compat_exclusive:
  "use_bioset_init (kio_compat v) \<longleftrightarrow> \<not> use_bioset_create (kio_compat v)"
  "gendisk_has_submit_bio (kio_compat v) \<longleftrightarrow> \<not> have_generic_make_request (kio_compat v)"
  "use_mmu_notifier_subscriptions (task_compat_of v) \<longleftrightarrow> \<not> use_mmu_notifier_mm (task_compat_of v)"
  "have_vm_fault_env (vm_compat_of v) \<longleftrightarrow> \<not> vm_fault_has_ptl (vm_compat_of v)"
  "mm_arg (mmu_notifier_compat v) \<longleftrightarrow> range_arg (mmu_notifier_compat v) = Start_And_End_Args"
  by (simp_all add: kio_compat_def task_compat_of_def vm_compat_of_def mmu_notifier_compat_def)

text \<open>A blockable notifier can report a failure.\<close>

lemma blockable_notifier_fails:
  "blockable_arg (mmu_notifier_compat v) \<Longrightarrow> start_result (mmu_notifier_compat v) = Returns_Int 0 (- EAGAIN)"
  by (auto simp: mmu_notifier_compat_def split: if_splits)

text \<open>Releasing the page table lock twice unlocks it once.\<close>

lemma release_ptl_idempotent:
  "vm_fault_release_vmf_ptl v (fst (vm_fault_release_vmf_ptl v ptl)) = (fst (vm_fault_release_vmf_ptl v ptl), False)"
  by (simp add: vm_fault_release_vmf_ptl_def)

text \<open>The returned value depends on the low half of the state only, as a 32-bit recurrence.\<close>

lemma prandom_u32_low:
  "fst (prandom_u32 state) = ucast state * 1664525 + 1013904223"
  by (simp add: prandom_u32_def Let_def ucast_down_add ucast_down_mult)

lemma prandom_u32_parity:
  "even (fst (prandom_u32 state)) \<longleftrightarrow> odd (ucast state :: u32)"
  by (simp add: prandom_u32_low)

end
