(* ===== verification/Kio_Io.thy ===== *)
theory Kio_Io
  imports Kio_Transition Kio_Compat
begin

text \<open>
  \<open>driver/kio_io.c\<close> and \<open>driver/kio_io.h\<close>: opening and closing the target device, the check of an
  offset against the device, the time stamp kept in front of every bio, and the submission of one
  page of I/O.  What the kernel answers (the device found under a path, its size, whether a bio could
  be allocated) is an argument: \<open>io_env\<close> for the initialisation, \<open>submit_env\<close> for a submission.
\<close>

section \<open>State\<close>

text \<open>
  A block device as the driver reads it: \<open>bd_disk\<close> says whether \<open>bdev->bd_disk\<close> is set, \<open>bd_queue\<close>
  whether the disk has a queue, \<open>bd_whole\<close> whether \<open>bdev_whole(bdev)\<close> is the device itself, and
  \<open>bd_part_tbl\<close> is the disk's partition table (the start sector of each entry that is set).
\<close>

record block_device =
  bd_disk :: bool
  bd_queue :: bool
  bd_whole :: bool
  bd_partno :: u8
  bd_start_sect :: u64
  bd_part_tbl :: "u64 option list"

text \<open>\<open>struct kio_io\<close>.  The name is a pointer: its offset inside its allocation, and the text.\<close>

record kio_io =
  dev_name :: "(nat \<times> string) option"
  bdev :: "block_device option"
  dev_byte_size :: u64
  dev_block_size :: u32
  bio_set :: bool

definition kio_io_zero :: kio_io where
  "kio_io_zero = \<lparr>dev_name = None, bdev = None, dev_byte_size = 0, dev_block_size = 0, bio_set = False\<rparr>"

definition kio_io_dev_byte_size :: "kio_io \<Rightarrow> u64" where
  "kio_io_dev_byte_size io = dev_byte_size io"

definition kio_io_dev_block_size :: "kio_io \<Rightarrow> u32" where
  "kio_io_dev_block_size io = dev_block_size io"

definition kio_io_dev_name :: "kio_io \<Rightarrow> (nat \<times> string) option" where
  "kio_io_dev_name io = dev_name io"

section \<open>Initialisation and exit\<close>

datatype bdev_ptr = Bdev_Null | Bdev_Err int | Bdev_Ok block_device

record io_env =
  kio_block_device :: "string option"
  kstrdup :: "string \<Rightarrow> string option"
  strim :: "string option \<Rightarrow> (nat \<times> string) option"
  blkdev_get_by_path :: "string \<Rightarrow> bdev_ptr"
  queue_logical_block_size :: u32
  set_blocksize :: int
  i_size_read :: u64
  bioset_init :: int
  bioset_create :: bool
  env_compat :: compat

datatype io_res = Dev_Name nat | Bdev_Excl | Bio_Set

text \<open>
  The labels at the end of \<open>kio_io_init\<close>, each falling through to the next:
  \<open>err_put_back_bd\<close>, \<open>err_bio_set_init\<close> and \<open>err_no_queue\<close>, \<open>err_release_dev_name\<close>.
\<close>

definition err_release_dev_name :: "nat \<Rightarrow> io_res res_event list" where
  "err_release_dev_name off = [Rel (Dev_Name off)]"

definition err_no_queue :: "nat \<Rightarrow> io_res res_event list" where
  "err_no_queue off = Rel Bdev_Excl # err_release_dev_name off"

definition err_put_back_bd :: "nat \<Rightarrow> io_res res_event list" where
  "err_put_back_bd off = Rel Bio_Set # err_no_queue off"

text \<open>The return code, the new \<open>kio_io\<close> and the resources acquired and released, in order.\<close>

definition kio_io_init :: "io_env \<Rightarrow> kio_io \<Rightarrow> int \<times> kio_io \<times> io_res res_event list" where
  "kio_io_init env io =
    (case kio_block_device env of
       None \<Rightarrow> (- EINVAL, io, [])
     | Some path \<Rightarrow>
    (case strim env (kstrdup env path) of
       None \<Rightarrow> (- ENOMEM, io, [])
     | Some (off, name) \<Rightarrow>
    (let dup = [Acq (Dev_Name 0)] in
    (case blkdev_get_by_path env name of
       Bdev_Null \<Rightarrow> (- ENODEV, io, dup @ err_release_dev_name off)
     | Bdev_Err e \<Rightarrow> (if e = 0 then - ENODEV else e, io, dup @ err_release_dev_name off)
     | Bdev_Ok bd \<Rightarrow>
    (let got = dup @ [Acq Bdev_Excl] in
     if \<not> (bd_disk bd \<and> bd_queue bd) then (- ENODEV, io, got @ err_no_queue off)
     else if set_blocksize env \<noteq> 0 then (set_blocksize env, io, got @ err_put_back_bd off)
     else if i_size_read env < 1073741824 then (- ETOOSMALL, io, got @ err_put_back_bd off)
     else if use_bioset_init (env_compat env) \<and> bioset_init env \<noteq> 0
       then (bioset_init env, io, got @ err_no_queue off)
     else if use_bioset_create (env_compat env) \<and> \<not> bioset_create env
       then (- ENOMEM, io\<lparr>bio_set := False\<rparr>, got @ err_no_queue off)
     else (0, io\<lparr>bio_set := True, dev_name := Some (off, name), bdev := Some bd,
                 dev_block_size := queue_logical_block_size env,
                 dev_byte_size := i_size_read env\<rparr>,
           got @ [Acq Bio_Set]))))))"

text \<open>\<open>kfree(NULL)\<close> does nothing; \<open>blkdev_put\<close> of the device that is open.\<close>

definition kio_io_exit :: "kio_io \<Rightarrow> kio_io \<times> io_res res_event list" where
  "kio_io_exit io =
     (kio_io_zero,
      [Rel Bio_Set]
      @ (case dev_name io of None \<Rightarrow> [] | Some (off, _) \<Rightarrow> [Rel (Dev_Name off)])
      @ [Rel Bdev_Excl])"

section \<open>Offsets\<close>

text \<open>
  \<open>(off+size) <= kio_io.dev_byte_size && !(off % kio_io.dev_block_size)\<close>: the sum is unsigned
  (\<open>off_t\<close> plus \<open>size_t\<close>), the remainder signed; the remainder is evaluated only when the sum fits and
  traps when the device has no block size.
\<close>

definition kio_io_offset_is_valid :: "kio_io \<Rightarrow> s64 \<Rightarrow> u64 \<Rightarrow> fault + bool" where
  "kio_io_offset_is_valid io off sz =
     (if off + sz \<le> dev_byte_size io
      then (if dev_block_size io = 0 then Inl Div_By_Zero
            else Inr (s64_mod off (ucast (dev_block_size io)) = 0))
      else Inr False)"

section \<open>Bios\<close>

datatype bi_opf = REQ_OP_READ | REQ_OP_WRITE_SYNC
datatype bio_end_io = Kio_Bio_Completion

record bio =
  bi_front_pad :: s64
  bi_sector :: u64
  bi_partno :: u8
  bi_opf :: bi_opf
  bi_page :: nat
  bi_end_io :: bio_end_io
  bi_private :: nat

text \<open>
  \<open>KIO_USE_BIO_SET_MIN_COUNT\<close> is set, so the time stamp lives in the \<open>sizeof(s64)\<close> bytes of front
  padding that the bio set reserves before each bio, and its address is never NULL.
\<close>

definition kio_io_bio_set_start_time :: "s64 \<Rightarrow> bio \<Rightarrow> bio" where
  "kio_io_bio_set_start_time ktime b = b\<lparr>bi_front_pad := ktime\<rparr>"

definition kio_io_bio_get_start_time :: "bio \<Rightarrow> s64" where
  "kio_io_bio_get_start_time b = bi_front_pad b"

definition kio_bio_get_latency :: "s64 \<Rightarrow> bio \<Rightarrow> s64" where
  "kio_bio_get_latency ktime b =
     (let now = ktime; start = kio_io_bio_get_start_time b
      in if start \<noteq> 0 \<and> now > start then now - start else 0)"

section \<open>Submission\<close>

definition kio_disk_get_part :: "u64 option list \<Rightarrow> int \<Rightarrow> u64 option" where
  "kio_disk_get_part ptbl partno =
     (if partno < 0 \<or> partno \<ge> int (length ptbl) then None else ptbl ! nat partno)"

definition blk_partition_remap :: "compat \<Rightarrow> block_device \<Rightarrow> bio \<Rightarrow> bio" where
  "blk_partition_remap cc bd b =
     (if \<not> bd_whole bd then
        (if bdev_has_bd_part cc then
           (if bi_partno b \<noteq> 0 then b
            else (case kio_disk_get_part (bd_part_tbl bd) (uint (bi_partno b)) of
                    Some start_sect \<Rightarrow> b\<lparr>bi_sector := bi_sector b + start_sect, bi_partno := 0\<rparr>
                  | None \<Rightarrow> b))
         else b\<lparr>bi_sector := bi_sector b + bd_start_sect bd\<rparr>)
      else b)"

text \<open>\<open>bio_has_disk\<close> after \<open>bio_set_dev(bio, bdev)\<close>, in the header's three variants.\<close>

definition bio_has_disk :: "compat \<Rightarrow> block_device \<Rightarrow> bool" where
  "bio_has_disk cc bd =
     (case bio_disk_access cc of
        Bi_Bdev_Disk \<Rightarrow> bd_disk bd
      | Bi_Disk \<Rightarrow> bd_disk bd
      | Bi_Bdev \<Rightarrow> True)"

record submit_env =
  page_size :: u64
  bio_alloc_bioset :: bool
  submit_ktime :: s64
  bio_add_page :: s32
  bio_bvec_ok :: bool
  io_submit_mode :: u32
  sub_compat :: compat

datatype submit_via = Submit_Bio | Submit_Bio_Noacct | Disk_Submit_Bio | Make_Request_Fn

datatype bio_event = Bio_Alloc | Bio_Put | Bio_Submitted submit_via bio

text \<open>
  \<open>kio_io_submit\<close>: the return code and what happened to the bio.  \<open>bio_bvec_ok\<close> says that the bio
  has a vector and a page once \<open>bio_add_page\<close> has succeeded.  \<open>SECTOR_SHIFT\<close> is 9.  Without a device
  \<open>bio_set_dev\<close> dereferences the null pointer; before 4.13 it only stores it, and the bio has no disk.
\<close>

definition kio_io_submit ::
  "submit_env \<Rightarrow> kio_io \<Rightarrow> s64 \<Rightarrow> nat option \<Rightarrow> bool \<Rightarrow> nat \<Rightarrow> fault + int \<times> bio_event list" where
  "kio_io_submit env io off page is_write private =
    (case page of
       None \<Rightarrow> Inr (- EFAULT, [])
     | Some pg \<Rightarrow>
    (case kio_io_offset_is_valid io off (page_size env) of
       Inl f \<Rightarrow> Inl f
     | Inr False \<Rightarrow> Inr (- EINVAL, [])
     | Inr True \<Rightarrow>
    (if \<not> bio_alloc_bioset env then Inr (- ENOMEM, [])
     else (case bdev io of
       None \<Rightarrow> (if bio_disk_access (sub_compat env) = Bi_Bdev then Inr (- EIO, [Bio_Alloc, Bio_Put])
                else Inl Null_Deref)
     | Some bd \<Rightarrow>
     if bio_add_page env = 0 then Inr (- EIO, [Bio_Alloc, Bio_Put])
     else if \<not> bio_has_disk (sub_compat env) bd then Inr (- EIO, [Bio_Alloc, Bio_Put])
     else if \<not> bio_bvec_ok env then Inr (- EIO, [Bio_Alloc, Bio_Put])
     else
       (let b = kio_io_bio_set_start_time (submit_ktime env)
                  \<lparr>bi_front_pad = 0,
                   bi_sector = signed_drop_bit 9 off,
                   bi_partno = bd_partno bd,
                   bi_opf = (if is_write then REQ_OP_WRITE_SYNC else REQ_OP_READ),
                   bi_page = pg,
                   bi_end_io = Kio_Bio_Completion,
                   bi_private = private\<rparr>
        in Inr (0, [Bio_Alloc,
             (if io_submit_mode env = 1 then Bio_Submitted Submit_Bio_Noacct b
              else if io_submit_mode env = 2 then
                Bio_Submitted
                  (if gendisk_has_submit_bio (sub_compat env) then Disk_Submit_Bio else Make_Request_Fn)
                  (blk_partition_remap (sub_compat env) bd b)
              else Bio_Submitted Submit_Bio b)]))))))"

definition kio_io_submit_write ::
  "submit_env \<Rightarrow> kio_io \<Rightarrow> nat option \<Rightarrow> s64 \<Rightarrow> nat \<Rightarrow> fault + int \<times> bio_event list" where
  "kio_io_submit_write env io page off private = kio_io_submit env io off page True private"

definition kio_io_submit_read ::
  "submit_env \<Rightarrow> kio_io \<Rightarrow> s64 \<Rightarrow> nat option \<Rightarrow> nat \<Rightarrow> fault + int \<times> bio_event list" where
  "kio_io_submit_read env io off page private = kio_io_submit env io off page False private"

section \<open>Facts about offsets and time stamps\<close>

lemma offset_is_valid_iff:
  assumes "0 \<le> sint off" and "sint off + uint sz < 2 ^ 64" and "dev_block_size io \<noteq> 0"
  shows "kio_io_offset_is_valid io off sz
    = Inr (sint off + uint sz \<le> uint (dev_byte_size io) \<and> uint (dev_block_size io) dvd sint off)"
proof -
  have off: "uint off = sint off"
    using assms(1) by (rule uint_of_sint_nonneg)
  then have fits: "off + sz \<le> dev_byte_size io \<longleftrightarrow> sint off + uint sz \<le> uint (dev_byte_size io)"
    using assms(2) by (simp add: word_le_def uint_add_bounded)
  have pos: "0 < uint (dev_block_size io)"
    using assms(3) by (simp add: word_neq_0_conv word_less_def)
  then have "sint (s64_mod off (ucast (dev_block_size io))) = sint off mod uint (dev_block_size io)"
    using assms(1) by (simp add: sint_s64_mod)
  then have "s64_mod off (ucast (dev_block_size io)) = 0 \<longleftrightarrow> uint (dev_block_size io) dvd sint off"
    by (metis dvd_eq_mod_eq_0 signed_0 signed_word_eqI)
  with fits assms(3) show ?thesis
    by (simp add: kio_io_offset_is_valid_def)
qed

text \<open>A stamp that was set is read back, and the latency is the clock's advance since then.\<close>

lemma start_time_round_trip [simp]:
  "kio_io_bio_get_start_time (kio_io_bio_set_start_time t b) = t"
  by (simp add: kio_io_bio_get_start_time_def kio_io_bio_set_start_time_def)

lemma latency_eq:
  assumes "0 < sint start" and "0 \<le> sint now"
  shows "sint (kio_bio_get_latency now (kio_io_bio_set_start_time start b)) = max 0 (sint now - sint start)"
proof -
  have nz: "start \<noteq> 0"
    using assms(1) by auto
  have "sint now < 2 ^ 63"
    using sint_lt [of now] by simp
  then have d: "sint start \<le> sint now \<Longrightarrow> sint (now - start) = sint now - sint start"
    using assms by (intro sint_diff_bounded) auto
  have "start < now \<longleftrightarrow> sint start < sint now"
    using assms by (simp add: word_less_def uint_of_sint_nonneg)
  with nz d show ?thesis
    by (auto simp: kio_bio_get_latency_def Let_def)
qed

end
