(* ===== verification/Kio_Text.thy ===== *)
theory Kio_Text
  imports Kio_Prelude
begin

text \<open>
  The text the driver reads and writes through sysfs: \<open>sprintf\<close> with \<open>%d\<close> and \<open>%ld\<close>, and a decimal
  reader that accepts what these print.  The kernel's own readers (\<open>kstrtol\<close>, \<open>sscanf\<close>) are arguments
  of the handlers that call them; \<open>read_long\<close> is one function that meets what the handlers rely on.
\<close>

section \<open>Printing\<close>

definition digit_char :: "nat \<Rightarrow> char" where
  "digit_char d = char_of (48 + d)"

fun dec_nat :: "nat \<Rightarrow> string" where
  "dec_nat n = (if n < 10 then [digit_char n] else dec_nat (n div 10) @ [digit_char (n mod 10)])"

declare dec_nat.simps [simp del]

definition dec_int :: "int \<Rightarrow> string" where
  "dec_int i = (if i < 0 then CHR ''-'' # dec_nat (nat (- i)) else dec_nat (nat i))"

abbreviation newline :: char where
  "newline \<equiv> CHR 0x0A"

definition sprintf_ld :: "s64 \<Rightarrow> string" where
  "sprintf_ld v = dec_int (sint v) @ [newline]"

definition sprintf_d :: "s32 \<Rightarrow> string" where
  "sprintf_d v = dec_int (sint v) @ [newline]"

section \<open>Reading back\<close>

definition char_digit :: "char \<Rightarrow> nat option" where
  "char_digit c = (let k = of_char c :: nat in if 48 \<le> k \<and> k \<le> 57 then Some (k - 48) else None)"

fun read_digits :: "nat \<Rightarrow> string \<Rightarrow> nat \<times> string" where
  "read_digits acc [] = (acc, [])"
| "read_digits acc (c # cs) =
     (case char_digit c of None \<Rightarrow> (acc, c # cs) | Some d \<Rightarrow> read_digits (acc * 10 + d) cs)"

definition read_int :: "string \<Rightarrow> (int \<times> string) option" where
  "read_int cs =
     (let neg = (cs \<noteq> [] \<and> hd cs = CHR ''-''); ds = (if neg then tl cs else cs) in
      case ds of
        [] \<Rightarrow> None
      | d # _ \<Rightarrow> (if char_digit d = None then None
                 else let (n, rest) = read_digits 0 ds in
                   Some (if neg then - int n else int n, rest)))"

text \<open>A whole line holding one number of the range of \<open>long\<close>; otherwise a negative error code.\<close>

definition read_long :: "string \<Rightarrow> int + s64" where
  "read_long cs =
     (case read_int cs of
        Some (i, rest) \<Rightarrow>
          (if rest \<noteq> [] \<and> rest \<noteq> [newline] then Inl (- EINVAL)
           else if i < - (2 ^ 63) \<or> i \<ge> 2 ^ 63 then Inl (- ERANGE)
           else Inr (word_of_int i))
      | None \<Rightarrow> Inl (- EINVAL))"

text \<open>\<open>%d\<close> of \<open>sscanf\<close> on text that starts with a number that fits an \<open>int\<close>.\<close>

definition scan_d :: "string \<Rightarrow> s32 option" where
  "scan_d cs = map_option (\<lambda>(i, _). word_of_int i) (read_int cs)"

section \<open>Reading what was printed\<close>

lemma char_digit_digit_char: "d < 10 \<Longrightarrow> char_digit (digit_char d) = Some d"
  by (simp add: char_digit_def digit_char_def of_char_of Let_def)

lemma digit_char_not_minus:
  assumes "d < 10"
  shows "digit_char d \<noteq> CHR ''-''"
proof
  assume "digit_char d = CHR ''-''"
  with assms have "char_digit (CHR ''-'') = Some d"
    using char_digit_digit_char by metis
  then show False
    by (simp add: char_digit_def)
qed

lemma dec_nat_not_Nil [simp]: "dec_nat n \<noteq> []"
  by (subst dec_nat.simps) simp

lemma hd_dec_nat: "\<exists>d < 10. hd (dec_nat n) = digit_char d"
proof (induction n rule: dec_nat.induct)
  case (1 n)
  then show ?case
    by (cases "n < 10") (auto simp: dec_nat.simps [of n] hd_append)
qed

lemma read_digits_append_digit:
  assumes "read_digits acc cs = (m, [])" and "d < 10"
  shows "read_digits acc (cs @ digit_char d # rest) = read_digits (m * 10 + d) rest"
  using assms
  by (induction acc cs rule: read_digits.induct) (auto simp: char_digit_digit_char split: option.splits)

lemma read_digits_dec_nat: "\<exists>m. read_digits acc (dec_nat n) = (m, []) \<and> (acc = 0 \<longrightarrow> m = n)"
proof (induction n rule: dec_nat.induct)
  case (1 n)
  show ?case
  proof (cases "n < 10")
    case True
    then show ?thesis
      by (simp add: dec_nat.simps [of n] char_digit_digit_char)
  next
    case False
    with 1 obtain m where m: "read_digits acc (dec_nat (n div 10)) = (m, [])"
      and eq: "acc = 0 \<longrightarrow> m = n div 10"
      by blast
    have "read_digits acc (dec_nat n) = (m * 10 + n mod 10, [])"
      using read_digits_append_digit [OF m, of "n mod 10" "[]"] False
      by (simp add: dec_nat.simps [of n])
    with eq show ?thesis
      by auto
  qed
qed

lemma read_digits_rest:
  assumes "read_digits acc cs = (m, [])" and "\<And>c. rest \<noteq> [] \<Longrightarrow> char_digit (hd rest) = None"
  shows "read_digits acc (cs @ rest) = (m, rest)"
  using assms
proof (induction acc cs rule: read_digits.induct)
  case (1 acc)
  then show ?case by (cases rest) auto
next
  case (2 acc c cs)
  then show ?case by (auto split: option.splits)
qed

lemma char_digit_newline [simp]: "char_digit newline = None"
  by (simp add: char_digit_def)

lemma read_int_dec_int: "read_int (dec_int i @ [newline]) = Some (i, [newline])"
proof -
  obtain d where d: "d < 10" "hd (dec_nat (nat \<bar>i\<bar>)) = digit_char d"
    using hd_dec_nat by blast
  then obtain ds where ds: "dec_nat (nat \<bar>i\<bar>) = digit_char d # ds"
    by (metis dec_nat_not_Nil list.collapse)
  obtain m where "read_digits 0 (dec_nat (nat \<bar>i\<bar>)) = (m, [])" and "m = nat \<bar>i\<bar>"
    using read_digits_dec_nat by blast
  then have r: "read_digits 0 (digit_char d # ds @ [newline]) = (nat \<bar>i\<bar>, [newline])"
    using read_digits_rest [of 0 "dec_nat (nat \<bar>i\<bar>)" m "[newline]"] ds by simp
  have s: "dec_int i @ [newline]
      = (if i < 0 then CHR ''-'' # digit_char d # ds @ [newline] else digit_char d # ds @ [newline])"
    using ds by (cases "i < 0") (simp_all add: dec_int_def)
  show ?thesis
    unfolding s read_int_def
    using d(1) r by (simp add: char_digit_digit_char digit_char_not_minus Let_def)
qed

lemma read_long_sprintf_ld: "read_long (sprintf_ld v) = Inr v"
proof -
  have "- (2 ^ 63) \<le> sint v" and "sint v < 2 ^ 63"
    using sint_ge [of v] sint_lt [of v] by simp_all
  then show ?thesis
    by (simp add: read_long_def sprintf_ld_def read_int_dec_int)
qed

lemma scan_d_sprintf_d: "scan_d (sprintf_d v) = Some v"
  by (simp add: scan_d_def sprintf_d_def read_int_dec_int)

end
