(* ===== verification/Kio_Config.thy ===== *)
theory Kio_Config
  imports Kio_Io Kio_Text
begin

text \<open>
  \<open>driver/kio_config.c\<close> and \<open>driver/kio_config.h\<close>: the benchmark's configuration, its validation
  against the device, and the sysfs attributes through which it is read and written.  A handler
  returns the value of the C function and the new configuration; a handler that creates or destroys
  kernel objects also returns the resources it acquired and released, in order.  \<open>Inl\<close> is a run that
  dereferences a null pointer.  The handlers of the global attributes hold \<open>kio_config.mutex\<close> from
  their first to their last statement, so each is one step.
\<close>

section \<open>State\<close>

record kio_thread_config =
  ktc_kobj :: "kobj option"
  ktc_offset_low :: s64
  ktc_offset_high :: s64
  ktc_block_size :: u32
  ktc_queue_depth :: u32
  ktc_offset_stride :: s32
  ktc_offset_random :: "1 word"
  ktc_burst_delay :: "1 word"
  ktc_burst_finish :: "1 word"
  ktc_read_mix_percent :: u8
  ktc_read_burst :: u32
  ktc_write_burst :: u32
  ktc_read_sleep_usec :: u32
  ktc_write_sleep_usec :: u32

definition KIO_MAX_RUNTIME_SECONDS :: nat where
  "KIO_MAX_RUNTIME_SECONDS = 3600"

text \<open>\<open>struct kio_config\<close>; \<open>threads\<close> is a null pointer or an array of \<open>num_threads\<close> elements.\<close>

record kio_config =
  runtime_seconds :: u32
  num_threads :: u32
  threads :: "kio_thread_config list option"

text \<open>What \<open>kzalloc\<close> and \<open>memset\<close> leave.\<close>

definition ktc_zero :: kio_thread_config where
  "ktc_zero = \<lparr>ktc_kobj = None, ktc_offset_low = 0, ktc_offset_high = 0, ktc_block_size = 0,
     ktc_queue_depth = 0, ktc_offset_stride = 0, ktc_offset_random = 0, ktc_burst_delay = 0,
     ktc_burst_finish = 0, ktc_read_mix_percent = 0, ktc_read_burst = 0, ktc_write_burst = 0,
     ktc_read_sleep_usec = 0, ktc_write_sleep_usec = 0\<rparr>"

definition kio_config_zero :: kio_config where
  "kio_config_zero = \<lparr>runtime_seconds = 0, num_threads = 0, threads = None\<rparr>"

text \<open>
  The kernel functions the configuration code calls.  \<open>kstrtol\<close> (with base 0) gives a negative code or
  the value; \<open>sscanf_d\<close> is the conversion of \<open>"%du"\<close>, \<open>None\<close> when nothing was converted.
\<close>

record cfg_env =
  num_online_cpus :: u32
  is_power_of_2 :: "u64 \<Rightarrow> bool"
  kstrtol :: "string \<Rightarrow> int + s64"
  sscanf_d :: "string \<Rightarrow> s32 option"
  kzalloc_threads :: bool
  kobject_create_and_add :: "string \<Rightarrow> kobj option"
  sysfs_create_file :: "kobj \<Rightarrow> string \<Rightarrow> int"

text \<open>The loops over \<open>kio_config.threads[i]\<close>: no access when there is no thread.\<close>

definition config_threads :: "kio_config \<Rightarrow> fault + kio_thread_config list" where
  "config_threads c =
     (if num_threads c = 0 then Inr []
      else case threads c of None \<Rightarrow> Inl Null_Deref | Some ts \<Rightarrow> Inr ts)"

section \<open>Validation\<close>

text \<open>The comparisons of \<open>CHECK_VAR\<close> and \<open>CHECK_THRD_VAR\<close>, in the type of the variable.\<close>

definition check_u :: "'a::len word \<Rightarrow> 'a word \<Rightarrow> 'a word \<Rightarrow> bool" where
  "check_u val mn mx = (\<not> (val < mn \<or> val > mx))"

definition check_s :: "'a::len word \<Rightarrow> 'a word \<Rightarrow> 'a word \<Rightarrow> bool" where
  "check_s val mn mx = (\<not> (sint val < sint mn \<or> sint val > sint mx))"

definition LONG_MAX :: s64 where
  "LONG_MAX = 9223372036854775807"

text \<open>The range checks at the head of the loop body.\<close>

definition thread_ranges_ok :: "kio_thread_config \<Rightarrow> bool" where
  "thread_ranges_ok t \<longleftrightarrow>
     check_u (ktc_block_size t) 512 1048576 \<and>
     check_s (ktc_offset_stride t) 512 1048576 \<and>
     check_u (ktc_queue_depth t) 1 1024 \<and>
     check_s (ktc_offset_low t) 0 LONG_MAX \<and>
     check_s (ktc_offset_high t) 0 LONG_MAX \<and>
     check_u (ktc_read_mix_percent t) 0 100 \<and>
     check_u (ktc_read_burst t) 0 1024 \<and>
     check_u (ktc_write_burst t) 0 1024 \<and>
     check_u (ktc_read_sleep_usec t) 0 100000 \<and>
     check_u (ktc_write_sleep_usec t) 0 100000"

text \<open>Capping \<open>offset_high\<close> to the device.\<close>

definition cap_offset_high :: "u64 \<Rightarrow> kio_thread_config \<Rightarrow> kio_thread_config" where
  "cap_offset_high dev_size t =
     (if ktc_offset_high t + ucast (ktc_block_size t) > dev_size
      then t\<lparr>ktc_offset_high := dev_size - ucast (ktc_block_size t)\<rparr> else t)"

text \<open>One iteration of the loop: the verdict and the thread's configuration, which may be capped.\<close>

definition kio_config_thread_is_valid ::
  "cfg_env \<Rightarrow> u64 \<Rightarrow> kio_thread_config \<Rightarrow> bool \<times> kio_thread_config" where
  "kio_config_thread_is_valid env dev_size t =
     (if \<not> thread_ranges_ok t then (False, t)
      else if \<not> is_power_of_2 env (ucast (ktc_block_size t)) then (False, t)
      else if ktc_offset_low t + ucast (ktc_block_size t) > dev_size then (False, t)
      else
        (let t' = cap_offset_high dev_size t in
         if sint (ktc_offset_low t') \<ge> sint (ktc_offset_high t') then (False, t')
         else if ktc_read_burst t' = 0 \<and> ktc_write_burst t' = 0 then (False, t')
         else if ktc_read_mix_percent t' = 100 \<and> ktc_read_burst t' = 0 then (False, t')
         else if ktc_read_mix_percent t' = 0 \<and> ktc_write_burst t' = 0 then (False, t')
         else (True, t')))"

fun kio_config_threads_are_valid ::
  "cfg_env \<Rightarrow> u64 \<Rightarrow> kio_thread_config list \<Rightarrow> bool \<times> kio_thread_config list" where
  "kio_config_threads_are_valid env dev_size [] = (True, [])"
| "kio_config_threads_are_valid env dev_size (t # ts) =
     (let (ok, t') = kio_config_thread_is_valid env dev_size t in
      if ok then (let (oks, ts') = kio_config_threads_are_valid env dev_size ts in (oks, t' # ts'))
      else (False, t' # ts))"

definition kio_config_is_valid ::
  "cfg_env \<Rightarrow> kio_io \<Rightarrow> kio_config \<Rightarrow> fault + bool \<times> kio_config" where
  "kio_config_is_valid env io c =
     (if \<not> check_u (num_threads c) 1 (num_online_cpus env) then Inr (False, c)
      else if \<not> check_u (runtime_seconds c) 1 (of_nat KIO_MAX_RUNTIME_SECONDS) then Inr (False, c)
      else (case config_threads c of
              Inl f \<Rightarrow> Inl f
            | Inr ts \<Rightarrow>
                (let (ok, ts') = kio_config_threads_are_valid env (kio_io_dev_byte_size io) ts
                 in Inr (ok, c\<lparr>threads := Some ts'\<rparr>))))"

section \<open>Thread attributes\<close>

datatype kio_var =
    KIO_BLOCK_SIZE | KIO_QUEUE_DEPTH | KIO_OFFSET_RANDOM | KIO_OFFSET_STRIDE | KIO_OFFSET_LOW
  | KIO_OFFSET_HIGH | KIO_READ_MIX_PERCENT | KIO_BURST_DELAY | KIO_BURST_FINISH | KIO_READ_BURST
  | KIO_WRITE_BURST | KIO_READ_SLEEP_USEC | KIO_WRITE_SLEEP_USEC

text \<open>The enumeration in the order of its values, and the attribute's file name.\<close>

definition kio_vars :: "kio_var list" where
  "kio_vars = [KIO_BLOCK_SIZE, KIO_QUEUE_DEPTH, KIO_OFFSET_RANDOM, KIO_OFFSET_STRIDE, KIO_OFFSET_LOW,
     KIO_OFFSET_HIGH, KIO_READ_MIX_PERCENT, KIO_BURST_DELAY, KIO_BURST_FINISH, KIO_READ_BURST,
     KIO_WRITE_BURST, KIO_READ_SLEEP_USEC, KIO_WRITE_SLEEP_USEC]"

fun kio_attr_name :: "kio_var \<Rightarrow> string" where
  "kio_attr_name KIO_BLOCK_SIZE = ''block_size''"
| "kio_attr_name KIO_QUEUE_DEPTH = ''queue_depth''"
| "kio_attr_name KIO_OFFSET_RANDOM = ''offset_random''"
| "kio_attr_name KIO_OFFSET_STRIDE = ''offset_stride''"
| "kio_attr_name KIO_OFFSET_LOW = ''offset_low''"
| "kio_attr_name KIO_OFFSET_HIGH = ''offset_high''"
| "kio_attr_name KIO_READ_MIX_PERCENT = ''read_mix_percent''"
| "kio_attr_name KIO_BURST_DELAY = ''burst_delay''"
| "kio_attr_name KIO_BURST_FINISH = ''burst_finish''"
| "kio_attr_name KIO_READ_BURST = ''read_burst''"
| "kio_attr_name KIO_WRITE_BURST = ''write_burst''"
| "kio_attr_name KIO_READ_SLEEP_USEC = ''read_sleep_usec''"
| "kio_attr_name KIO_WRITE_SLEEP_USEC = ''write_sleep_usec''"

definition kio_var_of_index :: "nat \<Rightarrow> kio_var option" where
  "kio_var_of_index i = (if i < length kio_vars then Some (kio_vars ! i) else None)"

text \<open>\<open>value = ktc->...\<close>: every field widened to \<open>long\<close>, the stride with its sign.\<close>

fun kio_var_get :: "kio_var \<Rightarrow> kio_thread_config \<Rightarrow> s64" where
  "kio_var_get KIO_BLOCK_SIZE t = ucast (ktc_block_size t)"
| "kio_var_get KIO_QUEUE_DEPTH t = ucast (ktc_queue_depth t)"
| "kio_var_get KIO_OFFSET_RANDOM t = ucast (ktc_offset_random t)"
| "kio_var_get KIO_OFFSET_STRIDE t = scast (ktc_offset_stride t)"
| "kio_var_get KIO_OFFSET_LOW t = ktc_offset_low t"
| "kio_var_get KIO_OFFSET_HIGH t = ktc_offset_high t"
| "kio_var_get KIO_READ_MIX_PERCENT t = ucast (ktc_read_mix_percent t)"
| "kio_var_get KIO_BURST_DELAY t = ucast (ktc_burst_delay t)"
| "kio_var_get KIO_BURST_FINISH t = ucast (ktc_burst_finish t)"
| "kio_var_get KIO_READ_BURST t = ucast (ktc_read_burst t)"
| "kio_var_get KIO_WRITE_BURST t = ucast (ktc_write_burst t)"
| "kio_var_get KIO_READ_SLEEP_USEC t = ucast (ktc_read_sleep_usec t)"
| "kio_var_get KIO_WRITE_SLEEP_USEC t = ucast (ktc_write_sleep_usec t)"

text \<open>\<open>ktc->... = value\<close>: the \<open>long\<close> truncated to the field.\<close>

fun kio_var_set :: "kio_var \<Rightarrow> s64 \<Rightarrow> kio_thread_config \<Rightarrow> kio_thread_config" where
  "kio_var_set KIO_BLOCK_SIZE v t = t\<lparr>ktc_block_size := ucast v\<rparr>"
| "kio_var_set KIO_QUEUE_DEPTH v t = t\<lparr>ktc_queue_depth := ucast v\<rparr>"
| "kio_var_set KIO_OFFSET_RANDOM v t = t\<lparr>ktc_offset_random := ucast v\<rparr>"
| "kio_var_set KIO_OFFSET_STRIDE v t = t\<lparr>ktc_offset_stride := ucast v\<rparr>"
| "kio_var_set KIO_OFFSET_LOW v t = t\<lparr>ktc_offset_low := v\<rparr>"
| "kio_var_set KIO_OFFSET_HIGH v t = t\<lparr>ktc_offset_high := v\<rparr>"
| "kio_var_set KIO_READ_MIX_PERCENT v t = t\<lparr>ktc_read_mix_percent := ucast v\<rparr>"
| "kio_var_set KIO_BURST_DELAY v t = t\<lparr>ktc_burst_delay := ucast v\<rparr>"
| "kio_var_set KIO_BURST_FINISH v t = t\<lparr>ktc_burst_finish := ucast v\<rparr>"
| "kio_var_set KIO_READ_BURST v t = t\<lparr>ktc_read_burst := ucast v\<rparr>"
| "kio_var_set KIO_WRITE_BURST v t = t\<lparr>ktc_write_burst := ucast v\<rparr>"
| "kio_var_set KIO_READ_SLEEP_USEC v t = t\<lparr>ktc_read_sleep_usec := ucast v\<rparr>"
| "kio_var_set KIO_WRITE_SLEEP_USEC v t = t\<lparr>ktc_write_sleep_usec := ucast v\<rparr>"

text \<open>The index of the first thread whose \<open>kobj\<close> is the given one; \<open>None\<close> for NULL.\<close>

fun index_of_kobj :: "kobj \<Rightarrow> kio_thread_config list \<Rightarrow> nat option" where
  "index_of_kobj k [] = None"
| "index_of_kobj k (t # ts) =
     (if ktc_kobj t = Some k then Some 0 else map_option Suc (index_of_kobj k ts))"

definition kio_thread_config_from_kobj :: "kio_config \<Rightarrow> kobj \<Rightarrow> fault + nat option" where
  "kio_thread_config_from_kobj c k =
     (case config_threads c of Inl f \<Rightarrow> Inl f | Inr ts \<Rightarrow> Inr (index_of_kobj k ts))"

definition kio_thread_var_show :: "kio_config \<Rightarrow> kobj \<Rightarrow> nat \<Rightarrow> fault + (int + string)" where
  "kio_thread_var_show c k var_index =
     (case kio_thread_config_from_kobj c k of
        Inl f \<Rightarrow> Inl f
      | Inr None \<Rightarrow> Inr (Inl (- ENODEV))
      | Inr (Some i) \<Rightarrow>
          (case kio_var_of_index var_index of
             None \<Rightarrow> Inr (Inl (- ENOENT))
           | Some v \<Rightarrow> Inr (Inr (sprintf_ld (kio_var_get v (the (threads c) ! i))))))"

definition kio_thread_var_store ::
  "cfg_env \<Rightarrow> bool \<Rightarrow> kobj \<Rightarrow> string \<Rightarrow> u64 \<Rightarrow> nat \<Rightarrow> kio_config \<Rightarrow> fault + int \<times> kio_config" where
  "kio_thread_var_store env is_running k buf len var_index c =
     (if is_running then Inr (- EBUSY, c)
      else (case kio_thread_config_from_kobj c k of
        Inl f \<Rightarrow> Inl f
      | Inr None \<Rightarrow> Inr (- ENODEV, c)
      | Inr (Some i) \<Rightarrow>
          (case kstrtol env buf of
             Inl rc \<Rightarrow> Inr (rc, c)
           | Inr v \<Rightarrow>
               (case kio_var_of_index var_index of
                  None \<Rightarrow> Inr (- ENOENT, c)
                | Some var \<Rightarrow>
                    Inr (sint len,
                         c\<lparr>threads := Some ((the (threads c))[i := kio_var_set var v (the (threads c) ! i)])\<rparr>)))))"

section \<open>Creating and destroying the thread objects\<close>

datatype cfg_res = Kobj kobj | Threads_Array

text \<open>\<open>VAR_CREATE_FILE\<close> for one attribute after the other, up to the first failure.\<close>

fun create_files :: "cfg_env \<Rightarrow> kobj \<Rightarrow> string list \<Rightarrow> int" where
  "create_files env k [] = 0"
| "create_files env k (f # fs) =
     (if sysfs_create_file env k f \<noteq> 0 then sysfs_create_file env k f else create_files env k fs)"

text \<open>
  \<open>kio_config_create_thread\<close>: on a failure to create a file the object is put, and the pointer to
  it stays in the thread's configuration.
\<close>

definition kio_config_create_thread ::
  "cfg_env \<Rightarrow> nat \<Rightarrow> kio_thread_config \<Rightarrow> int \<times> kio_thread_config \<times> cfg_res res_event list" where
  "kio_config_create_thread env tid t =
     (case kobject_create_and_add env (dec_nat tid) of
        None \<Rightarrow> (- ENOMEM, t\<lparr>ktc_kobj := None\<rparr>, [])
      | Some k \<Rightarrow>
          (let retval = create_files env k (map kio_attr_name kio_vars) in
           (retval, t\<lparr>ktc_kobj := Some k\<rparr>,
            Acq (Kobj k) # (if retval \<noteq> 0 then [Rel (Kobj k)] else []))))"

text \<open>The loop of \<open>kio_num_threads_store\<close> over the new array, from element \<open>tid\<close> on.\<close>

fun create_threads ::
  "cfg_env \<Rightarrow> nat \<Rightarrow> kio_thread_config list \<Rightarrow> int \<times> kio_thread_config list \<times> cfg_res res_event list" where
  "create_threads env tid [] = (0, [], [])"
| "create_threads env tid (t # ts) =
     (let (rc, t', es) = kio_config_create_thread env tid t in
      if rc \<noteq> 0 then (rc, t' # ts, es)
      else (let (rc', ts', es') = create_threads env (Suc tid) ts in (rc', t' # ts', es @ es')))"

text \<open>
  \<open>kio_config_destroy_all_threads\<close>: puts every object that is set, frees the array and clears the
  pointer to it; \<open>num_threads\<close> keeps its value.
\<close>

definition put_kobjs :: "kio_thread_config list \<Rightarrow> cfg_res res_event list" where
  "put_kobjs ts = map (\<lambda>k. Rel (Kobj k)) (List.map_filter ktc_kobj ts)"

definition kio_config_destroy_all_threads :: "kio_config \<Rightarrow> fault + kio_config \<times> cfg_res res_event list" where
  "kio_config_destroy_all_threads c =
     (case config_threads c of
        Inl f \<Rightarrow> Inl f
      | Inr ts \<Rightarrow>
          Inr (c\<lparr>threads := None\<rparr>,
               put_kobjs ts @ (case threads c of None \<Rightarrow> [] | Some _ \<Rightarrow> [Rel Threads_Array])))"

section \<open>Global attributes\<close>

definition kio_num_threads_show :: "kio_config \<Rightarrow> string" where
  "kio_num_threads_show c = sprintf_d (num_threads c)"

text \<open>\<open>int result = count\<close> before the result is returned as \<open>ssize_t\<close>.\<close>

definition int_of_count :: "u64 \<Rightarrow> int" where
  "int_of_count len = sint (ucast len :: s32)"

definition kio_num_threads_store ::
  "cfg_env \<Rightarrow> bool \<Rightarrow> string \<Rightarrow> u64 \<Rightarrow> kio_config
     \<Rightarrow> fault + int \<times> kio_config \<times> cfg_res res_event list" where
  "kio_num_threads_store env is_running buf len c =
     (if is_running then Inr (- EBUSY, c, [])
      else if num_threads c \<noteq> 0 \<or> threads c \<noteq> None then Inr (- EEXIST, c, [])
      else
        (let n = (case sscanf_d env buf of None \<Rightarrow> - 1 | Some v \<Rightarrow> v) in
         if sint n < 1 \<or> n > num_online_cpus env then Inr (- EINVAL, c, [])
         else if \<not> kzalloc_threads env then Inr (- ENOMEM, c, [])
         else
           (let (rc, ts, es) = create_threads env 0 (replicate (unat n) ktc_zero);
                c' = c\<lparr>num_threads := n, threads := Some ts\<rparr>
            in if rc \<noteq> 0
               then (case kio_config_destroy_all_threads c' of
                       Inl f \<Rightarrow> Inl f
                     | Inr (c'', es') \<Rightarrow> Inr (rc, c'', Acq Threads_Array # es @ es'))
               else Inr (int_of_count len, c', Acq Threads_Array # es))))"

definition kio_runtime_seconds_show :: "kio_config \<Rightarrow> string" where
  "kio_runtime_seconds_show c = sprintf_d (runtime_seconds c)"

definition kio_runtime_seconds_store ::
  "cfg_env \<Rightarrow> bool \<Rightarrow> string \<Rightarrow> u64 \<Rightarrow> kio_config \<Rightarrow> int \<times> kio_config" where
  "kio_runtime_seconds_store env is_running buf len c =
     (if is_running then (- EBUSY, c)
      else
        (let seconds = (case sscanf_d env buf of None \<Rightarrow> - 1 | Some v \<Rightarrow> v) in
         if sint seconds < 1 \<or> sint seconds > int KIO_MAX_RUNTIME_SECONDS then (- EOVERFLOW, c)
         else (int_of_count len, c\<lparr>runtime_seconds := seconds\<rparr>)))"

section \<open>Initialisation and exit\<close>

definition kio_config_init :: "cfg_env \<Rightarrow> int \<times> kobj option \<times> kio_config \<times> cfg_res res_event list" where
  "kio_config_init env =
     (case kobject_create_and_add env ''kio'' of
        None \<Rightarrow> (- ENOMEM, None, kio_config_zero, [])
      | Some k \<Rightarrow>
          (let retval = create_files env k [''num_threads'', ''runtime_seconds'', ''run_workload''] in
           (retval, Some k, kio_config_zero,
            Acq (Kobj k) # (if retval \<noteq> 0 then [Rel (Kobj k)] else []))))"

definition kio_config_exit ::
  "kobj option \<Rightarrow> kio_config \<Rightarrow> fault + kio_config \<times> cfg_res res_event list" where
  "kio_config_exit kio_kobj c =
     (case kio_config_destroy_all_threads c of
        Inl f \<Rightarrow> Inl f
      | Inr (c', es) \<Rightarrow> Inr (c', es @ (case kio_kobj of None \<Rightarrow> [] | Some k \<Rightarrow> [Rel (Kobj k)])))"

end
