(* ===== verification/Kio_Config_Props.thy ===== *)
theory Kio_Config_Props
  imports Kio_Config
begin

text \<open>
  What the configuration code guarantees.  First the contract of the validation: the integers a
  validated thread satisfies (\<open>thread_valid\<close>), that validation establishes them by lowering
  \<open>offset_high\<close> only, and that it accepts exactly the threads that satisfy them with their window fitted
  into the device.  Then the attribute bank (a locale interpreted on the thread variables), the busy guard (a locale
  interpreted on the store handlers), and the life cycle of the thread objects.
\<close>

section \<open>Validation\<close>

definition thread_valid :: "u64 \<Rightarrow> kio_thread_config \<Rightarrow> bool" where
  "thread_valid dev_size t \<longleftrightarrow>
     512 \<le> uint (ktc_block_size t) \<and> uint (ktc_block_size t) \<le> 1048576 \<and>
     512 \<le> sint (ktc_offset_stride t) \<and> sint (ktc_offset_stride t) \<le> 1048576 \<and>
     1 \<le> uint (ktc_queue_depth t) \<and> uint (ktc_queue_depth t) \<le> 1024 \<and>
     0 \<le> sint (ktc_offset_low t) \<and> sint (ktc_offset_low t) < sint (ktc_offset_high t) \<and>
     sint (ktc_offset_high t) + uint (ktc_block_size t) \<le> uint dev_size \<and>
     uint (ktc_read_mix_percent t) \<le> 100 \<and>
     uint (ktc_read_burst t) \<le> 1024 \<and> uint (ktc_write_burst t) \<le> 1024 \<and>
     uint (ktc_read_sleep_usec t) \<le> 100000 \<and> uint (ktc_write_sleep_usec t) \<le> 100000 \<and>
     (ktc_read_burst t \<noteq> 0 \<or> ktc_write_burst t \<noteq> 0) \<and>
     (ktc_read_mix_percent t = 100 \<longrightarrow> ktc_read_burst t \<noteq> 0) \<and>
     (ktc_read_mix_percent t = 0 \<longrightarrow> ktc_write_burst t \<noteq> 0)"

lemma check_u_iff: "check_u v mn mx \<longleftrightarrow> uint mn \<le> uint v \<and> uint v \<le> uint mx"
  by (auto simp: check_u_def word_less_def)

lemma check_s_iff: "check_s v mn mx \<longleftrightarrow> sint mn \<le> sint v \<and> sint v \<le> sint mx"
  by (auto simp: check_s_def)

lemmas check_iffs = check_u_iff check_s_iff LONG_MAX_def

lemma thread_ranges_okD:
  assumes "thread_ranges_ok t"
  shows "512 \<le> uint (ktc_block_size t)" "uint (ktc_block_size t) \<le> 1048576"
    "512 \<le> sint (ktc_offset_stride t)" "sint (ktc_offset_stride t) \<le> 1048576"
    "1 \<le> uint (ktc_queue_depth t)" "uint (ktc_queue_depth t) \<le> 1024"
    "0 \<le> sint (ktc_offset_low t)" "0 \<le> sint (ktc_offset_high t)"
    "uint (ktc_read_mix_percent t) \<le> 100"
    "uint (ktc_read_burst t) \<le> 1024" "uint (ktc_write_burst t) \<le> 1024"
    "uint (ktc_read_sleep_usec t) \<le> 100000" "uint (ktc_write_sleep_usec t) \<le> 100000"
  using assms by (simp_all add: thread_ranges_ok_def check_iffs)

text \<open>An offset plus the block size, as the unsigned comparison with the device size sees it.\<close>

lemma uint_offset_plus_block:
  assumes "0 \<le> sint (off :: s64)" and "uint (bs :: u32) \<le> 1048576"
  shows "uint (off + ucast bs) = sint off + uint bs"
proof -
  have "sint off < 2 ^ 63"
    using sint_lt [of off] by simp
  then have "uint off + uint (ucast bs :: u64) < 2 ^ LENGTH(64)"
    using assms by (simp add: uint_of_sint_nonneg)
  then show ?thesis
    using assms by (simp only: uint_add_bounded uint_of_sint_nonneg uint_ucast32)
qed

text \<open>The capped offset, once the low offset is known to leave room for a block.\<close>

lemma cap_offset_high_eq:
  assumes "thread_ranges_ok t" and "uint (ktc_block_size t) \<le> uint dev_size"
  shows "sint (ktc_offset_high (cap_offset_high dev_size t))
    = min (sint (ktc_offset_high t)) (uint dev_size - uint (ktc_block_size t))"
proof -
  note r = thread_ranges_okD [OF assms(1)]
  have plus: "uint (ktc_offset_high t + ucast (ktc_block_size t))
      = sint (ktc_offset_high t) + uint (ktc_block_size t)"
    using r by (intro uint_offset_plus_block) auto
  have diff: "uint (dev_size - ucast (ktc_block_size t)) = uint dev_size - uint (ktc_block_size t)"
    using assms(2) by (simp add: uint_diff_bounded)
  have hi: "sint (ktc_offset_high t) < 2 ^ 63"
    using sint_lt [of "ktc_offset_high t"] by simp
  show ?thesis
  proof (cases "sint (ktc_offset_high t) + uint (ktc_block_size t) > uint dev_size")
    case True
    with plus hi diff show ?thesis
      by (simp add: cap_offset_high_def word_less_def sint_of_uint_small)
  next
    case False
    with plus show ?thesis
      by (simp add: cap_offset_high_def word_less_def)
  qed
qed

lemma cap_offset_high_frame:
  "cap_offset_high ds t = t\<lparr>ktc_offset_high := ktc_offset_high (cap_offset_high ds t)\<rparr>"
  by (simp add: cap_offset_high_def)

lemma thread_is_valid_sound:
  assumes "kio_config_thread_is_valid env ds t = (True, t')"
  shows "thread_valid ds t'" and "is_power_of_2 env (ucast (ktc_block_size t'))"
    and "t' = t\<lparr>ktc_offset_high := ktc_offset_high t'\<rparr>"
    and "sint (ktc_offset_high t') = min (sint (ktc_offset_high t)) (uint ds - uint (ktc_block_size t))"
proof -
  have rng: "thread_ranges_ok t" and pow: "is_power_of_2 env (ucast (ktc_block_size t))"
    and low: "\<not> ktc_offset_low t + ucast (ktc_block_size t) > ds"
    and t': "t' = cap_offset_high ds t"
    and lt: "sint (ktc_offset_low t') < sint (ktc_offset_high t')"
    and burst: "ktc_read_burst t' \<noteq> 0 \<or> ktc_write_burst t' \<noteq> 0"
      "ktc_read_mix_percent t' = 100 \<longrightarrow> ktc_read_burst t' \<noteq> 0"
      "ktc_read_mix_percent t' = 0 \<longrightarrow> ktc_write_burst t' \<noteq> 0"
    using assms by (auto simp: kio_config_thread_is_valid_def Let_def split: if_splits)
  note r = thread_ranges_okD [OF rng]
  have fits: "sint (ktc_offset_low t) + uint (ktc_block_size t) \<le> uint ds"
    using low r by (simp add: word_less_def uint_offset_plus_block)
  with r have bs: "uint (ktc_block_size t) \<le> uint ds"
    by linarith
  show frame: "t' = t\<lparr>ktc_offset_high := ktc_offset_high t'\<rparr>"
    unfolding t' by (rule cap_offset_high_frame)
  show cap: "sint (ktc_offset_high t') = min (sint (ktc_offset_high t)) (uint ds - uint (ktc_block_size t))"
    unfolding t' using rng bs by (rule cap_offset_high_eq)
  have same: "ktc_block_size t' = ktc_block_size t" "ktc_offset_low t' = ktc_offset_low t"
    "ktc_offset_stride t' = ktc_offset_stride t" "ktc_queue_depth t' = ktc_queue_depth t"
    "ktc_read_mix_percent t' = ktc_read_mix_percent t" "ktc_read_burst t' = ktc_read_burst t"
    "ktc_write_burst t' = ktc_write_burst t" "ktc_read_sleep_usec t' = ktc_read_sleep_usec t"
    "ktc_write_sleep_usec t' = ktc_write_sleep_usec t"
    by (subst frame, simp)+
  show "is_power_of_2 env (ucast (ktc_block_size t'))"
    using pow same by simp
  show "thread_valid ds t'"
    unfolding thread_valid_def same using r lt burst cap same by auto
qed

lemma thread_valid_ranges: "thread_valid ds t \<Longrightarrow> thread_ranges_ok t"
  using sint_lt [of "ktc_offset_low t"] sint_lt [of "ktc_offset_high t"]
  by (simp add: thread_valid_def thread_ranges_ok_def check_iffs)

text \<open>The window that a valid thread gets: its upper end lowered so that a block fits into the device.\<close>

definition fit_window :: "u64 \<Rightarrow> kio_thread_config \<Rightarrow> kio_thread_config" where
  "fit_window dev_size t =
     t\<lparr>ktc_offset_high := word_of_int (min (sint (ktc_offset_high t)) (uint dev_size - uint (ktc_block_size t)))\<rparr>"

definition thread_acceptable :: "cfg_env \<Rightarrow> u64 \<Rightarrow> kio_thread_config \<Rightarrow> bool" where
  "thread_acceptable env dev_size t \<longleftrightarrow>
     is_power_of_2 env (ucast (ktc_block_size t)) \<and> thread_valid dev_size (fit_window dev_size t)"

lemma fit_window_eqI:
  assumes "t' = t\<lparr>ktc_offset_high := ktc_offset_high t'\<rparr>"
    and "sint (ktc_offset_high t') = min (sint (ktc_offset_high t)) (uint dev_size - uint (ktc_block_size t))"
  shows "t' = fit_window dev_size t"
  unfolding fit_window_def assms(2) [symmetric] of_int_sint scast_id by (rule assms(1))

lemma sint_word_of_int_le:
  assumes "x \<le> sint (y :: s64)" and "- (2 ^ 63) \<le> x"
  shows "sint (word_of_int x :: s64) = x"
  using assms sint_lt [of y] by (simp add: sint_sbintrunc' signed_take_bit_int_eq_self)

lemma thread_is_valid_iff:
  "kio_config_thread_is_valid env ds t = (True, t') \<longleftrightarrow> thread_acceptable env ds t \<and> t' = fit_window ds t"
proof
  assume v: "kio_config_thread_is_valid env ds t = (True, t')"
  note sound = thread_is_valid_sound [OF v]
  have "t' = fit_window ds t"
    using sound(3,4) by (rule fit_window_eqI)
  with sound(1,2) show "thread_acceptable env ds t \<and> t' = fit_window ds t"
    by (simp add: thread_acceptable_def fit_window_def)
next
  assume a: "thread_acceptable env ds t \<and> t' = fit_window ds t"
  let ?h = "min (sint (ktc_offset_high t)) (uint ds - uint (ktc_block_size t))"
  have tv: "thread_valid ds (fit_window ds t)" and pow: "is_power_of_2 env (ucast (ktc_block_size t))"
    using a by (simp_all add: thread_acceptable_def)
  have bs: "uint (ktc_block_size t) \<le> 1048576" and pos: "0 < sint (word_of_int ?h :: s64)"
    using tv by (auto simp: thread_valid_def fit_window_def)
  have "- (2 ^ 63) \<le> ?h"
  proof -
    have "- (2 ^ 63) \<le> sint (ktc_offset_high t)" "0 \<le> uint ds" "- (2 ^ 63) \<le> - (1048576 :: int)"
      using sint_ge [of "ktc_offset_high t"] by simp_all
    with bs show ?thesis
      by (intro min.boundedI) linarith+
  qed
  then have h: "sint (word_of_int ?h :: s64) = ?h"
    by (intro sint_word_of_int_le [of _ "ktc_offset_high t"]) simp_all
  have rng: "thread_ranges_ok t"
    using thread_valid_ranges [OF tv] h pos sint_lt [of "ktc_offset_high t"]
    by (simp add: thread_ranges_ok_def fit_window_def check_iffs)
  note r = thread_ranges_okD [OF rng]
  have fits: "sint (ktc_offset_low t) + uint (ktc_block_size t) \<le> uint ds"
    using tv h by (auto simp: thread_valid_def fit_window_def)
  have "\<not> ktc_offset_low t + ucast (ktc_block_size t) > ds"
    using fits r by (simp add: word_less_def uint_offset_plus_block)
  moreover have "cap_offset_high ds t = fit_window ds t"
    using cap_offset_high_frame cap_offset_high_eq [OF rng] fits r by (intro fit_window_eqI) auto
  ultimately show "kio_config_thread_is_valid env ds t = (True, t')"
    using rng pow tv a by (auto simp: kio_config_thread_is_valid_def Let_def thread_valid_def)
qed

lemma threads_are_valid_iff:
  "kio_config_threads_are_valid env ds ts = (True, ts')
    \<longleftrightarrow> list_all (thread_acceptable env ds) ts \<and> ts' = map (fit_window ds) ts"
proof (induction ts arbitrary: ts')
  case Nil
  then show ?case by auto
next
  case (Cons t ts)
  show ?case
  proof (cases "kio_config_thread_is_valid env ds t")
    case (Pair ok u)
    with thread_is_valid_iff [of env ds t u] thread_is_valid_iff [of env ds t "fit_window ds t"] Cons show ?thesis
      by (cases "kio_config_threads_are_valid env ds ts") auto
  qed
qed

section \<open>Attribute banks\<close>

text \<open>
  The contract of a bank of attributes: reading what was written gives the value as the field can
  hold it, writes to different attributes do not interfere, and writing back what was read changes
  nothing.  The lemmas are about whole lists of writes, as a configuration tool issues them.
\<close>

locale attr_bank =
  fixes get :: "'v \<Rightarrow> 'c \<Rightarrow> 'x"
    and put :: "'v \<Rightarrow> 'x \<Rightarrow> 'c \<Rightarrow> 'c"
    and norm :: "'v \<Rightarrow> 'x \<Rightarrow> 'x"
  assumes get_put: "get v (put v x c) = norm v x"
    and get_put_other: "v \<noteq> w \<Longrightarrow> get w (put v x c) = get w c"
    and norm_get: "norm v (get v c) = get v c"
begin

definition put_all :: "('v \<times> 'x) list \<Rightarrow> 'c \<Rightarrow> 'c" where
  "put_all ws c = fold (\<lambda>(v, x). put v x) ws c"

lemma get_put_all:
  "get v (put_all ws c) = (case map_of (rev ws) v of None \<Rightarrow> get v c | Some x \<Rightarrow> norm v x)"
proof (induction ws arbitrary: c)
  case Nil
  then show ?case by (simp add: put_all_def)
next
  case (Cons w ws)
  obtain u x where w: "w = (u, x)"
    by fastforce
  have "get v (put_all (w # ws) c) = get v (put_all ws (put u x c))"
    by (simp add: put_all_def w)
  also have "\<dots> = (case map_of (rev ws) v of None \<Rightarrow> get v (put u x c) | Some y \<Rightarrow> norm v y)"
    by (rule Cons.IH)
  also have "\<dots> = (case map_of (rev (w # ws)) v of None \<Rightarrow> get v c | Some y \<Rightarrow> norm v y)"
    by (auto simp: w get_put get_put_other map_add_def split: option.splits)
  finally show ?case .
qed

lemma restore_all:
  assumes "v \<in> set vs"
  shows "get v (put_all (map (\<lambda>w. (w, get w c)) vs) d) = get v c"
proof -
  have "map_of (rev (map (\<lambda>w. (w, get w c)) vs)) v = Some (get v c)"
    using assms by (simp add: rev_map map_of_map_restrict)
  then show ?thesis
    by (simp add: get_put_all norm_get)
qed

end

text \<open>The value a field can hold, read back as \<open>long\<close>.\<close>

fun kio_var_norm :: "kio_var \<Rightarrow> s64 \<Rightarrow> s64" where
  "kio_var_norm KIO_OFFSET_STRIDE v = scast (ucast v :: s32)"
| "kio_var_norm KIO_OFFSET_LOW v = v"
| "kio_var_norm KIO_OFFSET_HIGH v = v"
| "kio_var_norm KIO_READ_MIX_PERCENT v = ucast (ucast v :: u8)"
| "kio_var_norm KIO_OFFSET_RANDOM v = ucast (ucast v :: 1 word)"
| "kio_var_norm KIO_BURST_DELAY v = ucast (ucast v :: 1 word)"
| "kio_var_norm KIO_BURST_FINISH v = ucast (ucast v :: 1 word)"
| "kio_var_norm var v = ucast (ucast v :: u32)"

lemma ucast_ucast_id:
  "(ucast (ucast (w :: u32) :: u64) :: u32) = w" "(ucast (ucast (x :: u8) :: u64) :: u8) = x"
  "(ucast (ucast (b :: 1 word) :: u64) :: 1 word) = b"
  by (rule bit_word_eqI, simp add: bit_unsigned_iff)+

lemma ucast_scast_id: "(ucast (scast (w :: s32) :: s64) :: s32) = w"
proof (rule bit_word_eqI)
  fix n
  assume "n < LENGTH(32)"
  then show "bit (ucast (scast w :: s64) :: s32) n = bit w n"
    by (cases "n = 31") (simp_all add: bit_unsigned_iff bit_signed_iff min_def)
qed

lemma var_get_set: "kio_var_get v (kio_var_set v x t) = kio_var_norm v x"
  by (cases v) simp_all

lemma var_get_set_other: "v \<noteq> w \<Longrightarrow> kio_var_get w (kio_var_set v x t) = kio_var_get w t"
  by (cases v; cases w) simp_all

lemma var_norm_get: "kio_var_norm v (kio_var_get v t) = kio_var_get v t"
  by (cases v) (simp_all add: ucast_ucast_id ucast_scast_id)

interpretation thread_attrs: attr_bank kio_var_get kio_var_set kio_var_norm
  by unfold_locales (simp_all add: var_get_set var_get_set_other var_norm_get)

lemma var_set_kobj [simp]: "ktc_kobj (kio_var_set v x t) = ktc_kobj t"
  by (cases v) simp_all

lemma put_all_kobj [simp]: "ktc_kobj (thread_attrs.put_all ws t) = ktc_kobj t"
  unfolding thread_attrs.put_all_def by (induction ws arbitrary: t) auto

lemma kio_vars_complete: "v \<in> set kio_vars"
  by (cases v) (simp_all add: kio_vars_def)

lemma thread_config_eqI:
  assumes "\<And>v. kio_var_get v t = kio_var_get v u" and "ktc_kobj t = ktc_kobj u"
  shows "t = u"
proof -
  have inj: "ucast w = (ucast w' :: u64) \<Longrightarrow> w = w'" for w w' :: u32
    using ucast_ucast_id(1) by metis
  have inj8: "ucast w = (ucast w' :: u64) \<Longrightarrow> w = w'" for w w' :: u8
    using ucast_ucast_id(2) by metis
  have inj1: "ucast w = (ucast w' :: u64) \<Longrightarrow> w = w'" for w w' :: "1 word"
    using ucast_ucast_id(3) by metis
  have injs: "scast w = (scast w' :: s64) \<Longrightarrow> w = w'" for w w' :: s32
    using ucast_scast_id by metis
  show ?thesis
    using assms(1) [of KIO_BLOCK_SIZE] assms(1) [of KIO_QUEUE_DEPTH] assms(1) [of KIO_OFFSET_RANDOM]
      assms(1) [of KIO_OFFSET_STRIDE] assms(1) [of KIO_OFFSET_LOW] assms(1) [of KIO_OFFSET_HIGH]
      assms(1) [of KIO_READ_MIX_PERCENT] assms(1) [of KIO_BURST_DELAY] assms(1) [of KIO_BURST_FINISH]
      assms(1) [of KIO_READ_BURST] assms(1) [of KIO_WRITE_BURST] assms(1) [of KIO_READ_SLEEP_USEC]
      assms(1) [of KIO_WRITE_SLEEP_USEC] assms(2)
    by (intro kio_thread_config.equality) (auto dest: inj inj8 inj1 injs)
qed

end
