(* ===== verification/Kio_Io_Props.thy ===== *)
theory Kio_Io_Props
  imports Kio_Io
begin

text \<open>
  What \<open>kio_io.c\<close> guarantees: the result of the initialisation, the meaning of a valid offset, the
  outcome of a submission, and the points where the code departs from what it means to do.
\<close>

section \<open>A device for the examples\<close>

definition example_bdev :: block_device where
  "example_bdev = \<lparr>bd_disk = True, bd_queue = True, bd_whole = True, bd_partno = 0,
     bd_start_sect = 0, bd_part_tbl = []\<rparr>"

definition example_io_env :: io_env where
  "example_io_env = \<lparr>kio_block_device = Some ''/dev/vdb'', kstrdup = Some,
     strim = map_option (\<lambda>s. (length (takeWhile (\<lambda>c. c = CHR '' '') s), dropWhile (\<lambda>c. c = CHR '' '') s)),
     blkdev_get_by_path = (\<lambda>n. if n = ''/dev/vdb'' then Bdev_Ok example_bdev else Bdev_Err (- 2)),
     queue_logical_block_size = 512, set_blocksize = 0, i_size_read = 2147483648,
     bioset_init = 0, bioset_create = True, env_compat = kio_compat (KERNEL_VERSION 5 15 0)\<rparr>"

definition example_submit_env :: submit_env where
  "example_submit_env = \<lparr>page_size = 4096, bio_alloc_bioset = True, submit_ktime = 1000,
     bio_add_page = 4096, bio_bvec_ok = True, io_submit_mode = 0,
     sub_compat = kio_compat (KERNEL_VERSION 5 15 0)\<rparr>"

definition example_kio_io :: kio_io where
  "example_kio_io = \<lparr>dev_name = Some (0, ''/dev/vdb''), bdev = Some example_bdev,
     dev_byte_size = 2147483648, dev_block_size = 512, bio_set = True\<rparr>"

section \<open>Initialisation\<close>

lemma kio_io_init_ok:
  assumes "kio_io_init env io = (0, io', es)"
  obtains path off name bd where "kio_block_device env = Some path"
    "strim env (kstrdup env path) = Some (off, name)" "blkdev_get_by_path env name = Bdev_Ok bd"
    "bd_disk bd" "bd_queue bd" "set_blocksize env = 0" "1073741824 \<le> i_size_read env"
    "io' = io\<lparr>bio_set := True, dev_name := Some (off, name), bdev := Some bd,
       dev_block_size := queue_logical_block_size env, dev_byte_size := i_size_read env\<rparr>"
    "es = [Acq (Dev_Name 0), Acq Bdev_Excl, Acq Bio_Set]"
  using assms
  by (auto simp: kio_io_init_def Let_def split: option.splits bdev_ptr.splits if_splits)

text \<open>A successful initialisation has opened a device with a disk and a queue, of at least one
  gibibyte, and \<open>kio_io\<close> then describes exactly that device; a failed one changes none of the fields
  that describe the device.\<close>

lemma kio_io_init_result:
  assumes "kio_io_init env io = (rc, io', es)"
  shows "(if rc = 0
     then (\<exists>off name bd. dev_name io' = Some (off, name) \<and> blkdev_get_by_path env name = Bdev_Ok bd
             \<and> bd_disk bd \<and> bd_queue bd \<and> bdev io' = Some bd \<and> bio_set io'
             \<and> dev_byte_size io' = i_size_read env \<and> 2 ^ 30 \<le> uint (dev_byte_size io')
             \<and> dev_block_size io' = queue_logical_block_size env)
     else dev_name io' = dev_name io \<and> bdev io' = bdev io \<and> dev_byte_size io' = dev_byte_size io
             \<and> dev_block_size io' = dev_block_size io)"
proof (cases "rc = 0")
  case True
  with assms have "kio_io_init env io = (0, io', es)"
    by simp
  then show ?thesis
    by (rule kio_io_init_ok) (use True in \<open>auto simp: word_le_def\<close>)
next
  case False
  with assms show ?thesis
    by (auto simp: kio_io_init_def Let_def split: option.splits bdev_ptr.splits if_splits)
qed

text \<open>A path with leading blanks makes exit free a pointer into the middle of the allocation:
  \<open>strim\<close> returned the first character that is not blank, and that pointer is what is freed.\<close>

lemma kio_io_exit_frees_interior_pointer:
  assumes "kio_io_init env io = (0, io', es)" and "dev_name io' = Some (Suc off, name)"
  shows "held_after [] (es @ snd (kio_io_exit io')) = None"
proof -
  from assms(1) have "es = [Acq (Dev_Name 0), Acq Bdev_Excl, Acq Bio_Set]"
    by (rule kio_io_init_ok)
  with assms(2) show ?thesis
    by (simp add: kio_io_exit_def)
qed

text \<open>When the device refuses the block size or is too small, the error path releases a bio set
  that was never created.\<close>

lemma kio_io_init_releases_missing_bio_set:
  assumes "kio_block_device env = Some path" and "strim env (kstrdup env path) = Some (off, name)"
    and "blkdev_get_by_path env name = Bdev_Ok bd" and "bd_disk bd" and "bd_queue bd"
    and "set_blocksize env \<noteq> 0 \<or> i_size_read env < 1073741824"
  shows "\<exists>rc es. kio_io_init env io = (rc, io, es) \<and> rc \<noteq> 0 \<and> held_after [] es = None"
  using assms
  by (auto simp: kio_io_init_def Let_def err_release_dev_name_def err_no_queue_def err_put_back_bd_def)

section \<open>Offsets\<close>

lemma offset_sum_range:
  assumes "uint sz < 2 ^ 63" and "uint ds < 2 ^ 63"
  shows "(sint (off :: s64) + uint (sz :: u64)) mod 2 ^ 64 \<le> uint (ds :: u64)
    \<longleftrightarrow> - uint sz \<le> sint off \<and> sint off + uint sz \<le> uint ds"
proof -
  have b: "- (2 ^ 63) \<le> sint off" "sint off < 2 ^ 63" and nn: "0 \<le> uint sz" "0 \<le> uint ds"
    using sint_ge [of off] sint_lt [of off] by simp_all
  show ?thesis
  proof (cases "0 \<le> sint off + uint sz")
    case True
    with b assms show ?thesis
      by simp
  next
    case False
    have p: "(2 :: int) ^ 64 = 2 * 2 ^ 63"
      by simp
    have "(sint off + uint sz) mod 2 ^ 64 = (sint off + uint sz + 2 ^ 64) mod 2 ^ 64"
      by simp
    also have "\<dots> = sint off + uint sz + 2 ^ 64"
      using False b nn p by (intro mod_pos_pos_trivial) linarith+
    finally have "(sint off + uint sz) mod 2 ^ 64 = sint off + uint sz + 2 ^ 64" .
    moreover have "\<not> sint off + uint sz + 2 ^ 64 \<le> uint ds"
      using b nn p assms(2) by linarith
    ultimately show ?thesis
      using False by auto
  qed
qed

text \<open>C36: What \<open>kio_io_offset_is_valid\<close> decides, for sizes and devices below \<open>2^63\<close> bytes: the request ends inside the
  device and its offset is a multiple of the device's block size.  But it may begin before the device: the sum of
  offset and size is unsigned and wraps, so the lower bound is minus the size of the request, not zero.\<close>

theorem offset_is_valid_exact:
  assumes "uint sz < 2 ^ 63" and "uint (dev_byte_size io) < 2 ^ 63" and "dev_block_size io \<noteq> 0"
  shows "kio_io_offset_is_valid io off sz
    = Inr (- uint sz \<le> sint off \<and> sint off + uint sz \<le> uint (dev_byte_size io) \<and> uint (dev_block_size io) dvd sint off)"
  using assms offset_sum_range [OF assms(1,2), of off] s64_mod_eq_0_iff [OF assms(3), of off]
  by (auto simp: kio_io_offset_is_valid_def word_le_def uint_signed_plus)

theorem offset_is_valid_exact_witness:
  "kio_io_offset_is_valid example_kio_io 2147479552 4096 = Inr True
   \<and> kio_io_offset_is_valid example_kio_io 2147483648 4096 = Inr False
   \<and> kio_io_offset_is_valid example_kio_io (- 4096) 4096 = Inr True"
  using offset_is_valid_exact [of 4096 example_kio_io 2147479552] offset_is_valid_exact [of 4096 example_kio_io 2147483648]
    offset_is_valid_exact [of 4096 example_kio_io "- 4096"]
  by (simp add: example_kio_io_def)

section \<open>Submission\<close>

text \<open>The bio that a submission builds.\<close>

definition submitted_bio :: "submit_env \<Rightarrow> block_device \<Rightarrow> s64 \<Rightarrow> nat \<Rightarrow> bool \<Rightarrow> nat \<Rightarrow> bio" where
  "submitted_bio env bd off pg is_write private =
     \<lparr>bi_front_pad = submit_ktime env, bi_sector = signed_drop_bit 9 off, bi_partno = bd_partno bd,
      bi_opf = (if is_write then REQ_OP_WRITE_SYNC else REQ_OP_READ), bi_page = pg,
      bi_end_io = Kio_Bio_Completion, bi_private = private\<rparr>"

definition submit_path :: "submit_env \<Rightarrow> submit_via" where
  "submit_path env =
     (if io_submit_mode env = 1 then Submit_Bio_Noacct
      else if io_submit_mode env = 2
        then (if gendisk_has_submit_bio (sub_compat env) then Disk_Submit_Bio else Make_Request_Fn)
      else Submit_Bio)"

lemma kio_io_submit_cases:
  assumes "kio_io_submit env io off page is_write private = Inr (rc, evs)"
  obtains (refused) "rc < 0" "evs = []" | (dropped) "rc < 0" "evs = [Bio_Alloc, Bio_Put]"
  | (submitted) pg bd where "rc = 0" "page = Some pg" "bdev io = Some bd"
      "kio_io_offset_is_valid io off (page_size env) = Inr True"
      "evs = [Bio_Alloc, Bio_Submitted (submit_path env)
         (if io_submit_mode env = 2 then blk_partition_remap (sub_compat env) bd (submitted_bio env bd off pg is_write private)
          else submitted_bio env bd off pg is_write private)]"
proof (cases page)
  case (Some pg)
  show ?thesis
  proof (cases "kio_io_offset_is_valid io off (page_size env) = Inr True \<and> bio_alloc_bioset env")
    case True
    show ?thesis
    proof (cases "bdev io")
      case bd: (Some bd)
      show ?thesis
      proof (cases "bio_add_page env = 0 \<or> \<not> bio_has_disk (sub_compat env) bd \<or> \<not> bio_bvec_ok env")
        case False
        then show ?thesis
          using assms Some True bd
          by (intro submitted) (auto simp: kio_io_submit_def submitted_bio_def submit_path_def kio_io_bio_set_start_time_def Let_def)
      qed (use assms Some True bd in \<open>auto simp: kio_io_submit_def split: if_splits intro: dropped\<close>)
    qed (use assms Some True in \<open>auto simp: kio_io_submit_def split: if_splits intro: dropped\<close>)
  qed (use assms Some in \<open>auto simp: kio_io_submit_def split: sum.splits bool.splits if_splits intro: refused\<close>)
qed (use assms in \<open>auto simp: kio_io_submit_def intro: refused\<close>)

lemma sector_of_offset:
  assumes "0 \<le> sint off" and "512 dvd sint off"
  shows "uint (signed_drop_bit 9 off :: u64) * 512 = sint off"
proof -
  have "sint (signed_drop_bit 9 off) = sint off div 2 ^ 9"
    by (simp add: sint_signed_drop_bit_eq drop_bit_eq_div)
  moreover have "0 \<le> sint off div 2 ^ 9"
    using assms(1) by simp
  ultimately have "uint (signed_drop_bit 9 off) = sint off div 512"
    by (simp add: uint_of_sint_nonneg)
  with assms(2) show ?thesis
    by simp
qed

text \<open>C18: The outcome of a submission, in every submission mode.  A negative result means nothing was handed to the
  block layer and a bio that had been allocated was put; zero means that the page, the offset and the device were
  accepted and exactly one bio was handed over, through the function that the mode selects, for the given page and
  owner, in the given direction, stamped with the time of submission.  In the modes other than 2, and in mode 2 on
  a whole disk, it is at the sector that holds the byte offset; in mode 2 on a partition the sector is what
  \<open>blk_partition_remap\<close> makes of it.\<close>

theorem kio_io_submit_outcome:
  assumes "kio_io_submit env io off page is_write private = Inr (rc, evs)"
  shows "(rc < 0 \<and> (evs = [] \<or> evs = [Bio_Alloc, Bio_Put]))
    \<or> (rc = 0 \<and> kio_io_offset_is_valid io off (page_size env) = Inr True
       \<and> (\<exists>bd b. bdev io = Some bd \<and> evs = [Bio_Alloc, Bio_Submitted (submit_path env) b]
            \<and> page = Some (bi_page b) \<and> bi_private b = private \<and> bi_end_io b = Kio_Bio_Completion
            \<and> (bi_opf b = REQ_OP_WRITE_SYNC \<longleftrightarrow> is_write)
            \<and> kio_io_bio_get_start_time b = submit_ktime env
            \<and> ((io_submit_mode env \<noteq> 2 \<or> bd_whole bd) \<and> 0 \<le> sint off \<and> 512 dvd sint off
                 \<longrightarrow> uint (bi_sector b) * 512 = sint off)
            \<and> (io_submit_mode env = 2 \<longrightarrow>
                 b = blk_partition_remap (sub_compat env) bd (submitted_bio env bd off (bi_page b) is_write private))))"
  using assms
proof (cases rule: kio_io_submit_cases)
  case (submitted pg bd)
  let ?b = "submitted_bio env bd off pg is_write private"
  have remap: "bi_page (blk_partition_remap cc bd ?b) = pg \<and> bi_private (blk_partition_remap cc bd ?b) = private
      \<and> bi_end_io (blk_partition_remap cc bd ?b) = Kio_Bio_Completion
      \<and> bi_opf (blk_partition_remap cc bd ?b) = bi_opf ?b
      \<and> bi_front_pad (blk_partition_remap cc bd ?b) = submit_ktime env
      \<and> (bd_whole bd \<longrightarrow> blk_partition_remap cc bd ?b = ?b)" for cc
    by (simp add: blk_partition_remap_def submitted_bio_def split: option.split)
  have "bi_sector ?b = signed_drop_bit 9 off" "bi_page ?b = pg" "bi_private ?b = private"
    "bi_end_io ?b = Kio_Bio_Completion" "bi_front_pad ?b = submit_ktime env"
    "bi_opf ?b = REQ_OP_WRITE_SYNC \<longleftrightarrow> is_write"
    by (simp_all add: submitted_bio_def)
  with submitted remap sector_of_offset [of off] show ?thesis
    by (cases "io_submit_mode env = 2") (simp_all add: kio_io_bio_get_start_time_def)
qed simp_all

theorem kio_io_submit_outcome_witness:
  "\<exists>b. kio_io_submit example_submit_env example_kio_io 8192 (Some 5) True 0 = Inr (0, [Bio_Alloc, Bio_Submitted Submit_Bio b])
     \<and> uint (bi_sector b) * 512 = 8192 \<and> bi_opf b = REQ_OP_WRITE_SYNC"
proof -
  let ?b = "\<lparr>bi_front_pad = 1000, bi_sector = 16, bi_partno = 0, bi_opf = REQ_OP_WRITE_SYNC, bi_page = 5,
    bi_end_io = Kio_Bio_Completion, bi_private = 0\<rparr> :: bio"
  have s: "kio_io_submit example_submit_env example_kio_io 8192 (Some 5) True 0
      = Inr (0, [Bio_Alloc, Bio_Submitted Submit_Bio ?b])"
    by code_simp
  have m: "io_submit_mode example_submit_env \<noteq> 2"
    by code_simp
  show ?thesis
    using kio_io_submit_outcome [OF s] m s by force
qed

text \<open>A valid offset is never refused for its value.\<close>

lemma submit_ok:
  assumes "kio_io_offset_is_valid io off (page_size env) = Inr True" and "bdev io = Some bd" and "bd_disk bd"
    and "bio_alloc_bioset env" and "bio_add_page env \<noteq> 0" and "bio_bvec_ok env"
  shows "\<exists>evs. kio_io_submit env io off (Some pg) is_write private = Inr (0, evs)"
proof -
  have "bio_has_disk (sub_compat env) bd"
    using assms(3) by (simp add: bio_has_disk_def split: bio_disk_field.split)
  with assms show ?thesis
    by (simp add: kio_io_submit_def Let_def)
qed

text \<open>C39: Submission mode 2 hands the bio to the whole disk, so for a partition the sector has to be moved
  by the start of the partition.  From kernel 5.11 on it is; before, the guard of
  \<open>blk_partition_remap\<close> returns for every partition number that is not zero, and the request goes out
  with the sector relative to the partition.\<close>

theorem partition_sector_in_mode_2:
  assumes "kio_io_submit env io off (Some pg) is_write private = Inr (0, evs)" and "io_submit_mode env = 2"
    and "bdev io = Some bd" and "\<not> bd_whole bd" and "bd_partno bd \<noteq> 0"
  shows "\<exists>via b. evs = [Bio_Alloc, Bio_Submitted via b] \<and>
    bi_sector b = signed_drop_bit 9 off + (if bdev_has_bd_part (sub_compat env) then 0 else bd_start_sect bd)"
  using assms(1)
proof (cases rule: kio_io_submit_cases)
  case (submitted pg' bd')
  with assms show ?thesis
    by (auto simp: blk_partition_remap_def submitted_bio_def)
qed simp_all

theorem partition_sector_in_mode_2_witness:
  "\<exists>via b. kio_io_submit (example_submit_env\<lparr>io_submit_mode := 2, sub_compat := kio_compat (KERNEL_VERSION 4 15 0)\<rparr>)
      (example_kio_io\<lparr>bdev := Some (example_bdev\<lparr>bd_whole := False, bd_partno := 1, bd_start_sect := 2048,
         bd_part_tbl := [Some 0, Some 2048]\<rparr>)\<rparr>) 4096 (Some 1) True 0
      = Inr (0, [Bio_Alloc, Bio_Submitted via b]) \<and> bi_sector b = 8"
proof -
  let ?bd = "example_bdev\<lparr>bd_whole := False, bd_partno := 1, bd_start_sect := 2048, bd_part_tbl := [Some 0, Some 2048]\<rparr>"
  let ?env = "example_submit_env\<lparr>io_submit_mode := 2, sub_compat := kio_compat (KERNEL_VERSION 4 15 0)\<rparr>"
  let ?io = "example_kio_io\<lparr>bdev := Some ?bd\<rparr>"
  have "\<exists>evs. kio_io_submit ?env ?io 4096 (Some 1) True 0 = Inr (0, evs)"
  proof (rule submit_ok [where bd = ?bd])
    show "kio_io_offset_is_valid ?io 4096 (page_size ?env) = Inr True"
      by code_simp
  qed (simp_all add: example_bdev_def example_submit_env_def)
  then obtain evs where s: "kio_io_submit ?env ?io 4096 (Some 1) True 0 = Inr (0, evs)" ..
  have "signed_drop_bit 9 (4096 :: s64) = 8" and "bdev_has_bd_part (sub_compat ?env)"
    by code_simp+
  with partition_sector_in_mode_2 [OF s, of ?bd] s show ?thesis
    by auto
qed

end
