(* ===== verification/Kio_Thread.thy ===== *)
theory Kio_Thread
  imports Kio_Config_Props Kio_Io_Props
begin

text \<open>
  The sequential parts of a worker thread (\<open>driver/kio_run.c\<close>): its state, the choice of the next
  direction and of the next offset, the delay after a request, and the completion handler.  The random
  numbers that \<open>prandom_u32\<close> returns and the readings of the clock are arguments.
\<close>

section \<open>State\<close>

text \<open>
  \<open>struct kio_thread\<close>.  \<open>th_bio_wqh\<close> says whether the pointer to the wait queue is set; the pointers to the
  task, to the shared wait queue and to the stop flag are the links to the controller.
\<close>

record kio_thread =
  th_index :: u32
  th_bio_wqh :: bool
  th_dispatched :: s32
  th_completed :: s32
  th_runtime :: u64
  th_slat_total :: u64
  th_clat_total :: s64
  th_read_burst :: u32
  th_write_burst :: u32
  th_next_offset :: s64
  th_was_write :: u8

definition kio_thread_zero :: kio_thread where
  "kio_thread_zero = \<lparr>th_index = 0, th_bio_wqh = False, th_dispatched = 0, th_completed = 0,
     th_runtime = 0, th_slat_total = 0, th_clat_total = 0, th_read_burst = 0, th_write_burst = 0,
     th_next_offset = 0, th_was_write = 0\<rparr>"

text \<open>\<open>atomic_read(&th->dispatched)\<close> as a truth value, and against the queue depth (unsigned).\<close>

definition kio_thread_busy :: "kio_thread \<Rightarrow> bool" where
  "kio_thread_busy th \<longleftrightarrow> th_dispatched th \<noteq> 0"

definition kio_thread_too_busy :: "kio_thread_config \<Rightarrow> kio_thread \<Rightarrow> bool" where
  "kio_thread_too_busy ktc th \<longleftrightarrow> ktc_queue_depth ktc \<noteq> 0 \<and> th_dispatched th \<ge> ktc_queue_depth ktc"

section \<open>Direction\<close>

record dir =
  dir_is_write :: bool
  dir_changed :: bool
  dir_new_burst :: bool

text \<open>The part after the label \<open>finish\<close>.\<close>

definition finish_dir :: "kio_thread \<Rightarrow> bool \<Rightarrow> bool \<Rightarrow> dir \<times> kio_thread" where
  "finish_dir th is_write new_burst =
     (\<lparr>dir_is_write = is_write, dir_changed = (th_was_write th \<noteq> (if is_write then 1 else 0)),
       dir_new_burst = new_burst\<rparr>,
      th\<lparr>th_was_write := (if is_write then 1 else 0)\<rparr>)"

definition kio_thread_next_dir :: "kio_thread_config \<Rightarrow> u32 \<Rightarrow> kio_thread \<Rightarrow> dir \<times> kio_thread" where
  "kio_thread_next_dir ktc prandom th =
     (if th_read_burst th \<noteq> 0 then
        finish_dir (th\<lparr>th_read_burst := th_read_burst th - 1\<rparr>) False False
      else if th_write_burst th \<noteq> 0 then
        finish_dir (th\<lparr>th_write_burst := th_write_burst th - 1\<rparr>) True False
      else if ktc_read_mix_percent ktc \<ge> 100 then finish_dir th False False
      else if ktc_read_mix_percent ktc < 1 then finish_dir th True False
      else
        (let rnd = prandom mod 100 in
         if rnd < ucast (ktc_read_mix_percent ktc) then
           finish_dir (th\<lparr>th_read_burst :=
             (if ktc_read_burst ktc \<noteq> 0 then ktc_read_burst ktc - 1 else 0)\<rparr>) False True
         else
           finish_dir (th\<lparr>th_write_burst :=
             (if ktc_write_burst ktc \<noteq> 0 then ktc_write_burst ktc - 1 else 0)\<rparr>) True True))"

section \<open>Offset\<close>

text \<open>
  The sequential branch: the position after this request, wrapped to the window.  \<open>stride\<close> is the signed
  32-bit stride widened to \<open>off_t\<close>.
\<close>

definition advance_offset :: "kio_thread_config \<Rightarrow> s64 \<Rightarrow> s64" where
  "advance_offset ktc off =
     (let stride = scast (ktc_offset_stride ktc) :: s64;
          next_off = off + stride;
          r_end = next_off + ucast (ktc_block_size ktc)
      in if sint r_end > sint (ktc_offset_high ktc) then
           (if sint (ktc_offset_stride ktc) > 0 then ktc_offset_low ktc else r_end)
         else if sint r_end < sint (ktc_offset_low ktc) then
           (if sint (ktc_offset_stride ktc) < 0 then r_end else ktc_offset_low ktc)
         else next_off)"

text \<open>
  \<open>(u64)hi<<32 | lo\<close>, and \<open>rnd % range\<close> in unsigned arithmetic.
\<close>

definition random_u64 :: "u32 \<Rightarrow> u32 \<Rightarrow> u64" where
  "random_u64 lo hi = or (push_bit 32 (ucast hi)) (ucast lo)"

definition kio_thread_next_offset ::
  "kio_io \<Rightarrow> kio_thread_config \<Rightarrow> u32 \<Rightarrow> u32 \<Rightarrow> kio_thread \<Rightarrow> s64 \<times> kio_thread" where
  "kio_thread_next_offset io ktc lo hi th =
     (let block_size = kio_io_dev_block_size io;
          range = ktc_offset_high ktc - ktc_offset_low ktc
      in if block_size = 0 then (0, th)
         else if range = 0 then (ktc_offset_low ktc, th)
         else
           (let (result, th') =
              (if ktc_offset_random ktc \<noteq> 0
               then (ktc_offset_low ktc + random_u64 lo hi mod range, th)
               else (th_next_offset th, th\<lparr>th_next_offset := advance_offset ktc (th_next_offset th)\<rparr>))
            in (s64_round_down result block_size, th')))"

section \<open>Delay\<close>

datatype delay = No_Delay | Schedule_Timeout u64 | Udelay u32

text \<open>The delay after a request; \<open>usecs_to_jiffies\<close> is the kernel's.\<close>

definition kio_thread_delay :: "(u32 \<Rightarrow> u64) \<Rightarrow> kio_thread_config \<Rightarrow> dir \<Rightarrow> delay" where
  "kio_thread_delay usecs_to_jiffies ktc d =
     (let sleep_usec = (if dir_is_write d then ktc_write_sleep_usec ktc else ktc_read_sleep_usec ktc)
      in if sleep_usec \<noteq> 0 \<and> (ktc_burst_delay ktc = 0 \<or> dir_changed d)
         then (let hz = usecs_to_jiffies sleep_usec
               in if hz \<noteq> 0 then Schedule_Timeout hz else Udelay (ktc_read_sleep_usec ktc))
         else No_Delay)"

section \<open>Completion\<close>

text \<open>
  \<open>kio_bio_completion\<close> on the thread that owns the bio, statement by statement: the latency is added,
  the bio stops counting as dispatched, it counts as completed.  Waking the thread and freeing the page
  and the bio do not change the thread's counters.
\<close>

definition completion_clat :: "s64 \<Rightarrow> bio \<Rightarrow> kio_thread \<Rightarrow> kio_thread" where
  "completion_clat now b th = th\<lparr>th_clat_total := th_clat_total th + kio_bio_get_latency now b\<rparr>"

definition completion_dec :: "kio_thread \<Rightarrow> kio_thread" where
  "completion_dec th = th\<lparr>th_dispatched := th_dispatched th - 1\<rparr>"

definition completion_inc :: "kio_thread \<Rightarrow> kio_thread" where
  "completion_inc th = th\<lparr>th_completed := th_completed th + 1\<rparr>"

definition kio_bio_completion :: "s64 \<Rightarrow> bio \<Rightarrow> kio_thread \<Rightarrow> kio_thread" where
  "kio_bio_completion now b th = completion_inc (completion_dec (completion_clat now b th))"

end
