(* ===== verification/Kio_Handlers.thy ===== *)
theory Kio_Handlers
  imports Kio_Config_Props
begin

text \<open>
  The sysfs handlers of \<open>kio_config.c\<close> as a whole: the well-formedness of the configuration that every
  request keeps, the busy guard that all store handlers share (a locale, interpreted on the dispatch
  of a request), and the life cycle of the thread objects, error paths included.
\<close>

section \<open>Finding a thread by its object\<close>

lemma index_of_kobj_SomeD:
  "index_of_kobj k ts = Some i \<Longrightarrow> i < length ts \<and> ktc_kobj (ts ! i) = Some k"
  by (induction ts arbitrary: i) (auto split: if_splits)

lemma index_of_kobj_distinct:
  assumes "i < length ts" and "ktc_kobj (ts ! i) = Some k" and "distinct (map ktc_kobj ts)"
  shows "index_of_kobj k ts = Some i"
  using assms
proof (induction ts arbitrary: i)
  case Nil
  then show ?case by simp
next
  case (Cons t ts)
  show ?case
  proof (cases i)
    case 0
    with Cons.prems show ?thesis by simp
  next
    case (Suc j)
    with Cons.prems have "ktc_kobj t \<noteq> Some k"
      by (metis distinct.simps(2) list.simps(9) nth_Cons_Suc length_Cons nth_mem Suc_less_eq length_map nth_map)
    with Suc Cons show ?thesis by simp
  qed
qed

lemma index_of_kobj_cong:
  "map ktc_kobj ts = map ktc_kobj us \<Longrightarrow> index_of_kobj k ts = index_of_kobj k us"
proof (induction ts arbitrary: us)
  case Nil
  then show ?case by simp
next
  case (Cons t ts)
  then show ?case by (cases us) auto
qed

lemma from_kobj_SomeD:
  assumes "kio_thread_config_from_kobj c k = Inr (Some i)"
  shows "num_threads c \<noteq> 0 \<and> (\<exists>ts. threads c = Some ts \<and> i < length ts \<and> ktc_kobj (ts ! i) = Some k)"
  using assms
  by (auto simp: kio_thread_config_from_kobj_def config_threads_def
      split: sum.splits option.splits if_splits dest: index_of_kobj_SomeD)

lemma map_kobj_update:
  assumes "ktc_kobj t = ktc_kobj (ts ! i)"
  shows "map ktc_kobj (ts[i := t]) = map ktc_kobj ts"
  using assms by (metis list_update_beyond list_update_id map_update not_le)

lemma from_kobj_update:
  assumes "threads c = Some ts" and "i < length ts" and "ktc_kobj t = ktc_kobj (ts ! i)"
  shows "kio_thread_config_from_kobj (c\<lparr>threads := Some (ts[i := t])\<rparr>) k = kio_thread_config_from_kobj c k"
proof -
  have "map ktc_kobj (ts[i := t]) = map ktc_kobj ts"
    using assms(3) by (rule map_kobj_update)
  with assms(1) show ?thesis
    by (auto simp: kio_thread_config_from_kobj_def config_threads_def intro: index_of_kobj_cong)
qed

section \<open>Requests\<close>

text \<open>What user space can write through sysfs, apart from \<open>run_workload\<close>.\<close>

datatype cfg_request =
    Write_Num_Threads string u64
  | Write_Runtime_Seconds string u64
  | Write_Thread_Var kobj string u64 nat

definition kio_config_request ::
  "cfg_env \<Rightarrow> bool \<Rightarrow> cfg_request \<Rightarrow> kio_config \<Rightarrow> fault + int \<times> kio_config" where
  "kio_config_request env is_running r c =
     (case r of
        Write_Num_Threads buf len \<Rightarrow>
          map_sum id (\<lambda>(rc, c', _). (rc, c')) (kio_num_threads_store env is_running buf len c)
      | Write_Runtime_Seconds buf len \<Rightarrow> Inr (kio_runtime_seconds_store env is_running buf len c)
      | Write_Thread_Var k buf len i \<Rightarrow> kio_thread_var_store env is_running k buf len i c)"

lemma config_request_thread_var [simp]:
  "kio_config_request env is_running (Write_Thread_Var k buf len i) c
   = kio_thread_var_store env is_running k buf len i c"
  by (simp add: kio_config_request_def)

text \<open>A series of requests, each on the configuration the previous one left.\<close>

fun serve :: "(('a \<Rightarrow> 's \<Rightarrow> fault + int \<times> 's)) \<Rightarrow> 'a list \<Rightarrow> 's \<Rightarrow> fault + int list \<times> 's" where
  "serve h [] s = Inr ([], s)"
| "serve h (a # as) s =
     (case h a s of
        Inl f \<Rightarrow> Inl f
      | Inr (rc, s') \<Rightarrow> (case serve h as s' of Inl f \<Rightarrow> Inl f | Inr (rcs, s'') \<Rightarrow> Inr (rc # rcs, s'')))"

section \<open>The busy guard\<close>

locale guarded_handler =
  fixes handle :: "bool \<Rightarrow> 'a \<Rightarrow> 's \<Rightarrow> fault + int \<times> 's"
  assumes guard: "handle True a s = Inr (- EBUSY, s)"
begin

lemma serve_guarded: "serve (handle True) as s = Inr (replicate (length as) (- EBUSY), s)"
  by (induction as) (simp_all add: guard)

end

interpretation config_requests: guarded_handler "kio_config_request env" for env
  by unfold_locales
    (simp add: kio_config_request_def kio_num_threads_store_def kio_runtime_seconds_store_def
      kio_thread_var_store_def split: cfg_request.split)

section \<open>Well-formed configurations\<close>

definition config_wf :: "kio_config \<Rightarrow> bool" where
  "config_wf c \<longleftrightarrow>
     uint (runtime_seconds c) \<le> 3600 \<and>
     (case threads c of
        None \<Rightarrow> True
      | Some ts \<Rightarrow> num_threads c \<noteq> 0 \<and> length ts = unat (num_threads c) \<and>
          None \<notin> set (map ktc_kobj ts) \<and> distinct (map ktc_kobj ts))"

text \<open>Different names give different objects: two live objects never share an address.\<close>

definition kobjs_distinct :: "cfg_env \<Rightarrow> bool" where
  "kobjs_distinct env \<longleftrightarrow>
     (\<forall>a b k. kobject_create_and_add env a = Some k \<longrightarrow> kobject_create_and_add env b = Some k \<longrightarrow> a = b)"

lemma config_wf_zero: "config_wf kio_config_zero"
  by (simp add: config_wf_def kio_config_zero_def)

lemma dec_nat_inject: "dec_nat m = dec_nat n \<Longrightarrow> m = n"
  using read_digits_dec_nat [of 0 m] read_digits_dec_nat [of 0 n] by auto

text \<open>The objects of the first \<open>n\<close> threads from \<open>tid\<close> on.\<close>

definition thread_kobjs :: "cfg_env \<Rightarrow> nat \<Rightarrow> nat \<Rightarrow> kobj option list" where
  "thread_kobjs env tid n = map (\<lambda>i. kobject_create_and_add env (dec_nat i)) [tid..<tid + n]"

lemma thread_kobjs_distinct:
  assumes "kobjs_distinct env" and "None \<notin> set (thread_kobjs env tid n)"
  shows "distinct (thread_kobjs env tid n)"
proof -
  have "inj_on (\<lambda>i. kobject_create_and_add env (dec_nat i)) {tid..<tid + n}"
  proof (rule inj_onI)
    fix i j
    assume i: "i \<in> {tid..<tid + n}" and eq: "kobject_create_and_add env (dec_nat i) = kobject_create_and_add env (dec_nat j)"
    have "kobject_create_and_add env (dec_nat i) \<in> set (thread_kobjs env tid n)"
      using i by (auto simp: thread_kobjs_def)
    with assms(2) obtain k where "kobject_create_and_add env (dec_nat i) = Some k"
      by (metis not_Some_eq)
    with eq assms(1) show "i = j"
      by (metis kobjs_distinct_def dec_nat_inject)
  qed
  then show ?thesis
    by (simp add: thread_kobjs_def distinct_map)
qed

lemma thread_kobjs_Cons:
  "thread_kobjs env tid (Suc n) = kobject_create_and_add env (dec_nat tid) # thread_kobjs env (Suc tid) n"
  by (simp add: thread_kobjs_def upt_conv_Cons del: upt_Suc)

text \<open>
  Creating the objects for an array of \<open>n\<close> threads either succeeds for all of them, or stops at
  thread \<open>m\<close>: either its object could not be created, or one of its files could not.
\<close>

lemma create_files_failed: "create_files env k fs \<noteq> 0 \<Longrightarrow> \<exists>f. sysfs_create_file env k f \<noteq> 0"
  by (induction fs) (auto split: if_splits)

lemma create_threads_ConsE:
  assumes "create_threads env tid (t # ts) = (rc, ts', es)"
  obtains (no_kobj) "kobject_create_and_add env (dec_nat tid) = None" "rc = - ENOMEM"
      "ts' = t\<lparr>ktc_kobj := None\<rparr> # ts" "es = []"
  | (no_file) k where "kobject_create_and_add env (dec_nat tid) = Some k" "rc \<noteq> 0"
      "ts' = t\<lparr>ktc_kobj := Some k\<rparr> # ts" "es = [Acq (Kobj k), Rel (Kobj k)]"
      "\<exists>f. sysfs_create_file env k f \<noteq> 0"
  | (created) k us fs where "kobject_create_and_add env (dec_nat tid) = Some k"
      "create_threads env (Suc tid) ts = (rc, us, fs)"
      "ts' = t\<lparr>ktc_kobj := Some k\<rparr> # us" "es = Acq (Kobj k) # fs"
  using assms create_files_failed
  by (fastforce simp: kio_config_create_thread_def Let_def split: prod.splits option.splits if_splits)

lemma create_threads_ok:
  assumes "create_threads env tid ts = (0, ts', es)"
  shows "map ktc_kobj ts' = thread_kobjs env tid (length ts)
    \<and> None \<notin> set (thread_kobjs env tid (length ts))
    \<and> es = map (Acq \<circ> Kobj \<circ> the) (thread_kobjs env tid (length ts))
    \<and> list_all2 (\<lambda>t t'. t' = t\<lparr>ktc_kobj := ktc_kobj t'\<rparr>) ts ts'"
  using assms
proof (induction ts arbitrary: tid ts' es)
  case Nil
  then show ?case by (simp add: thread_kobjs_def)
next
  case (Cons t ts)
  from Cons.prems show ?case
  proof (cases rule: create_threads_ConsE)
    case (created k us fs)
    from Cons.IH [OF created(2)] show ?thesis
      by (simp add: created thread_kobjs_Cons)
  qed simp_all
qed

text \<open>How a failed creation ends: with or without a half-created thread.\<close>

lemma create_threads_failed:
  assumes "create_threads env tid ts = (rc, ts', es)" and "rc \<noteq> 0" and "\<forall>t \<in> set ts. ktc_kobj t = None"
  shows "\<exists>ks. length ts' = length ts \<and> Some ` set ks \<subseteq> set (thread_kobjs env tid (length ts)) \<and>
      ((es = map (Acq \<circ> Kobj) ks \<and> List.map_filter ktc_kobj ts' = ks \<and> rc = - ENOMEM
          \<and> None \<in> set (thread_kobjs env tid (length ts)))
       \<or> (\<exists>k. (\<exists>f. sysfs_create_file env k f \<noteq> 0) \<and> es = map (Acq \<circ> Kobj) (ks @ [k]) @ [Rel (Kobj k)] \<and> List.map_filter ktc_kobj ts' = ks @ [k]
            \<and> thread_kobjs env tid (length (ks @ [k])) = map Some (ks @ [k])))"
  using assms
proof (induction ts arbitrary: tid ts' es)
  case Nil
  then show ?case by simp
next
  case (Cons t ts)
  have none: "List.map_filter ktc_kobj ts = []"
    using Cons.prems(3) by (auto simp: List.map_filter_def filter_empty_conv)
  from Cons.prems(1) show ?case
  proof (cases rule: create_threads_ConsE)
    case no_kobj
    then show ?thesis
      using none by (intro exI [of _ "[]"]) (simp add: List.map_filter_simps thread_kobjs_Cons)
  next
    case (no_file k)
    then show ?thesis
      using none
      by (intro exI [of _ "[]"]) (simp add: List.map_filter_simps thread_kobjs_Cons thread_kobjs_def)
  next
    case (created k us fs)
    have "\<forall>t \<in> set ts. ktc_kobj t = None"
      using Cons.prems(3) by simp
    from Cons.IH [OF created(2) Cons.prems(2) this] obtain ks where
      ks: "length us = length ts" "Some ` set ks \<subseteq> set (thread_kobjs env (Suc tid) (length ts))"
      "(fs = map (Acq \<circ> Kobj) ks \<and> List.map_filter ktc_kobj us = ks \<and> rc = - ENOMEM
          \<and> None \<in> set (thread_kobjs env (Suc tid) (length ts)))
       \<or> (\<exists>k. (\<exists>f. sysfs_create_file env k f \<noteq> 0) \<and> fs = map (Acq \<circ> Kobj) (ks @ [k]) @ [Rel (Kobj k)] \<and> List.map_filter ktc_kobj us = ks @ [k]
            \<and> thread_kobjs env (Suc tid) (length (ks @ [k])) = map Some (ks @ [k]))"
      by blast
    show ?thesis
      by (rule exI [of _ "k # ks"])
        (use ks created(1) in \<open>auto simp: created(3,4) List.map_filter_simps thread_kobjs_Cons\<close>)
  qed
qed

section \<open>A small system for the examples\<close>

text \<open>
  A machine with four processors, on which the objects of the module and of its first two threads can
  be created, and a device of one gibibyte with 512-byte blocks.
\<close>

definition example_env :: cfg_env where
  "example_env = \<lparr>num_online_cpus = 4, is_power_of_2 = (\<lambda>w. w \<in> {512, 1024, 2048, 4096, 8192}),
     kstrtol = read_long, sscanf_d = scan_d, kzalloc_threads = True,
     kobject_create_and_add = (\<lambda>n. if n = ''kio'' then Some 7 else if n = ''0'' then Some 10
        else if n = ''1'' then Some 11 else None),
     sysfs_create_file = (\<lambda>k f. 0)\<rparr>"

definition example_io :: kio_io where
  "example_io = \<lparr>dev_name = Some (0, ''/dev/vdb''),
     bdev = Some \<lparr>bd_disk = True, bd_queue = True, bd_whole = True, bd_partno = 0, bd_start_sect = 0,
       bd_part_tbl = []\<rparr>,
     dev_byte_size = 1073741824, dev_block_size = 512, bio_set = True\<rparr>"

definition example_thread :: kio_thread_config where
  "example_thread = \<lparr>ktc_kobj = Some 10, ktc_offset_low = 0, ktc_offset_high = 4294967295,
     ktc_block_size = 4096, ktc_queue_depth = 10, ktc_offset_stride = 4096, ktc_offset_random = 0,
     ktc_burst_delay = 0, ktc_burst_finish = 0, ktc_read_mix_percent = 100, ktc_read_burst = 100,
     ktc_write_burst = 0, ktc_read_sleep_usec = 0, ktc_write_sleep_usec = 0\<rparr>"

definition example_config :: kio_config where
  "example_config = \<lparr>runtime_seconds = 5, num_threads = 1, threads = Some [example_thread]\<rparr>"

lemmas example_defs = example_env_def example_io_def example_thread_def example_config_def

lemma example_kobjs_distinct: "kobjs_distinct example_env"
  by (simp add: kobjs_distinct_def example_env_def)

lemma example_config_wf: "config_wf example_config"
  by (simp add: config_wf_def example_config_def example_thread_def)

lemma example_from_kobj: "kio_thread_config_from_kobj example_config 10 = Inr (Some 0)"
  by (simp add: kio_thread_config_from_kobj_def config_threads_def example_config_def example_thread_def)

section \<open>Properties of the validation\<close>

text \<open>C2: \<open>kio_config_is_valid\<close> decides exactly this: the number of threads and the run time are in range, and
  every thread has a block size that is a power of two and, with its window fitted into the device, satisfies
  \<open>thread_valid\<close>: every field in range, a window of positive length that ends one block before the end of the
  device, bursts that fit the mix.  The configuration it leaves is the given one with the windows fitted.\<close>

theorem config_is_valid_iff:
  "kio_config_is_valid env io c = Inr (True, c') \<longleftrightarrow>
     1 \<le> uint (num_threads c) \<and> num_threads c \<le> num_online_cpus env
     \<and> 1 \<le> uint (runtime_seconds c) \<and> uint (runtime_seconds c) \<le> 3600
     \<and> (\<exists>ts. threads c = Some ts \<and> list_all (thread_acceptable env (dev_byte_size io)) ts
          \<and> c' = c\<lparr>threads := Some (map (fit_window (dev_byte_size io)) ts)\<rparr>)"
proof (cases "check_u (num_threads c) 1 (num_online_cpus env)
    \<and> check_u (runtime_seconds c) 1 (of_nat KIO_MAX_RUNTIME_SECONDS)")
  case False
  then show ?thesis
    by (auto simp: kio_config_is_valid_def check_u_iff KIO_MAX_RUNTIME_SECONDS_def word_le_def)
next
  case True
  then have nz: "num_threads c \<noteq> 0" and r: "1 \<le> uint (num_threads c)" "num_threads c \<le> num_online_cpus env"
    "1 \<le> uint (runtime_seconds c)" "uint (runtime_seconds c) \<le> 3600"
    by (auto simp: check_u_iff KIO_MAX_RUNTIME_SECONDS_def word_le_def)
  show ?thesis
  proof (cases "threads c")
    case None
    with True nz show ?thesis
      by (simp add: kio_config_is_valid_def config_threads_def)
  next
    case (Some ts)
    obtain ok us where v: "kio_config_threads_are_valid env (dev_byte_size io) ts = (ok, us)"
      by fastforce
    with True nz Some have "kio_config_is_valid env io c = Inr (True, c') \<longleftrightarrow> ok \<and> c' = c\<lparr>threads := Some us\<rparr>"
      by (auto simp: kio_config_is_valid_def config_threads_def kio_io_dev_byte_size_def)
    with v r Some threads_are_valid_iff [of env "dev_byte_size io" ts us]
      threads_are_valid_iff [of env "dev_byte_size io" ts "map (fit_window (dev_byte_size io)) ts"] show ?thesis
      by (cases ok) auto
  qed
qed

section \<open>Properties of the attributes\<close>

lemma var_store_ok:
  assumes "kio_thread_config_from_kobj c k = Inr (Some i)" and "kstrtol env buf = Inr v"
    and "kio_var_of_index idx = Some var"
  shows "kio_thread_var_store env False k buf len idx c
    = Inr (sint len, c\<lparr>threads := Some ((the (threads c))[i := kio_var_set var v (the (threads c) ! i)])\<rparr>)"
  using assms by (simp add: kio_thread_var_store_def)

lemma var_store_okE:
  assumes "kio_thread_var_store env False k buf len idx c = Inr (rc, c')" and "0 \<le> rc"
    and "\<And>b e. kstrtol env b = Inl e \<Longrightarrow> e < 0"
  obtains i v var where "kio_thread_config_from_kobj c k = Inr (Some i)" "kstrtol env buf = Inr v"
    "kio_var_of_index idx = Some var" "rc = sint len"
    "c' = c\<lparr>threads := Some ((the (threads c))[i := kio_var_set var v (the (threads c) ! i)])\<rparr>"
proof -
  have "kstrtol env buf \<noteq> Inl rc"
    using assms(2,3) by force
  with assms(1,2) that show ?thesis
    by (auto simp: kio_thread_var_store_def split: sum.splits option.splits)
qed

text \<open>A successful write to a thread attribute is read back as the value truncated to the field;
  every other attribute of the thread, every attribute of the other threads and the lookup of the
  threads stay as they were.\<close>

lemma thread_var_store_show:
  assumes "kio_thread_var_store env False k buf len idx c = Inr (rc, c')" and "0 \<le> rc"
    and "\<And>b e. kstrtol env b = Inl e \<Longrightarrow> e < 0"
  shows "\<exists>v var. kstrtol env buf = Inr v \<and> kio_var_of_index idx = Some var \<and> rc = sint len
    \<and> kio_thread_var_show c' k idx = Inr (Inr (sprintf_ld (kio_var_norm var v)))
    \<and> (\<forall>k' idx'. k' \<noteq> k \<or> kio_var_of_index idx' \<noteq> Some var \<longrightarrow>
          kio_thread_var_show c' k' idx' = kio_thread_var_show c k' idx')"
proof -
  from assms obtain i v var where i: "kio_thread_config_from_kobj c k = Inr (Some i)"
    and v: "kstrtol env buf = Inr v" and var: "kio_var_of_index idx = Some var" and rc: "rc = sint len"
    and c': "c' = c\<lparr>threads := Some ((the (threads c))[i := kio_var_set var v (the (threads c) ! i)])\<rparr>"
    by (rule var_store_okE)
  from from_kobj_SomeD [OF i] obtain ts where ts: "threads c = Some ts" "i < length ts"
    and k: "ktc_kobj (ts ! i) = Some k"
    by blast
  have look: "kio_thread_config_from_kobj c' k' = kio_thread_config_from_kobj c k'" for k'
    unfolding c' using ts by (simp add: from_kobj_update)
  have same: "kio_thread_var_show c' k idx = Inr (Inr (sprintf_ld (kio_var_norm var v)))"
    unfolding kio_thread_var_show_def look using i var ts by (simp add: c' var_get_set)
  have other: "kio_thread_var_show c' k' idx' = kio_thread_var_show c k' idx'"
    if ne: "k' \<noteq> k \<or> kio_var_of_index idx' \<noteq> Some var" for k' idx'
  proof (cases "kio_thread_config_from_kobj c k'")
    case (Inr r)
    show ?thesis
    proof (cases "r = Some i \<and> k' = k")
      case True
      with ne Inr ts show ?thesis
        unfolding kio_thread_var_show_def look
        by (auto simp: c' var_get_set_other split: option.splits)
    next
      case False
      have "r \<noteq> Some i"
        using False Inr from_kobj_SomeD [of c k' i] ts k by auto
      with Inr ts show ?thesis
        unfolding kio_thread_var_show_def look by (auto simp: c' nth_list_update split: option.splits)
    qed
  qed (simp add: kio_thread_var_show_def look)
  show ?thesis
    using v var rc same other by blast
qed

text \<open>
  Writing back a thread's attributes as they are shown: the requests a tool issues when it reads the attributes
  \<open>is\<close> of the thread \<open>k0\<close> in the configuration \<open>c0\<close> and writes the texts to the thread \<open>k\<close>, and what a series of
  such requests does to the thread that receives them.
\<close>

definition restore_requests :: "kio_config \<Rightarrow> kobj \<Rightarrow> kobj \<Rightarrow> nat list \<Rightarrow> cfg_request list" where
  "restore_requests c0 k0 k is =
     List.map_filter (\<lambda>i. case kio_thread_var_show c0 k0 i of
         Inr (Inr text) \<Rightarrow> Some (Write_Thread_Var k text (of_nat (length text)) i)
       | _ \<Rightarrow> None) is"

definition attribute_requests :: "kobj \<Rightarrow> kio_thread_config \<Rightarrow> nat list \<Rightarrow> cfg_request list" where
  "attribute_requests k t is =
     map (\<lambda>i. let text = sprintf_ld (kio_var_get (kio_vars ! i) t)
              in Write_Thread_Var k text (of_nat (length text)) i) is"

lemma restore_requests_eq:
  assumes "kio_thread_config_from_kobj c0 k0 = Inr (Some j0)" and "\<forall>i \<in> set is. i < length kio_vars"
  shows "restore_requests c0 k0 k is = attribute_requests k (the (threads c0) ! j0) is"
  using assms(2)
  by (induction "is")
     (simp_all add: restore_requests_def attribute_requests_def kio_thread_var_show_def kio_var_of_index_def
        assms(1) List.map_filter_def Let_def)

lemma serve_restore:
  assumes "\<forall>v. kstrtol env (sprintf_ld v) = Inr v" and "\<forall>i \<in> set is. i < length kio_vars"
    and "kio_thread_config_from_kobj c k = Inr (Some j)" and "threads c = Some ts" and "j < length ts"
  shows "\<exists>rcs. serve (kio_config_request env False) (attribute_requests k t is) c
    = Inr (rcs, c\<lparr>threads := Some (ts[j := thread_attrs.put_all
        (map (\<lambda>i. (kio_vars ! i, kio_var_get (kio_vars ! i) t)) is) (ts ! j)])\<rparr>)"
  using assms(2-5)
proof (induction "is" arbitrary: c ts)
  case Nil
  then show ?case
    by (simp add: attribute_requests_def thread_attrs.put_all_def)
next
  case (Cons i "is")
  let ?v = "kio_vars ! i"
  let ?t = "kio_var_set ?v (kio_var_get ?v t) (ts ! j)"
  let ?c = "c\<lparr>threads := Some (ts[j := ?t])\<rparr>"
  have "kio_thread_config_from_kobj ?c k = Inr (Some j)"
    using Cons.prems by (simp add: from_kobj_update)
  then obtain rcs where "serve (kio_config_request env False) (attribute_requests k t is) ?c
      = Inr (rcs, ?c\<lparr>threads := Some ((ts[j := ?t])[j := thread_attrs.put_all
          (map (\<lambda>i. (kio_vars ! i, kio_var_get (kio_vars ! i) t)) is) ?t])\<rparr>)"
    using Cons.IH [of ?c "ts[j := ?t]"] Cons.prems by auto
  moreover have "kio_var_of_index i = Some ?v"
    using Cons.prems(1) by (simp add: kio_var_of_index_def)
  ultimately show ?case
    using Cons.prems assms(1)
    by (simp add: attribute_requests_def var_store_ok thread_attrs.put_all_def Let_def)
qed

lemma restore_all_attributes:
  "thread_attrs.put_all (map (\<lambda>i. (kio_vars ! i, kio_var_get (kio_vars ! i) t)) [0..<length kio_vars]) u
   = t\<lparr>ktc_kobj := ktc_kobj u\<rparr>"
proof (rule thread_config_eqI)
  fix v
  have "map (\<lambda>i. (kio_vars ! i, kio_var_get (kio_vars ! i) t)) [0..<length kio_vars]
      = map (\<lambda>w. (w, kio_var_get w t)) kio_vars"
    by (rule nth_equalityI) simp_all
  then show "kio_var_get v (thread_attrs.put_all
      (map (\<lambda>i. (kio_vars ! i, kio_var_get (kio_vars ! i) t)) [0..<length kio_vars]) u)
    = kio_var_get v (t\<lparr>ktc_kobj := ktc_kobj u\<rparr>)"
    by (simp add: thread_attrs.restore_all kio_vars_complete) (cases v; simp)
qed simp

text \<open>C19: Round trip of a saved configuration: reading the thirteen attributes of one thread through their show
  handlers and writing each text back, to that or to any other thread and possibly much later, gives the thread
  the same configuration in every field (its kernel object excepted), and no other thread changes.  This relies on
  \<open>kstrtol\<close> reading what \<open>sprintf\<close> printed with \<open>%ld\<close> and a newline.\<close>

theorem restore_round_trip:
  assumes "\<forall>v. kstrtol env (sprintf_ld v) = Inr v"
    and "kio_thread_config_from_kobj c0 k0 = Inr (Some j0)" and "threads c0 = Some ts0"
    and "kio_thread_config_from_kobj c k = Inr (Some j)" and "threads c = Some ts"
  shows "\<exists>rcs. serve (kio_config_request env False) (restore_requests c0 k0 k [0..<length kio_vars]) c
    = Inr (rcs, c\<lparr>threads := Some (ts[j := (ts0 ! j0)\<lparr>ktc_kobj := Some k\<rparr>])\<rparr>)"
proof -
  from from_kobj_SomeD [OF assms(4)] assms(5) have j: "j < length ts" "ktc_kobj (ts ! j) = Some k"
    by auto
  have all: "\<forall>i \<in> set [0..<length kio_vars]. i < length kio_vars"
    by simp
  from serve_restore [OF assms(1) all assms(4,5) j(1), of "ts0 ! j0"] j(2) show ?thesis
    by (simp add: restore_all_attributes restore_requests_eq [OF assms(2) all] assms(3))
qed

theorem restore_round_trip_witness:
  "\<exists>rcs. serve (kio_config_request example_env False)
      (restore_requests (example_config\<lparr>threads := Some [example_thread\<lparr>ktc_offset_stride := - 512, ktc_offset_low := 8589934592\<rparr>]\<rparr>)
         10 10 [0..<length kio_vars]) example_config
    = Inr (rcs, example_config\<lparr>threads :=
        Some [example_thread\<lparr>ktc_offset_stride := - 512, ktc_offset_low := 8589934592\<rparr>]\<rparr>)"
proof -
  let ?t = "example_thread\<lparr>ktc_offset_stride := - 512, ktc_offset_low := 8589934592\<rparr>"
  let ?c = "example_config\<lparr>threads := Some [?t]\<rparr>"
  have "\<forall>v. kstrtol example_env (sprintf_ld v) = Inr v"
    by (simp add: example_env_def read_long_sprintf_ld)
  moreover have "kio_thread_config_from_kobj ?c 10 = Inr (Some 0)"
    by (simp add: kio_thread_config_from_kobj_def config_threads_def example_config_def example_thread_def)
  moreover have "threads ?c = Some [?t]" "threads example_config = Some [example_thread]"
    by (simp_all add: example_config_def)
  moreover note example_from_kobj
  ultimately have "\<exists>rcs. serve (kio_config_request example_env False) (restore_requests ?c 10 10 [0..<length kio_vars]) example_config
      = Inr (rcs, example_config\<lparr>threads := Some ([example_thread][0 := ([?t] ! 0)\<lparr>ktc_kobj := Some 10\<rparr>])\<rparr>)"
    by (intro restore_round_trip)
  moreover have "?t\<lparr>ktc_kobj := Some 10\<rparr> = ?t"
    by (simp add: example_thread_def)
  ultimately show ?thesis
    by simp
qed

section \<open>Properties of the request sequences\<close>

lemma var_store_cases:
  assumes "kio_thread_var_store env is_running k buf len i c = Inr (rc, c')"
  shows "c' = c \<or> (\<exists>ts j v x. threads c = Some ts \<and> num_threads c \<noteq> 0
    \<and> c' = c\<lparr>threads := Some (ts[j := kio_var_set v x (ts ! j)])\<rparr>)"
proof (cases "is_running \<or> (\<nexists>j. kio_thread_config_from_kobj c k = Inr (Some j))")
  case True
  then show ?thesis
    using assms by (auto simp: kio_thread_var_store_def split: if_splits sum.splits option.splits)
next
  case False
  then obtain j where j: "kio_thread_config_from_kobj c k = Inr (Some j)" and nr: "\<not> is_running"
    by blast
  from from_kobj_SomeD [OF j] obtain ts where "threads c = Some ts" "num_threads c \<noteq> 0"
    by blast
  with assms j nr show ?thesis
    by (auto simp: kio_thread_var_store_def split: option.splits sum.splits)
qed

lemma runtime_seconds_store_wf:
  assumes "kio_runtime_seconds_store env is_running buf len c = (rc, c')" and "config_wf c"
  shows "config_wf c'"
proof -
  have "uint s \<le> 3600" if "1 \<le> sint s" "sint s \<le> 3600" for s :: s32
  proof -
    have "uint s = take_bit 32 (sint s)"
      by (simp add: uint_sint)
    with that show ?thesis
      by (simp add: take_bit_int_eq_self)
  qed
  then show ?thesis
    using assms
    by (auto simp: kio_runtime_seconds_store_def config_wf_def Let_def KIO_MAX_RUNTIME_SECONDS_def
        split: if_splits option.splits)
qed

lemma thread_var_store_wf:
  assumes "kio_thread_var_store env is_running k buf len i c = Inr (rc, c')" and "config_wf c"
  shows "config_wf c'"
  using var_store_cases [OF assms(1)]
proof (elim disjE exE conjE)
  fix ts j v x
  assume stored: "threads c = Some ts" "num_threads c \<noteq> 0"
    "c' = c\<lparr>threads := Some (ts[j := kio_var_set v x (ts ! j)])\<rparr>"
  have "map ktc_kobj (ts[j := kio_var_set v x (ts ! j)]) = map ktc_kobj ts"
    by (rule map_kobj_update) simp
  then show ?thesis
    using assms(2) stored unfolding config_wf_def by (simp del: set_map list.set_map)
qed (use assms(2) in simp)

lemma num_threads_store_wf:
  assumes "kio_num_threads_store env is_running buf len c = Inr (rc, c', es)" and "config_wf c" and "kobjs_distinct env"
  shows "config_wf c'"
proof (cases "threads c' = None")
  case True
  then show ?thesis
    using assms(1,2)
    by (auto simp: kio_num_threads_store_def config_wf_def Let_def kio_config_destroy_all_threads_def
        split: if_splits option.splits sum.splits prod.splits)
next
  case False
  then consider "c' = c" | n ts fs where "create_threads env 0 (replicate (unat n) ktc_zero) = (0, ts, fs)"
    "c' = c\<lparr>num_threads := n, threads := Some ts\<rparr>" "1 \<le> sint n"
    using assms(1)
    by (auto simp: kio_num_threads_store_def Let_def kio_config_destroy_all_threads_def
        split: if_splits option.splits sum.splits prod.splits)
  then show ?thesis
  proof cases
    case (2 n ts fs)
    from create_threads_ok [OF 2(1)] have k: "map ktc_kobj ts = thread_kobjs env 0 (unat n)"
      and nn: "None \<notin> set (map ktc_kobj ts)" and len: "length ts = unat n"
      by (auto dest: list_all2_lengthD)
    moreover have "distinct (map ktc_kobj ts)"
      using thread_kobjs_distinct [OF assms(3)] k nn by metis
    moreover have "n \<noteq> 0"
      using 2(3) by auto
    ultimately show ?thesis
      using assms(2) by (simp add: config_wf_def 2(2))
  qed (use assms(2) in simp)
qed

lemma config_request_wf:
  assumes "kio_config_request env is_running r c = Inr (rc, c')" and "config_wf c" and "kobjs_distinct env"
  shows "config_wf c'"
proof (cases r)
  case (Write_Num_Threads buf len)
  with assms(1) obtain es where "kio_num_threads_store env is_running buf len c = Inr (rc, c', es)"
    by (cases "kio_num_threads_store env is_running buf len c") (auto simp: kio_config_request_def)
  with assms(2,3) show ?thesis
    by (blast intro: num_threads_store_wf)
qed (use assms(1,2) in \<open>auto simp: kio_config_request_def intro: thread_var_store_wf runtime_seconds_store_wf\<close>)

section \<open>Properties of the thread objects\<close>

lemma put_kobjs_eq: "put_kobjs ts = map Rel (map Kobj (List.map_filter ktc_kobj ts))"
  by (simp add: put_kobjs_def)

text \<open>What a write to \<open>num_threads\<close> does once its guards have passed.\<close>

definition num_threads_admitted :: "cfg_env \<Rightarrow> string \<Rightarrow> kio_config \<Rightarrow> s32 \<Rightarrow> bool" where
  "num_threads_admitted env buf c n \<longleftrightarrow>
     num_threads c = 0 \<and> threads c = None \<and> sscanf_d env buf = Some n \<and> 1 \<le> sint n
     \<and> n \<le> num_online_cpus env \<and> kzalloc_threads env"

lemma num_threads_store_admitted:
  assumes "num_threads_admitted env buf c n"
    and "create_threads env 0 (replicate (unat n) ktc_zero) = (rc, ts, es)"
  shows "kio_num_threads_store env False buf len c =
    (if rc \<noteq> 0
     then Inr (rc, c\<lparr>num_threads := n, threads := None\<rparr>,
               Acq Threads_Array # es @ put_kobjs ts @ [Rel Threads_Array])
     else Inr (int_of_count len, c\<lparr>num_threads := n, threads := Some ts\<rparr>, Acq Threads_Array # es))"
proof -
  have "n \<noteq> 0"
    using assms(1) by (auto simp: num_threads_admitted_def)
  with assms show ?thesis
    by (auto simp: num_threads_admitted_def kio_num_threads_store_def Let_def
        kio_config_destroy_all_threads_def config_threads_def)
qed

lemma map_filter_all_Some: "None \<notin> set (map f xs) \<Longrightarrow> List.map_filter f xs = map (the \<circ> f) xs"
  by (induction xs) (auto simp: List.map_filter_simps split: option.split)

text \<open>Setting the number of threads, when it succeeds: the array, its objects and the trace.\<close>

lemma num_threads_store_created:
  assumes "kio_num_threads_store env False buf len c = Inr (rc, c', es)" and "threads c' \<noteq> None"
    and "threads c = None"
  obtains n ts ks where "num_threads_admitted env buf c n" "c' = c\<lparr>num_threads := n, threads := Some ts\<rparr>"
    "es = map Acq (Threads_Array # map Kobj ks)" "put_kobjs ts = map Rel (map Kobj ks)"
    "length ts = unat n" "rc = int_of_count len"
proof -
  have "\<exists>n. num_threads_admitted env buf c n"
  proof (cases "sscanf_d env buf")
    case (Some n)
    with assms have "num_threads_admitted env buf c n"
      by (auto simp: kio_num_threads_store_def num_threads_admitted_def Let_def split: if_splits)
    then show ?thesis ..
  qed (use assms in \<open>auto simp: kio_num_threads_store_def Let_def split: if_splits\<close>)
  then obtain n where adm: "num_threads_admitted env buf c n" ..
  obtain rc0 ts fs where cr: "create_threads env 0 (replicate (unat n) ktc_zero) = (rc0, ts, fs)"
    by (metis prod_cases3)
  with num_threads_store_admitted [OF adm cr, of len] assms(1,2)
  have z: "rc0 = 0" and c': "c' = c\<lparr>num_threads := n, threads := Some ts\<rparr>"
    and es: "es = Acq Threads_Array # fs" and rc: "rc = int_of_count len"
    by (auto split: if_splits)
  from create_threads_ok [OF cr [unfolded z]] have nn: "None \<notin> set (map ktc_kobj ts)"
    and fs: "fs = map Acq (map Kobj (map (the \<circ> ktc_kobj) ts))" and l: "length ts = unat n"
    by (auto dest: list_all2_lengthD simp flip: map_map)
  from map_filter_all_Some [OF nn] have "put_kobjs ts = map Rel (map Kobj (map (the \<circ> ktc_kobj) ts))"
    by (simp add: put_kobjs_eq)
  then show ?thesis
    using adm c' es fs rc l by (intro that [of n ts "map (the \<circ> ktc_kobj) ts"]) simp_all
qed

lemma num_threads_store_failed:
  assumes "num_threads_admitted env buf c n"
    and "kio_num_threads_store env False buf len c = Inr (rc, c', es)" and "threads c' = None"
  obtains ts fs where "create_threads env 0 (replicate (unat n) ktc_zero) = (rc, ts, fs)" "rc \<noteq> 0"
    "c' = c\<lparr>num_threads := n, threads := None\<rparr>"
    "es = Acq Threads_Array # fs @ put_kobjs ts @ [Rel Threads_Array]"
proof -
  obtain rc0 ts fs where cr: "create_threads env 0 (replicate (unat n) ktc_zero) = (rc0, ts, fs)"
    by (metis prod_cases3)
  with num_threads_store_admitted [OF assms(1) cr, of len] assms(2,3) that show ?thesis
    by (auto split: if_splits)
qed

text \<open>The error path of creation, with the two ways to fail told apart.\<close>

lemma num_threads_failure_trace:
  assumes "num_threads_admitted env buf c n"
    and "kio_num_threads_store env False buf len c = Inr (rc, c', es)" and "threads c' = None"
  shows "(\<exists>ks. rc = - ENOMEM \<and> None \<in> set (thread_kobjs env 0 (unat n)) \<and>
        es = map Acq (Threads_Array # map Kobj ks) @ map Rel (map Kobj ks @ [Threads_Array]))
    \<or> (\<exists>ks k. (\<exists>f. sysfs_create_file env k f \<noteq> 0)
        \<and> thread_kobjs env 0 (length (ks @ [k])) = map Some (ks @ [k]) \<and>
        es = map Acq (Threads_Array # map Kobj (ks @ [k])) @ Rel (Kobj k) #
          map Rel (map Kobj (ks @ [k]) @ [Threads_Array]))"
proof -
  from assms obtain ts fs where cr: "create_threads env 0 (replicate (unat n) ktc_zero) = (rc, ts, fs)" "rc \<noteq> 0"
    and es: "es = Acq Threads_Array # fs @ put_kobjs ts @ [Rel Threads_Array]"
    by (rule num_threads_store_failed)
  have "\<forall>t \<in> set (replicate (unat n) ktc_zero). ktc_kobj t = None"
    by (simp add: ktc_zero_def)
  from create_threads_failed [OF cr this] es show ?thesis
    by (auto simp: put_kobjs_eq)
qed

text \<open>C37: A failed write to \<open>num_threads\<close> wedges the module: \<open>num_threads\<close> stays set although the array is
  gone, so a second attempt is refused with \<open>-EEXIST\<close>, and unloading dereferences a null pointer.\<close>

theorem num_threads_failure_wedges:
  assumes "num_threads_admitted env buf c n"
    and "kio_num_threads_store env False buf len c = Inr (rc, c', es)" and "threads c' = None"
  shows "kio_num_threads_store env False buf' len' c' = Inr (- EEXIST, c', [])
    \<and> kio_config_exit kk c' = Inl Null_Deref"
proof -
  from assms have c': "c' = c\<lparr>num_threads := n, threads := None\<rparr>"
    by (rule num_threads_store_failed)
  have "n \<noteq> 0"
    using assms(1) by (auto simp: num_threads_admitted_def)
  then show ?thesis
    by (simp add: c' kio_num_threads_store_def kio_config_exit_def kio_config_destroy_all_threads_def
        config_threads_def)
qed

theorem num_threads_failure_wedges_witness:
  "kio_num_threads_store example_env False ''1'' 1 (kio_config_zero\<lparr>num_threads := 3\<rparr>)
     = Inr (- EEXIST, kio_config_zero\<lparr>num_threads := 3\<rparr>, [])
   \<and> kio_config_exit (Some 7) (kio_config_zero\<lparr>num_threads := 3\<rparr>) = Inl Null_Deref"
proof -
  have a: "num_threads_admitted example_env ''3'' kio_config_zero 3"
    by code_simp
  have s: "kio_num_threads_store example_env False ''3'' 1 kio_config_zero
    = Inr (- ENOMEM, kio_config_zero\<lparr>num_threads := 3\<rparr>,
        [Acq Threads_Array, Acq (Kobj 10), Acq (Kobj 11), Rel (Kobj 10), Rel (Kobj 11), Rel Threads_Array])"
    by code_simp
  show ?thesis
    by (rule num_threads_failure_wedges [OF a s]) (simp add: kio_config_zero_def)
qed

text \<open>C38: When a sysfs file cannot be created, the object it was for is put twice: once by
  \<open>kio_config_create_thread\<close>, which leaves the pointer in place, and once more by
  \<open>kio_config_destroy_all_threads\<close>.\<close>

theorem sysfs_failure_double_put:
  assumes "num_threads_admitted env buf c n"
    and "kio_num_threads_store env False buf len c = Inr (rc, c', es)" and "threads c' = None"
    and "\<forall>i < unat n. kobject_create_and_add env (dec_nat i) \<noteq> None" and "kobjs_distinct env"
  shows "held_after [] es = None"
proof -
  have "None \<notin> set (thread_kobjs env 0 (unat n))"
    using assms(4) by (metis (no_types, lifting) atLeastLessThan_iff atLeast_upt add_0 image_iff
        list.set_map set_upt thread_kobjs_def)
  with num_threads_failure_trace [OF assms(1-3)] obtain ks k
    where ks: "thread_kobjs env 0 (length (ks @ [k])) = map Some (ks @ [k])"
      and es: "es = map Acq (Threads_Array # map Kobj (ks @ [k])) @ Rel (Kobj k) #
          map Rel (map Kobj (ks @ [k]) @ [Threads_Array])"
    by auto
  have "None \<notin> set (thread_kobjs env 0 (length (ks @ [k])))"
    by (simp only: ks) auto
  from thread_kobjs_distinct [OF assms(5) this] have "distinct (map Some (ks @ [k]))"
    by (simp only: ks)
  then have k: "Kobj k \<notin> set (rev (map Kobj ks) @ [Threads_Array])"
    by auto
  have "held_after (rev (map Kobj ks) @ [Threads_Array]) (map Rel (map Kobj (ks @ [k]) @ [Threads_Array])) = None"
    using k by (intro held_after_bad_release [where r = "Kobj k"]) auto
  moreover have "held_after [] es = held_after (rev (map Kobj ks) @ [Threads_Array])
      (map Rel (map Kobj (ks @ [k]) @ [Threads_Array]))"
    unfolding es held_after_append held_after_acquire by simp
  ultimately show ?thesis
    by simp
qed

theorem sysfs_failure_double_put_witness:
  "held_after [] [Acq Threads_Array, Acq (Kobj 10), Rel (Kobj 10), Rel (Kobj 10), Rel Threads_Array] = None"
proof -
  let ?env = "example_env\<lparr>sysfs_create_file := (\<lambda>k f. - 12)\<rparr>"
  have a: "num_threads_admitted ?env ''1'' kio_config_zero 1"
    by code_simp
  have s: "kio_num_threads_store ?env False ''1'' 1 kio_config_zero
    = Inr (- ENOMEM, kio_config_zero\<lparr>num_threads := 1\<rparr>,
        [Acq Threads_Array, Acq (Kobj 10), Rel (Kobj 10), Rel (Kobj 10), Rel Threads_Array])"
    by code_simp
  have "kobject_create_and_add ?env (dec_nat 0) = Some 10"
    by code_simp
  then have k: "\<forall>i < unat (1 :: s32). kobject_create_and_add ?env (dec_nat i) \<noteq> None"
    by simp
  have d: "kobjs_distinct ?env"
    using example_kobjs_distinct by (simp add: kobjs_distinct_def)
  show ?thesis
    using sysfs_failure_double_put [OF a s _ k d] by (simp add: kio_config_zero_def)
qed

end
