(* ===== verification/Kio_Thread_Props.thy ===== *)
theory Kio_Thread_Props
  imports Kio_Thread Kio_Handlers
begin

text \<open>
  What the workload generator produces.  Offsets: the contract of an offset source (a locale,
  interpreted on \<open>kio_thread_next_offset\<close> for validated configurations) gives that every offset of a
  run is accepted by the device; the sequential position has a closed form.  Directions: the length and
  purity of bursts, and the pure workloads.
\<close>

section \<open>Arithmetic of the position\<close>

lemma sint_add_nonneg_cases:
  fixes a b :: s64
  assumes "0 \<le> sint a" and "0 \<le> sint b"
  shows "sint (a + b) = sint a + sint b \<or> sint (a + b) = sint a + sint b - 2 ^ 64 \<and> sint (a + b) < 0"
proof (cases "sint a + sint b < 2 ^ 63")
  case True
  with assms show ?thesis
    by (simp add: sint_add_bounded)
next
  case False
  have lt: "sint a < 2 ^ 63" "sint b < 2 ^ 63"
    using sint_lt [of a] sint_lt [of b] by simp_all
  have "sint (a + b) = signed_take_bit 63 (sint a + sint b)"
    by (simp add: sint_word_add)
  also have "\<dots> = signed_take_bit 63 (sint a + sint b - 2 ^ 64)"
    by (simp add: signed_take_bit_eq_iff_take_bit_eq take_bit_eq_mod)
  also have "\<dots> = sint a + sint b - 2 ^ 64"
    using False lt by (intro signed_take_bit_int_eq_self) auto
  finally show ?thesis
    using lt by simp
qed

lemma sint_scast32 [simp]: "sint (scast (w :: s32) :: s64) = sint w"
proof -
  have "- (2 ^ 63) \<le> sint w" and "sint w < 2 ^ 63"
    using sint_ge [of w] sint_lt [of w] by simp_all
  then show ?thesis
    by (simp add: signed_scast_eq signed_take_bit_int_eq_self)
qed

lemma thread_validD:
  assumes "thread_valid ds t"
  shows "512 \<le> uint (ktc_block_size t)" "uint (ktc_block_size t) \<le> 1048576"
    "512 \<le> sint (ktc_offset_stride t)" "sint (ktc_offset_stride t) \<le> 1048576"
    "1 \<le> uint (ktc_queue_depth t)" "uint (ktc_queue_depth t) \<le> 1024"
    "0 \<le> sint (ktc_offset_low t)" "sint (ktc_offset_low t) < sint (ktc_offset_high t)"
    "sint (ktc_offset_high t) + uint (ktc_block_size t) \<le> uint ds"
    "sint (ktc_offset_high t) < 2 ^ 63"
  using assms sint_lt [of "ktc_offset_high t"] by (simp_all add: thread_valid_def)

text \<open>One advance, for a configuration that was validated: either back to the low end of the window,
  or one stride further with the whole block below the high end.\<close>

lemma advance_offset_cases:
  assumes "thread_valid ds t" and "0 \<le> sint off"
  shows "advance_offset t off = ktc_offset_low t
    \<or> (sint (advance_offset t off) = sint off + sint (ktc_offset_stride t)
       \<and> sint (advance_offset t off) + uint (ktc_block_size t) \<le> sint (ktc_offset_high t)
       \<and> sint (ktc_offset_low t) \<le> sint (advance_offset t off) + uint (ktc_block_size t))"
proof -
  note v = thread_validD [OF assms(1)]
  let ?next = "off + scast (ktc_offset_stride t)"
  let ?r_end = "?next + ucast (ktc_block_size t)"
  have "advance_offset t off = (if sint ?r_end > sint (ktc_offset_high t) \<or> sint ?r_end < sint (ktc_offset_low t)
      then ktc_offset_low t else ?next)"
    using v by (simp add: advance_offset_def Let_def)
  then consider (wrapped) "advance_offset t off = ktc_offset_low t"
    | (forward) "advance_offset t off = ?next" "sint (ktc_offset_low t) \<le> sint ?r_end" "sint ?r_end \<le> sint (ktc_offset_high t)"
    by (metis linorder_not_less)
  then show ?thesis
  proof cases
    case forward
    have e0: "0 \<le> sint ?r_end"
      using forward(2) v by linarith
    have next0: "sint ?next = sint off + sint (ktc_offset_stride t)"
    proof (rule ccontr)
      assume "sint ?next \<noteq> sint off + sint (ktc_offset_stride t)"
      with sint_add_nonneg_cases [of off "scast (ktc_offset_stride t)"] assms(2) v
      have w: "sint ?next = sint off + sint (ktc_offset_stride t) - 2 ^ 64"
        by auto
      have "sint off < 2 ^ 63"
        using sint_lt [of off] by simp
      with w v have "sint ?next < - (2 ^ 62)"
        by simp
      then have "sint ?r_end = sint ?next + uint (ktc_block_size t)"
        using v sint_ge [of ?next] by (subst sint_add_bounded) auto
      with \<open>sint ?next < - (2 ^ 62)\<close> v e0 show False
        by simp
    qed
    with assms(2) v have "0 \<le> sint ?next"
      by simp
    then have "sint ?r_end = sint ?next + uint (ktc_block_size t)"
      using sint_add_nonneg_cases [of ?next "ucast (ktc_block_size t)"] e0 by auto
    with forward next0 show ?thesis
      by simp
  qed simp
qed

section \<open>Offset sources\<close>

text \<open>
  A source of offsets: \<open>gen\<close> makes the next one from a random input, \<open>ok\<close> is what the state keeps, and
  \<open>admissible\<close> what its offsets promise.
\<close>

locale offset_source =
  fixes gen :: "'r \<Rightarrow> 's \<Rightarrow> 'o \<times> 's"
    and ok :: "'s \<Rightarrow> bool"
    and admissible :: "'s \<Rightarrow> 'o \<Rightarrow> bool"
  assumes gen_ok: "ok s \<Longrightarrow> ok (snd (gen r s))"
    and gen_admissible: "ok s \<Longrightarrow> admissible s (fst (gen r s))"
    and admissible_gen: "admissible (snd (gen r s)) x = admissible s x"
begin

primrec offsets :: "'r list \<Rightarrow> 's \<Rightarrow> 'o list" where
  "offsets [] s = []"
| "offsets (r # rs) s = fst (gen r s) # offsets rs (snd (gen r s))"

lemma offsets_admissible: "ok s \<Longrightarrow> x \<in> set (offsets rs s) \<Longrightarrow> admissible s x"
proof (induction rs arbitrary: s)
  case (Cons r rs)
  from Cons.prems consider "x = fst (gen r s)" | "x \<in> set (offsets rs (snd (gen r s)))"
    by auto
  then show ?case
    using Cons.IH [OF gen_ok [OF Cons.prems(1)]] Cons.prems(1)
    by cases (simp_all add: gen_admissible admissible_gen)
qed simp

end

text \<open>The state of a thread's generator: the device, the configuration and the thread.\<close>

type_synonym gen_state = "kio_io \<times> kio_thread_config \<times> kio_thread"

definition next_offset_of :: "u32 \<times> u32 \<Rightarrow> gen_state \<Rightarrow> s64 \<times> gen_state" where
  "next_offset_of r s =
     (let (io, ktc, th) = s; (off, th') = kio_thread_next_offset io ktc (fst r) (snd r) th in (off, io, ktc, th'))"

text \<open>
  The configuration is valid for the device, the device has a block size, and one block fits at the
  thread's position.
\<close>

definition gen_ok :: "gen_state \<Rightarrow> bool" where
  "gen_ok s \<longleftrightarrow>
     (let (io, ktc, th) = s in
      thread_valid (dev_byte_size io) ktc \<and> dev_block_size io \<noteq> 0
      \<and> 0 \<le> sint (th_next_offset th)
      \<and> sint (th_next_offset th) + uint (ktc_block_size ktc) \<le> uint (dev_byte_size io))"

definition offset_admissible :: "gen_state \<Rightarrow> s64 \<Rightarrow> bool" where
  "offset_admissible s off \<longleftrightarrow>
     (let (io, ktc, th) = s in
      0 \<le> sint off \<and> kio_io_offset_is_valid io off (ucast (ktc_block_size ktc)) = Inr True)"

lemma uint_random_mod:
  assumes "0 < sint (rg :: s64)"
  shows "0 \<le> sint (rnd mod rg)" "sint (rnd mod rg) < sint rg"
proof -
  have "uint (rnd mod rg) = uint rnd mod sint rg"
    using assms by (simp add: uint_mod_distrib uint_of_sint_nonneg)
  moreover have "uint rnd mod sint rg < sint rg" and "0 \<le> uint rnd mod sint rg"
    using assms by simp_all
  moreover have "sint rg < 2 ^ 63"
    using sint_lt [of rg] by simp
  ultimately have "sint (rnd mod rg) = uint rnd mod sint rg"
    by (simp add: sint_of_uint_small)
  then show "0 \<le> sint (rnd mod rg)" "sint (rnd mod rg) < sint rg"
    using assms by simp_all
qed

lemma range_eq:
  assumes "thread_valid ds t"
  shows "sint (ktc_offset_high t - ktc_offset_low t) = sint (ktc_offset_high t) - sint (ktc_offset_low t)"
  using thread_validD [OF assms] by (intro sint_diff_bounded) auto

text \<open>The random branch: inside the window.\<close>

lemma random_offset_bounds:
  fixes rnd :: u64
  assumes "thread_valid ds t"
  defines "off \<equiv> ktc_offset_low t + rnd mod (ktc_offset_high t - ktc_offset_low t)"
  shows "sint (ktc_offset_low t) \<le> sint off" "sint off < sint (ktc_offset_high t)"
proof -
  note v = thread_validD [OF assms(1)]
  have "0 < sint (ktc_offset_high t - ktc_offset_low t)"
    using v by (simp add: range_eq [OF assms(1)])
  note m = uint_random_mod [OF this, of rnd, unfolded range_eq [OF assms(1)]]
  then have "sint off = sint (ktc_offset_low t) + sint (rnd mod (ktc_offset_high t - ktc_offset_low t))"
    unfolding off_def using v by (intro sint_add_bounded) auto
  with m show "sint (ktc_offset_low t) \<le> sint off" "sint off < sint (ktc_offset_high t)"
    by simp_all
qed

text \<open>The two branches of \<open>kio_thread_next_offset\<close> for a validated configuration.\<close>

lemma next_offset_valid_eq:
  assumes "thread_valid ds t" and "dev_block_size io \<noteq> 0"
  shows "kio_thread_next_offset io t lo hi th =
    (if ktc_offset_random t \<noteq> 0
     then (s64_round_down (ktc_offset_low t + random_u64 lo hi mod (ktc_offset_high t - ktc_offset_low t))
             (dev_block_size io), th)
     else (s64_round_down (th_next_offset th) (dev_block_size io),
           th\<lparr>th_next_offset := advance_offset t (th_next_offset th)\<rparr>))"
proof -
  have "ktc_offset_high t - ktc_offset_low t \<noteq> 0"
    using thread_validD [OF assms(1)] by auto
  with assms(2) show ?thesis
    by (simp add: kio_thread_next_offset_def kio_io_dev_block_size_def Let_def)
qed

lemma rounded_admissible:
  assumes "0 \<le> sint off" and "sint off + uint (ktc_block_size t) \<le> uint (dev_byte_size io)"
    and "dev_block_size io \<noteq> 0"
  shows "offset_admissible (io, t, th) (s64_round_down off (dev_block_size io))"
proof -
  have pos: "0 < uint (dev_block_size io)"
    using assms(3) by (simp add: word_neq_0_conv word_less_def)
  note r = s64_round_down_bounds [OF assms(1) pos]
  have "uint (dev_byte_size io) < 2 ^ 64"
    using uint_lt2p [of "dev_byte_size io"] by simp
  then have "sint (s64_round_down off (dev_block_size io)) + uint (ucast (ktc_block_size t) :: u64) < 2 ^ 64"
    using r assms(2) by simp
  from offset_is_valid_iff [OF r(1) this assms(3)] r assms(2) show ?thesis
    by (simp add: offset_admissible_def)
qed

lemma next_offset_of_simp:
  "next_offset_of r (io, t, th)
   = (let (off, th') = kio_thread_next_offset io t (fst r) (snd r) th in (off, io, t, th'))"
  by (simp add: next_offset_of_def)

lemma next_offset_gen_ok: "gen_ok s \<Longrightarrow> gen_ok (snd (next_offset_of r s))"
proof -
  obtain io t th where s: "s = (io, t, th)"
    by (metis prod_cases3)
  assume "gen_ok s"
  then have v: "thread_valid (dev_byte_size io) t" and b: "dev_block_size io \<noteq> 0"
    and p: "0 \<le> sint (th_next_offset th)"
      "sint (th_next_offset th) + uint (ktc_block_size t) \<le> uint (dev_byte_size io)"
    by (simp_all add: gen_ok_def s)
  have "0 \<le> sint (advance_offset t (th_next_offset th))
      \<and> sint (advance_offset t (th_next_offset th)) + uint (ktc_block_size t) \<le> uint (dev_byte_size io)"
    using advance_offset_cases [OF v p(1)] thread_validD [OF v] p(1) by auto
  with v b p show ?thesis
    by (simp add: s gen_ok_def next_offset_of_simp next_offset_valid_eq Let_def split: prod.split)
qed

lemma next_offset_gen_admissible: "gen_ok s \<Longrightarrow> offset_admissible s (fst (next_offset_of r s))"
proof -
  obtain io t th where s: "s = (io, t, th)"
    by (metis prod_cases3)
  assume "gen_ok s"
  then have v: "thread_valid (dev_byte_size io) t" and b: "dev_block_size io \<noteq> 0"
    and p: "0 \<le> sint (th_next_offset th)"
      "sint (th_next_offset th) + uint (ktc_block_size t) \<le> uint (dev_byte_size io)"
    by (simp_all add: gen_ok_def s)
  have "offset_admissible s (s64_round_down
      (ktc_offset_low t + random_u64 (fst r) (snd r) mod (ktc_offset_high t - ktc_offset_low t)) (dev_block_size io))"
    unfolding s using random_offset_bounds [OF v, of "random_u64 (fst r) (snd r)"] thread_validD [OF v] b
    by (intro rounded_admissible) linarith+
  moreover have "offset_admissible s (s64_round_down (th_next_offset th) (dev_block_size io))"
    unfolding s using p b by (intro rounded_admissible)
  ultimately show ?thesis
    using v b by (simp add: s next_offset_of_simp next_offset_valid_eq)
qed

interpretation thread_offsets: offset_source next_offset_of gen_ok offset_admissible
proof
  fix s r x
  show "gen_ok s \<Longrightarrow> gen_ok (snd (next_offset_of r s))"
    by (rule next_offset_gen_ok)
  show "gen_ok s \<Longrightarrow> offset_admissible s (fst (next_offset_of r s))"
    by (rule next_offset_gen_admissible)
  show "offset_admissible (snd (next_offset_of r s)) x = offset_admissible s x"
    by (cases s) (auto simp: offset_admissible_def next_offset_of_simp split: prod.split)
qed

section \<open>The sequential position\<close>

lemma advance_offset_eq:
  assumes "thread_valid ds t" and "sint (ktc_offset_low t) \<le> sint off"
  shows "sint (advance_offset t off) =
    (if sint off + sint (ktc_offset_stride t) + uint (ktc_block_size t) > sint (ktc_offset_high t)
     then sint (ktc_offset_low t) else sint off + sint (ktc_offset_stride t))"
proof (cases "sint off + sint (ktc_offset_stride t) + uint (ktc_block_size t) > sint (ktc_offset_high t)")
  case True
  have "0 \<le> sint off"
    using assms thread_validD [OF assms(1)] by linarith
  with True show ?thesis
    using advance_offset_cases [OF assms(1), of off] by auto
next
  case False
  note v = thread_validD [OF assms(1)]
  let ?next = "off + scast (ktc_offset_stride t)"
  have n: "sint ?next = sint off + sint (ktc_offset_stride t)"
    using False v assms(2) by (subst sint_add_bounded) auto
  have "sint (?next + ucast (ktc_block_size t)) = sint ?next + uint (ktc_block_size t)"
    using False v assms(2) n by (subst sint_add_bounded) auto
  with False n v assms(2) show ?thesis
    by (simp add: advance_offset_def Let_def)
qed

text \<open>
  The abstract cursor: the number of positions that fit into the window, and the position of the \<open>k\<close>-th
  request after one at the low end.
\<close>

definition seq_slots :: "kio_thread_config \<Rightarrow> nat" where
  "seq_slots t =
     Suc (nat ((sint (ktc_offset_high t) - uint (ktc_block_size t) - sint (ktc_offset_low t))
               div sint (ktc_offset_stride t)))"

definition seq_position :: "kio_thread_config \<Rightarrow> nat \<Rightarrow> int" where
  "seq_position t k = sint (ktc_offset_low t) + int (k mod seq_slots t) * sint (ktc_offset_stride t)"

lemma seq_position_Suc:
  assumes "thread_valid ds t"
  shows "seq_position t (Suc k) =
    (if seq_position t k + sint (ktc_offset_stride t) + uint (ktc_block_size t) > sint (ktc_offset_high t)
     then sint (ktc_offset_low t) else seq_position t k + sint (ktc_offset_stride t))"
proof -
  note v = thread_validD [OF assms]
  let ?s = "sint (ktc_offset_stride t)"
  let ?w = "sint (ktc_offset_high t) - uint (ktc_block_size t) - sint (ktc_offset_low t)"
  let ?j = "k mod seq_slots t"
  have lt: "?j < seq_slots t"
    by (simp add: seq_slots_def)
  have "Suc i \<noteq> Suc (nat q) \<longleftrightarrow> int (Suc i) \<le> q" if "i < Suc (nat q)" for i q
    using that by arith
  then have "Suc ?j \<noteq> seq_slots t \<longleftrightarrow> int (Suc ?j) \<le> ?w div ?s"
    using lt unfolding seq_slots_def by blast
  also have "\<dots> \<longleftrightarrow> int (Suc ?j) * ?s \<le> ?w"
    using v by (intro le_div_int_iff) linarith
  also have "\<dots> \<longleftrightarrow> \<not> seq_position t k + ?s + uint (ktc_block_size t) > sint (ktc_offset_high t)"
    by (auto simp: seq_position_def algebra_simps)
  finally show ?thesis
    by (auto simp: seq_position_def mod_Suc algebra_simps)
qed

lemma seq_position_low: "thread_valid ds t \<Longrightarrow> sint (ktc_offset_low t) \<le> seq_position t k"
  using thread_validD [of ds t] by (simp add: seq_position_def)

lemma offsets_seq:
  assumes "thread_valid (dev_byte_size io) t" and "dev_block_size io \<noteq> 0" and "ktc_offset_random t = 0"
    and "sint (th_next_offset th) = seq_position t j" and "k < length rs"
  shows "sint (thread_offsets.offsets rs (io, t, th) ! k)
    = seq_position t (j + k) - seq_position t (j + k) mod uint (dev_block_size io)"
  using assms(4,5)
proof (induction rs arbitrary: th j k)
  case Nil
  then show ?case by simp
next
  case (Cons r rs)
  have low: "sint (ktc_offset_low t) \<le> sint (th_next_offset th)"
    using seq_position_low [OF assms(1)] Cons.prems(1) by simp
  then have nn: "0 \<le> sint (th_next_offset th)"
    using thread_validD [OF assms(1)] by linarith
  let ?th = "th\<lparr>th_next_offset := advance_offset t (th_next_offset th)\<rparr>"
  have gen: "next_offset_of r (io, t, th) = (s64_round_down (th_next_offset th) (dev_block_size io), io, t, ?th)"
    using assms(2,3) by (simp add: next_offset_of_simp next_offset_valid_eq [OF assms(1)])
  have adv: "sint (th_next_offset ?th) = seq_position t (Suc j)"
    using advance_offset_eq [OF assms(1) low] seq_position_Suc [OF assms(1)] Cons.prems(1) by simp
  show ?case
  proof (cases k)
    case 0
    have "0 < uint (dev_block_size io)"
      using assms(2) by (simp add: word_neq_0_conv word_less_def)
    with nn Cons.prems(1) 0 show ?thesis
      by (simp add: gen sint_s64_round_down)
  next
    case (Suc i)
    with Cons.IH [OF adv, of i] Cons.prems(2) show ?thesis
      by (simp add: gen)
  qed
qed

section \<open>Properties of the offsets\<close>

text \<open>The offsets of a series of calls, each with the two random numbers it draws.\<close>

fun run_offsets :: "kio_io \<Rightarrow> kio_thread_config \<Rightarrow> (u32 \<times> u32) list \<Rightarrow> kio_thread \<Rightarrow> s64 list" where
  "run_offsets io t [] th = []"
| "run_offsets io t (r # rs) th =
     (let (off, th') = kio_thread_next_offset io t (fst r) (snd r) th in off # run_offsets io t rs th')"

lemma run_offsets_eq: "run_offsets io t rs th = thread_offsets.offsets rs (io, t, th)"
  by (induction rs arbitrary: th) (auto simp: next_offset_of_simp split: prod.split)

definition example_valid_thread :: kio_thread_config where
  "example_valid_thread = example_thread\<lparr>ktc_offset_low := 1048576, ktc_offset_high := 1073737728\<rparr>"

lemma example_thread_valid: "thread_valid (dev_byte_size example_io) example_valid_thread"
  by code_simp

lemma example_block_size: "dev_block_size example_io \<noteq> 0"
  by (simp add: example_io_def)

text \<open>C4: Every offset that a thread with a validated configuration generates, from its start and whatever
  the random numbers, is not negative and is accepted by \<open>kio_io_offset_is_valid\<close> for a request of the
  configured block size.\<close>

theorem validated_offsets_accepted:
  assumes "thread_valid (dev_byte_size io) t" and "dev_block_size io \<noteq> 0" and "th_next_offset th = 0"
  shows "\<forall>off \<in> set (run_offsets io t rs th).
    0 \<le> sint off \<and> kio_io_offset_is_valid io off (ucast (ktc_block_size t)) = Inr True"
proof
  fix off
  assume "off \<in> set (run_offsets io t rs th)"
  then have "off \<in> set (thread_offsets.offsets rs (io, t, th))"
    by (simp add: run_offsets_eq)
  moreover have "gen_ok (io, t, th)"
    using assms thread_validD [OF assms(1)] by (simp add: gen_ok_def)
  ultimately have "offset_admissible (io, t, th) off"
    by (rule thread_offsets.offsets_admissible [rotated])
  then show "0 \<le> sint off \<and> kio_io_offset_is_valid io off (ucast (ktc_block_size t)) = Inr True"
    by (simp add: offset_admissible_def)
qed

theorem validated_offsets_accepted_witness:
  "kio_io_offset_is_valid example_io 1048576 (ucast (ktc_block_size example_valid_thread)) = Inr True"
proof -
  have "th_next_offset kio_thread_zero = 0"
    by (simp add: kio_thread_zero_def)
  from validated_offsets_accepted [OF example_thread_valid example_block_size this, of "[(0, 0), (0, 0)]"]
  have "\<forall>off \<in> set (run_offsets example_io example_valid_thread [(0, 0), (0, 0)] kio_thread_zero).
      kio_io_offset_is_valid example_io off (ucast (ktc_block_size example_valid_thread)) = Inr True"
    by blast
  moreover have "1048576 \<in> set (run_offsets example_io example_valid_thread [(0, 0), (0, 0)] kio_thread_zero)"
    by code_simp
  ultimately show ?thesis
    by blast
qed

text \<open>C12: In sequential mode the offsets have a closed form.  From the low end of the window the \<open>k\<close>-th
  request is at \<open>low + (k mod n) * stride\<close>, where \<open>n\<close> is the number of strides after which a whole
  block still fits below the high end, rounded down to the device's block size.\<close>

theorem sequential_offsets_closed_form:
  assumes "thread_valid (dev_byte_size io) t" and "dev_block_size io \<noteq> 0" and "ktc_offset_random t = 0"
    and "th_next_offset th = ktc_offset_low t" and "k < length rs"
  shows "sint (run_offsets io t rs th ! k)
    = seq_position t k - seq_position t k mod uint (dev_block_size io)"
proof -
  have "sint (th_next_offset th) = seq_position t 0"
    using assms(4) by (simp add: seq_position_def)
  from offsets_seq [OF assms(1-3) this assms(5)] show ?thesis
    by (simp add: run_offsets_eq)
qed

theorem sequential_offsets_closed_form_witness:
  "sint (run_offsets example_io example_valid_thread [(0, 0), (0, 0), (0, 0)]
      (kio_thread_zero\<lparr>th_next_offset := 1048576\<rparr>) ! 2) = 1056768"
proof -
  have r: "ktc_offset_random example_valid_thread = 0"
    by code_simp
  have n: "th_next_offset (kio_thread_zero\<lparr>th_next_offset := 1048576\<rparr>) = ktc_offset_low example_valid_thread"
    by (simp add: example_valid_thread_def)
  have "2 < length [(0 :: u32, 0 :: u32), (0, 0), (0, 0)]"
    by simp
  note sequential_offsets_closed_form [OF example_thread_valid example_block_size r n this]
  moreover have "seq_position example_valid_thread 2 = 1056768"
    by (simp add: seq_position_def seq_slots_def example_valid_thread_def example_thread_def)
  moreover have "uint (dev_block_size example_io) = 512"
    by (simp add: example_io_def)
  ultimately show ?thesis
    by simp
qed

text \<open>In random mode a request starts less than one device block below a point of the window
  \<open>[offset_low, offset_high)\<close>, on a multiple of the device's block size; the position of the sequential
  cursor is not touched.\<close>

lemma random_offset_in_window:
  assumes "thread_valid (dev_byte_size io) t" and "dev_block_size io \<noteq> 0" and "ktc_offset_random t \<noteq> 0"
  shows "\<exists>off. kio_thread_next_offset io t lo hi th = (off, th)
    \<and> sint (ktc_offset_low t) - uint (dev_block_size io) < sint off \<and> sint off < sint (ktc_offset_high t)
    \<and> uint (dev_block_size io) dvd sint off"
proof -
  let ?p = "ktc_offset_low t + random_u64 lo hi mod (ktc_offset_high t - ktc_offset_low t)"
  have b: "sint (ktc_offset_low t) \<le> sint ?p" "sint ?p < sint (ktc_offset_high t)"
    using assms(1) by (rule random_offset_bounds)+
  have "0 \<le> sint ?p"
    using b thread_validD [OF assms(1)] by linarith
  moreover have "0 < uint (dev_block_size io)"
    using assms(2) by (simp add: word_neq_0_conv word_less_def)
  ultimately have "sint ?p - uint (dev_block_size io) < sint (s64_round_down ?p (dev_block_size io))"
    "sint (s64_round_down ?p (dev_block_size io)) \<le> sint ?p"
    "uint (dev_block_size io) dvd sint (s64_round_down ?p (dev_block_size io))"
    using s64_round_down_bounds by blast+
  with b assms show ?thesis
    by (auto simp: next_offset_valid_eq)
qed

text \<open>C40: The first sequential request of a fresh thread ignores the window: the position starts at zero,
  so whenever \<open>offset_low\<close> is positive the first request lies below it.\<close>

theorem first_sequential_offset_is_zero:
  assumes "thread_valid (dev_byte_size io) t" and "dev_block_size io \<noteq> 0" and "ktc_offset_random t = 0"
    and "0 < sint (ktc_offset_low t)"
  shows "fst (kio_thread_next_offset io t lo hi kio_thread_zero) = 0
    \<and> sint (fst (kio_thread_next_offset io t lo hi kio_thread_zero)) < sint (ktc_offset_low t)"
  using assms
  by (simp add: next_offset_valid_eq kio_thread_zero_def s64_round_down_def s64_div_def)

theorem first_sequential_offset_is_zero_witness:
  "fst (kio_thread_next_offset example_io example_valid_thread 0 0 kio_thread_zero) = 0"
proof -
  have "ktc_offset_random example_valid_thread = 0" "0 < sint (ktc_offset_low example_valid_thread)"
    by code_simp+
  from first_sequential_offset_is_zero [OF example_thread_valid example_block_size this] show ?thesis
    by blast
qed

end
