(* ===== verification/Kio_Direction.thy ===== *)
theory Kio_Direction
  imports Kio_Thread_Props
begin

text \<open>
  The directions that \<open>kio_thread_next_dir\<close> hands out over a run, and the delays that follow.  The
  reference description cuts the run into bursts: one random number decides the direction of a whole
  burst.  The thread's two countdowns implement it.
\<close>

section \<open>Runs\<close>

fun run_dirs :: "kio_thread_config \<Rightarrow> u32 list \<Rightarrow> kio_thread \<Rightarrow> dir list" where
  "run_dirs t [] th = []"
| "run_dirs t (r # rs) th = (let (d, th') = kio_thread_next_dir t r th in d # run_dirs t rs th')"

definition dir_kind :: "dir \<Rightarrow> bool \<times> bool" where
  "dir_kind d = (dir_is_write d, dir_new_burst d)"

text \<open>The direction that a random number stands for, and the number of requests of a burst.\<close>

definition draws_write :: "kio_thread_config \<Rightarrow> u32 \<Rightarrow> bool" where
  "draws_write t r \<longleftrightarrow> \<not> uint r mod 100 < uint (ktc_read_mix_percent t)"

definition burst_extra :: "kio_thread_config \<Rightarrow> bool \<Rightarrow> nat" where
  "burst_extra t w = unat (if w then ktc_write_burst t else ktc_read_burst t) - 1"

text \<open>
  The reference: the random number at the head of the rest of the run decides the burst; the numbers that
  would have been drawn during the burst are skipped.
\<close>

fun burst_spec :: "kio_thread_config \<Rightarrow> u32 list \<Rightarrow> (bool \<times> bool) list" where
  "burst_spec t [] = []"
| "burst_spec t (r # rs) =
     (let w = draws_write t r
      in (w, True) # replicate (min (burst_extra t w) (length rs)) (w, False)
           @ burst_spec t (drop (burst_extra t w) rs))"

section \<open>One request\<close>

lemma uint_mod_100: "uint ((r :: u32) mod 100) = uint r mod 100"
  by (simp add: uint_mod)

lemma unat_burst_countdown: "unat (if (b :: u32) \<noteq> 0 then b - 1 else 0) = unat b - 1"
  by (simp add: unat_minus_one)

lemma next_dir_draw:
  assumes "th_read_burst th = 0" and "th_write_burst th = 0"
    and "1 \<le> ktc_read_mix_percent t" and "ktc_read_mix_percent t < 100"
  obtains th' where "kio_thread_next_dir t r th =
      (\<lparr>dir_is_write = draws_write t r, dir_changed = (th_was_write th \<noteq> (if draws_write t r then 1 else 0)),
        dir_new_burst = True\<rparr>, th')"
    and "unat (th_read_burst th') = (if draws_write t r then 0 else burst_extra t False)"
    and "unat (th_write_burst th') = (if draws_write t r then burst_extra t True else 0)"
    and "th_was_write th' = (if draws_write t r then 1 else 0)"
proof -
  have "r mod 100 < ucast (ktc_read_mix_percent t) \<longleftrightarrow> \<not> draws_write t r"
    by (simp add: draws_write_def word_less_def uint_mod_100 uint_up_ucast is_up)
  moreover have "\<not> 100 \<le> ktc_read_mix_percent t" "\<not> ktc_read_mix_percent t < 1"
    using assms(3,4) by auto
  ultimately show ?thesis
    using assms that
    by (cases "draws_write t r")
       (auto simp: kio_thread_next_dir_def finish_dir_def Let_def burst_extra_def unat_burst_countdown unat_minus_one)
qed

lemma next_dir_read_burst:
  assumes "th_read_burst th \<noteq> 0"
  shows "kio_thread_next_dir t r th =
    (\<lparr>dir_is_write = False, dir_changed = (th_was_write th \<noteq> 0), dir_new_burst = False\<rparr>,
     th\<lparr>th_read_burst := th_read_burst th - 1, th_was_write := 0\<rparr>)"
  using assms by (simp add: kio_thread_next_dir_def finish_dir_def)

lemma next_dir_write_burst:
  assumes "th_read_burst th = 0" and "th_write_burst th \<noteq> 0"
  shows "kio_thread_next_dir t r th =
    (\<lparr>dir_is_write = True, dir_changed = (th_was_write th \<noteq> 1), dir_new_burst = False\<rparr>,
     th\<lparr>th_write_burst := th_write_burst th - 1, th_was_write := 1\<rparr>)"
  using assms by (simp add: kio_thread_next_dir_def finish_dir_def)

section \<open>Bursts\<close>

lemma unat_pred: "(b :: u32) \<noteq> 0 \<Longrightarrow> unat b = Suc (unat (b - 1))"
  by (simp add: unat_minus_one unat_gt_0)

lemma take_replicate_Cons:
  "replicate (min (Suc k) (Suc m)) x = x # replicate (min k m) x"
  by simp

text \<open>Outside a burst a random number decides the direction and how many requests of it follow.\<close>

lemma draw_burst:
  assumes "1 \<le> ktc_read_mix_percent t" and "ktc_read_mix_percent t < 100"
    and "th_read_burst th = 0" and "th_write_burst th = 0"
  obtains d th' where "kio_thread_next_dir t r th = (d, th')" "dir_kind d = (draws_write t r, True)"
    "th_read_burst th' = 0 \<or> th_write_burst th' = 0"
    "unat (th_read_burst th') + unat (th_write_burst th') = burst_extra t (draws_write t r)"
    "th_write_burst th' \<noteq> 0 \<longleftrightarrow> draws_write t r \<and> burst_extra t (draws_write t r) \<noteq> 0"
proof -
  from assms obtain th' where d: "kio_thread_next_dir t r th =
      (\<lparr>dir_is_write = draws_write t r, dir_changed = (th_was_write th \<noteq> (if draws_write t r then 1 else 0)),
        dir_new_burst = True\<rparr>, th')"
    and b: "unat (th_read_burst th') = (if draws_write t r then 0 else burst_extra t False)"
      "unat (th_write_burst th') = (if draws_write t r then burst_extra t True else 0)"
    using next_dir_draw by blast
  show ?thesis
  proof (rule that [OF d])
    show "th_read_burst th' = 0 \<or> th_write_burst th' = 0"
      using b by (auto simp: unat_eq_0 split: if_splits)
    show "th_write_burst th' \<noteq> 0 \<longleftrightarrow> draws_write t r \<and> burst_extra t (draws_write t r) \<noteq> 0"
      using b by (auto simp: unat_eq_0 [symmetric])
  qed (use b in \<open>simp_all add: dir_kind_def\<close>)
qed

text \<open>A run that starts inside a burst first finishes it.\<close>

lemma run_dirs_pending:
  assumes mixed: "1 \<le> ktc_read_mix_percent t" "ktc_read_mix_percent t < 100"
    and one: "th_read_burst th = 0 \<or> th_write_burst th = 0"
    and k: "k = unat (th_read_burst th) + unat (th_write_burst th)"
    and w: "w \<longleftrightarrow> th_write_burst th \<noteq> 0"
  shows "map dir_kind (run_dirs t rs th)
    = replicate (min k (length rs)) (w, False) @ burst_spec t (drop k rs)"
  using one k w
proof (induction rs arbitrary: th k w)
  case Nil
  then show ?case by simp
next
  case (Cons r rs)
  consider (reads) "th_read_burst th \<noteq> 0" "th_write_burst th = 0"
    | (writes) "th_read_burst th = 0" "th_write_burst th \<noteq> 0"
    | (draw) "th_read_burst th = 0" "th_write_burst th = 0"
    using Cons.prems(1) by blast
  then show ?case
  proof cases
    case reads
    let ?th = "th\<lparr>th_read_burst := th_read_burst th - 1, th_was_write := 0\<rparr>"
    have "k = Suc (unat (th_read_burst th - 1))" "\<not> w"
      using reads Cons.prems unat_pred by auto
    with Cons.IH [of ?th "unat (th_read_burst th - 1)" w] reads show ?thesis
      by (simp add: next_dir_read_burst dir_kind_def)
  next
    case writes
    let ?th = "th\<lparr>th_write_burst := th_write_burst th - 1, th_was_write := 1\<rparr>"
    have k: "k = Suc (unat (th_write_burst th - 1))" and w: "w"
      using writes Cons.prems unat_pred by auto
    show ?thesis
    proof (cases "th_write_burst th - 1 = 0")
      case True
      with Cons.IH [of ?th 0 False] writes k w show ?thesis
        by (simp add: next_dir_write_burst dir_kind_def)
    next
      case False
      with Cons.IH [of ?th "unat (th_write_burst th - 1)" True] writes k w show ?thesis
        by (simp add: next_dir_write_burst dir_kind_def)
    qed
  next
    case draw
    from mixed draw obtain d th' where d: "kio_thread_next_dir t r th = (d, th')" "dir_kind d = (draws_write t r, True)"
      and one': "th_read_burst th' = 0 \<or> th_write_burst th' = 0"
      and sum: "unat (th_read_burst th') + unat (th_write_burst th') = burst_extra t (draws_write t r)"
      and w': "th_write_burst th' \<noteq> 0 \<longleftrightarrow> draws_write t r \<and> burst_extra t (draws_write t r) \<noteq> 0"
      by (rule draw_burst)
    have "replicate (min m n) (draws_write t r \<and> m \<noteq> 0, False) = replicate (min m n) (draws_write t r, False)"
      for m n :: nat
      by (cases m) auto
    with Cons.IH [OF one' sum [symmetric] w' [symmetric]] draw Cons.prems d show ?thesis
      by (simp add: Let_def)
  qed
qed

lemma run_dirs_length [simp]: "length (run_dirs t rs th) = length rs"
  by (induction rs arbitrary: th) (auto split: prod.split)

lemma next_dir_was_write:
  "kio_thread_next_dir t r th = (d, th') \<Longrightarrow> th_was_write th' = (if dir_is_write d then 1 else 0)"
  by (auto simp: kio_thread_next_dir_def finish_dir_def Let_def split: if_splits)

lemma next_dir_changed:
  "kio_thread_next_dir t r th = (d, th')
   \<Longrightarrow> dir_changed d \<longleftrightarrow> th_was_write th \<noteq> (if dir_is_write d then 1 else 0)"
  by (auto simp: kio_thread_next_dir_def finish_dir_def Let_def split: if_splits)

text \<open>A pure workload: the same direction for ever, and no burst is ever begun.\<close>

lemma run_dirs_pure:
  assumes "th_read_burst th = 0" and "th_write_burst th = 0"
    and "if w then ktc_read_mix_percent t < 1 else 100 \<le> ktc_read_mix_percent t"
    and "d \<in> set (run_dirs t rs th)"
  shows "dir_is_write d = w \<and> \<not> dir_new_burst d"
  using assms(1,2,4)
proof (induction rs arbitrary: th)
  case Nil
  then show ?case by simp
next
  case (Cons r rs)
  have "kio_thread_next_dir t r th = finish_dir th w False"
    using Cons.prems assms(3) by (cases w) (auto simp: kio_thread_next_dir_def)
  then have "run_dirs t (r # rs) th = fst (finish_dir th w False) # run_dirs t rs (snd (finish_dir th w False))"
    by (simp add: case_prod_beta)
  then have "d = fst (finish_dir th w False) \<or> d \<in> set (run_dirs t rs (snd (finish_dir th w False)))"
    using Cons.prems(3) by simp
  then show ?case
    using Cons.IH [of "snd (finish_dir th w False)"] Cons.prems(1,2)
    by (auto simp: finish_dir_def)
qed

lemma run_dirs_changed:
  assumes "k < length rs"
  shows "dir_changed (run_dirs t rs th ! k) \<longleftrightarrow>
    (if k = 0 then th_was_write th \<noteq> (if dir_is_write (run_dirs t rs th ! 0) then 1 else 0)
     else dir_is_write (run_dirs t rs th ! (k - 1)) \<noteq> dir_is_write (run_dirs t rs th ! k))"
  using assms
proof (induction rs arbitrary: th k)
  case Nil
  then show ?case by simp
next
  case (Cons r rs)
  obtain d th' where d: "kio_thread_next_dir t r th = (d, th')"
    by fastforce
  show ?case
  proof (cases k)
    case 0
    with d next_dir_changed [OF d] show ?thesis
      by simp
  next
    case (Suc j)
    with Cons.IH [of j th'] Cons.prems d next_dir_was_write [OF d] show ?thesis
      by (cases j) auto
  qed
qed

section \<open>Properties of the directions\<close>

text \<open>C11: With a mixed workload the requests come in bursts.  From a state with no burst pending, one random
  number decides the direction of a whole burst of \<open>read_burst\<close> (or \<open>write_burst\<close>, at least one) requests;
  only the first of them counts as a new burst, whatever the numbers in between.\<close>

theorem directions_refine_bursts:
  assumes "th_read_burst th = 0" and "th_write_burst th = 0"
    and "1 \<le> ktc_read_mix_percent t" and "ktc_read_mix_percent t < 100"
  shows "map dir_kind (run_dirs t rs th) = burst_spec t rs"
  using run_dirs_pending [of t th 0 False rs] assms by simp

theorem directions_refine_bursts_witness:
  "map dir_kind (run_dirs (example_valid_thread\<lparr>ktc_read_mix_percent := 50, ktc_read_burst := 2\<rparr>)
      [10, 99, 99, 20] kio_thread_zero)
    = [(False, True), (False, False), (True, True), (False, True)]"
proof -
  let ?t = "example_valid_thread\<lparr>ktc_read_mix_percent := 50, ktc_read_burst := 2\<rparr>"
  have "th_read_burst kio_thread_zero = 0" "th_write_burst kio_thread_zero = 0"
    "1 \<le> ktc_read_mix_percent ?t" "ktc_read_mix_percent ?t < 100"
    by code_simp+
  from directions_refine_bursts [OF this, of "[10, 99, 99, 20]"]
  have "map dir_kind (run_dirs ?t [10, 99, 99, 20] kio_thread_zero) = burst_spec ?t [10, 99, 99, 20]" .
  also have "\<dots> = [(False, True), (False, False), (True, True), (False, True)]"
    by code_simp
  finally show ?thesis .
qed

text \<open>A workload of 100 percent (or 0 percent) reads issues reads (or writes) only and never begins a
  burst, so that \<open>burst_finish\<close> has no effect; after the first request the direction never changes, so that
  with \<open>burst_delay\<close> set no later request is followed by a delay.\<close>

lemma pure_workload_directions:
  assumes "th_read_burst th = 0" and "th_write_burst th = 0"
    and "if w then ktc_read_mix_percent t < 1 else 100 \<le> ktc_read_mix_percent t"
    and "k < length rs"
  shows "dir_is_write (run_dirs t rs th ! k) = w \<and> \<not> dir_new_burst (run_dirs t rs th ! k)
    \<and> (0 < k \<longrightarrow> \<not> dir_changed (run_dirs t rs th ! k)
         \<and> (ktc_burst_delay t \<noteq> 0 \<longrightarrow> kio_thread_delay jif t (run_dirs t rs th ! k) = No_Delay))"
proof -
  have d: "dir_is_write (run_dirs t rs th ! j) = w \<and> \<not> dir_new_burst (run_dirs t rs th ! j)"
    if "j < length rs" for j
    using run_dirs_pure [OF assms(1-3), of _ rs] that by simp
  have "\<not> dir_changed (run_dirs t rs th ! k)" if "0 < k"
    using run_dirs_changed [OF assms(4), of t th] d [of k] d [of "k - 1"] that assms(4) by simp
  with d [OF assms(4)] show ?thesis
    by (simp add: kio_thread_delay_def)
qed

text \<open>The delay after a request: when \<open>usecs_to_jiffies\<close> rounds up (a positive time is at least one
  jiffy), the busy-wait branch is never taken, and a request is followed by a sleep of its own direction's
  time exactly when that time is set and, with \<open>burst_delay\<close>, the direction has just changed.\<close>

lemma delay_spec:
  assumes "\<And>u. u \<noteq> 0 \<Longrightarrow> usecs_to_jiffies u \<noteq> 0"
  shows "kio_thread_delay usecs_to_jiffies t d =
    (let u = (if dir_is_write d then ktc_write_sleep_usec t else ktc_read_sleep_usec t)
     in if u = 0 \<or> ktc_burst_delay t \<noteq> 0 \<and> \<not> dir_changed d then No_Delay
        else Schedule_Timeout (usecs_to_jiffies u))"
  using assms by (auto simp: kio_thread_delay_def Let_def)

end
