(* ===== verification/Kio_Worker.thy ===== *)
theory Kio_Worker
  imports Kio_Direction
begin

text \<open>
  \<open>kio_thread_fn\<close> (\<open>driver/kio_run.c\<close>) as a step relation.  The thread advances one access to shared state
  at a time; between its steps the completion handlers of the requests in flight advance, each one statement
  at a time, the controller may ask the thread to stop, and a signal may arrive.  The thread shares with the
  handlers its counters and the wait queue: a thread that finds the condition of a wait false falls asleep, and
  takes no step until a handler, the stop request or a signal wakes it.
\<close>

section \<open>State\<close>

text \<open>The places of \<open>kio_thread_fn\<close>; \<open>Trapped\<close> is a fault inside \<open>kio_io_submit\<close>.\<close>

datatype pc =
  Fn_Start | Loop_Test | Depth_Test | Wait_Depth | Depth_Stop_Test | New_Page | Next_Request
| Wait_Burst | Burst_Stop_Test | Dispatch | Submit | Slat | Delay | Signal_Test
| Drain | Finish | Clear_Wqh | Report | Exited | Trapped fault

text \<open>How far the completion handler of a request has come; \<open>Queued\<close> is the device's part.\<close>

datatype stage = Queued | Lat_Added | Decremented | Counted | Woken | Page_Freed

text \<open>
  \<open>w_pages\<close> are the pages allocated and not freed, \<open>w_lost\<close> the pages of the requests whose submission
  failed, \<open>w_submitted\<close> the number of requests handed to the block layer.  The last two, like \<open>w_delay\<close>,
  only record what has happened.  \<open>w_asleep\<close> says that the thread sleeps in \<open>wait_event_interruptible\<close>.
\<close>

record worker =
  w_pc :: pc
  w_th :: kio_thread
  w_result :: int
  w_page :: "nat option"
  w_dir :: dir
  w_offset :: s64
  w_io_start :: s64
  w_thread_start :: s64
  w_delay :: delay
  w_should_stop :: bool
  w_signal :: bool
  w_asleep :: bool
  w_bios :: "(stage \<times> bio) list"
  w_pages :: "nat list"
  w_lost :: "nat list"
  w_submitted :: nat
  w_emergency_stop :: bool

definition worker_init :: "u32 \<Rightarrow> worker" where
  "worker_init i = \<lparr>w_pc = Fn_Start, w_th = kio_thread_zero\<lparr>th_index := i\<rparr>, w_result = 0, w_page = None,
     w_dir = \<lparr>dir_is_write = False, dir_changed = False, dir_new_burst = False\<rparr>, w_offset = 0,
     w_io_start = 0, w_thread_start = 0, w_delay = No_Delay, w_should_stop = False, w_signal = False,
     w_asleep = False, w_bios = [], w_pages = [], w_lost = [], w_submitted = 0, w_emergency_stop = False\<rparr>"

text \<open>What the kernel answers in one step of the thread.\<close>

record choice =
  c_ktime :: s64
  c_page :: "nat option"
  c_rnd_dir :: u32
  c_rnd_lo :: u32
  c_rnd_hi :: u32
  c_submit :: submit_env
  c_jiffies :: "u32 \<Rightarrow> u64"

section \<open>The thread\<close>

definition goto :: "pc \<Rightarrow> worker \<Rightarrow> worker" where
  "goto p w = w\<lparr>w_pc := p\<rparr>"

definition submitted_bios :: "bio_event list \<Rightarrow> bio list" where
  "submitted_bios evs = List.map_filter (\<lambda>e. case e of Bio_Submitted _ b \<Rightarrow> Some b | _ \<Rightarrow> None) evs"

text \<open>
  The submission: a negative result leaves the loop with the page still allocated and the request still
  counted as dispatched.
\<close>

definition submit_step :: "kio_io \<Rightarrow> choice \<Rightarrow> worker \<Rightarrow> worker" where
  "submit_step io c w =
     (case kio_io_submit (c_submit c) io (w_offset w) (w_page w) (dir_is_write (w_dir w)) (unat (th_index (w_th w))) of
        Inl f \<Rightarrow> goto (Trapped f) w
      | Inr (rc, evs) \<Rightarrow>
          (let w' = w\<lparr>w_result := rc, w_page := None\<rparr> in
           if rc < 0
           then goto Drain (w'\<lparr>w_lost := (case w_page w of None \<Rightarrow> [] | Some p \<Rightarrow> [p]) @ w_lost w\<rparr>)
           else goto Slat (w'\<lparr>w_bios := w_bios w @ map (Pair Queued) (submitted_bios evs),
                              w_submitted := w_submitted w + length (submitted_bios evs)\<rparr>)))"

text \<open>
  One round of \<open>wait_event_interruptible\<close>: the thread leaves the wait when the condition holds or a signal is
  pending, and sleeps otherwise.  It is on the wait queue before it evaluates the condition, so that no wake-up
  falls between the two.  The callers ignore the result.
\<close>

definition wait_event_interruptible :: "bool \<Rightarrow> pc \<Rightarrow> worker \<Rightarrow> worker" where
  "wait_event_interruptible condition p w =
     (if condition \<or> w_signal w then goto p w else w\<lparr>w_asleep := True\<rparr>)"

text \<open>One step of \<open>kio_thread_fn\<close>; \<open>None\<close> when the thread sleeps, or when the answer is not possible
  (\<open>alloc_pages_node\<close> does not return a page that is in use).  A kernel thread that is asked to stop before
  it has run exits without entering its function.\<close>

definition kio_thread_fn_step :: "kio_io \<Rightarrow> kio_thread_config \<Rightarrow> choice \<Rightarrow> worker \<Rightarrow> worker option" where
  "kio_thread_fn_step io ktc c w =
    (if w_asleep w then None else
     let th = w_th w in
     case w_pc w of
       Fn_Start \<Rightarrow>
         Some (if w_should_stop w then goto Exited w
               else goto Loop_Test
                 (w\<lparr>w_th := th\<lparr>th_bio_wqh := True, th_runtime := 0\<rparr>, w_thread_start := c_ktime c\<rparr>))
     | Loop_Test \<Rightarrow> Some (goto (if w_should_stop w then Drain else Depth_Test) w)
     | Depth_Test \<Rightarrow> Some (goto (if kio_thread_too_busy ktc th then Wait_Depth else New_Page) w)
     | Wait_Depth \<Rightarrow>
         Some (wait_event_interruptible (\<not> kio_thread_too_busy ktc th) Depth_Stop_Test w)
     | Depth_Stop_Test \<Rightarrow> Some (goto (if w_should_stop w then Drain else New_Page) w)
     | New_Page \<Rightarrow>
         (case c_page c of
            None \<Rightarrow> Some (goto Drain (w\<lparr>w_result := - ENOMEM\<rparr>))
          | Some p \<Rightarrow>
              if p \<in> set (w_pages w) then None
              else Some (goto Next_Request (w\<lparr>w_page := Some p, w_pages := p # w_pages w\<rparr>)))
     | Next_Request \<Rightarrow>
         (let (d, th1) = kio_thread_next_dir ktc (c_rnd_dir c) th;
              (off, th2) = kio_thread_next_offset io ktc (c_rnd_lo c) (c_rnd_hi c) th1
          in Some (goto (if ktc_burst_finish ktc \<noteq> 0 \<and> dir_new_burst d then Wait_Burst else Dispatch)
               (w\<lparr>w_th := th2, w_dir := d, w_offset := off, w_io_start := c_ktime c\<rparr>)))
     | Wait_Burst \<Rightarrow>
         Some (wait_event_interruptible (\<not> kio_thread_busy th) Burst_Stop_Test w)
     | Burst_Stop_Test \<Rightarrow>
         (if w_should_stop w
          then Some (goto Drain (w\<lparr>w_page := None,
                 w_pages := (case w_page w of None \<Rightarrow> w_pages w | Some p \<Rightarrow> remove1 p (w_pages w))\<rparr>))
          else Some (goto Dispatch w))
     | Dispatch \<Rightarrow> Some (goto Submit (w\<lparr>w_th := th\<lparr>th_dispatched := th_dispatched th + 1\<rparr>\<rparr>))
     | Submit \<Rightarrow> Some (submit_step io c w)
     | Slat \<Rightarrow> Some (goto Delay
         (w\<lparr>w_th := th\<lparr>th_slat_total := th_slat_total th + (c_ktime c - w_io_start w)\<rparr>\<rparr>))
     | Delay \<Rightarrow> Some (goto Signal_Test (w\<lparr>w_delay := kio_thread_delay (c_jiffies c) ktc (w_dir w)\<rparr>))
     | Signal_Test \<Rightarrow>
         Some (if w_signal w then goto Drain (w\<lparr>w_result := - EINTR\<rparr>) else goto Loop_Test w)
     | Drain \<Rightarrow> Some (wait_event_interruptible (th_dispatched th = 0) Finish w)
     | Finish \<Rightarrow> Some (goto Clear_Wqh
         (w\<lparr>w_th := th\<lparr>th_runtime := c_ktime c - w_thread_start w\<rparr>\<rparr>))
     | Clear_Wqh \<Rightarrow> Some (goto Report (w\<lparr>w_th := th\<lparr>th_bio_wqh := False\<rparr>\<rparr>))
     | Report \<Rightarrow> Some (goto Exited (if w_result w < 0 then w\<lparr>w_emergency_stop := True\<rparr> else w))
     | Exited \<Rightarrow> None
     | Trapped f \<Rightarrow> None)"

section \<open>The completion handlers\<close>

text \<open>A handler that finds the pointer to the wait queue set wakes the thread.\<close>

definition wake_up_interruptible :: "worker \<Rightarrow> worker" where
  "wake_up_interruptible w = w\<lparr>w_asleep := False\<rparr>"

fun completion_effect :: "s64 \<Rightarrow> stage \<Rightarrow> bio \<Rightarrow> worker \<Rightarrow> worker" where
  "completion_effect now Queued b w = w\<lparr>w_th := completion_clat now b (w_th w)\<rparr>"
| "completion_effect now Lat_Added b w = w\<lparr>w_th := completion_dec (w_th w)\<rparr>"
| "completion_effect now Decremented b w = w\<lparr>w_th := completion_inc (w_th w)\<rparr>"
| "completion_effect now Counted b w = (if th_bio_wqh (w_th w) then wake_up_interruptible w else w)"
| "completion_effect now Woken b w = w\<lparr>w_pages := remove1 (bi_page b) (w_pages w)\<rparr>"
| "completion_effect now Page_Freed b w = w"

fun next_stage :: "stage \<Rightarrow> stage option" where
  "next_stage Queued = Some Lat_Added"
| "next_stage Lat_Added = Some Decremented"
| "next_stage Decremented = Some Counted"
| "next_stage Counted = Some Woken"
| "next_stage Woken = Some Page_Freed"
| "next_stage Page_Freed = None"

definition next_bio :: "stage \<Rightarrow> bio \<Rightarrow> (stage \<times> bio) list" where
  "next_bio st b = (case next_stage st of None \<Rightarrow> [] | Some st' \<Rightarrow> [(st', b)])"

text \<open>Its statements, one after the other, are \<open>kio_bio_completion\<close>.\<close>

lemma completion_effects_compose:
  "w_th (completion_effect t3 Decremented b (completion_effect t2 Lat_Added b (completion_effect now Queued b w)))
    = kio_bio_completion now b (w_th w)"
  by (simp add: kio_bio_completion_def)

section \<open>The step relation\<close>

text \<open>The stop request and a signal wake the thread, too.\<close>

definition request_stop :: "worker \<Rightarrow> worker" where
  "request_stop w = w\<lparr>w_should_stop := True, w_asleep := False\<rparr>"

definition send_signal :: "worker \<Rightarrow> worker" where
  "send_signal w = w\<lparr>w_signal := True, w_asleep := False\<rparr>"

inductive worker_step :: "kio_io \<Rightarrow> kio_thread_config \<Rightarrow> worker \<Rightarrow> worker \<Rightarrow> bool"
  for io :: kio_io and ktc :: kio_thread_config where
  thread: "kio_thread_fn_step io ktc c w = Some w' \<Longrightarrow> worker_step io ktc w w'"
| complete: "w_bios w = xs @ (st, b) # ys
    \<Longrightarrow> worker_step io ktc w (completion_effect now st b (w\<lparr>w_bios := xs @ next_bio st b @ ys\<rparr>))"
| stop: "\<not> w_should_stop w \<Longrightarrow> worker_step io ktc w (request_stop w)"
| interrupt: "\<not> w_signal w \<Longrightarrow> worker_step io ktc w (send_signal w)"

text \<open>The same steps as an executable schedule.\<close>

datatype action = Act_Thread choice | Act_Complete nat s64 | Act_Stop | Act_Signal

definition worker_act :: "kio_io \<Rightarrow> kio_thread_config \<Rightarrow> action \<Rightarrow> worker \<Rightarrow> worker option" where
  "worker_act io ktc a w =
     (case a of
        Act_Thread c \<Rightarrow> kio_thread_fn_step io ktc c w
      | Act_Complete i now \<Rightarrow>
          (if i < length (w_bios w)
           then (let (st, b) = w_bios w ! i in
                 Some (completion_effect now st b
                   (w\<lparr>w_bios := take i (w_bios w) @ next_bio st b @ drop (Suc i) (w_bios w)\<rparr>)))
           else None)
      | Act_Stop \<Rightarrow> (if w_should_stop w then None else Some (request_stop w))
      | Act_Signal \<Rightarrow> (if w_signal w then None else Some (send_signal w)))"

fun worker_run :: "kio_io \<Rightarrow> kio_thread_config \<Rightarrow> action list \<Rightarrow> worker \<Rightarrow> worker option" where
  "worker_run io ktc [] w = Some w"
| "worker_run io ktc (a # as) w = Option.bind (worker_act io ktc a w) (worker_run io ktc as)"

lemma worker_act_step: "worker_act io ktc a w = Some w' \<Longrightarrow> worker_step io ktc w w'"
  by (auto simp: worker_act_def split: action.splits if_splits prod.splits
        intro: worker_step.thread worker_step.stop worker_step.interrupt
        dest!: id_take_nth_drop intro!: worker_step.complete)

lemma worker_run_steps: "worker_run io ktc as w = Some w' \<Longrightarrow> (worker_step io ktc)\<^sup>*\<^sup>* w w'"
  by (induction as arbitrary: w)
     (auto simp: bind_eq_Some_conv dest!: worker_act_step intro: converse_rtranclp_into_rtranclp)

declare wake_up_interruptible_def [simp] request_stop_def [simp] send_signal_def [simp]

inductive_cases worker_stepE: "worker_step io ktc w w'"

interpretation workers: transition_system "\<lambda>w. w = worker_init i" "worker_step io ktc" for i io ktc .

end
