(* ===== verification/Kio_Worker_Inv.thy ===== *)
theory Kio_Worker_Inv
  imports Kio_Worker
begin

text \<open>
  Invariants of the worker thread's machine, each proved for every step of the thread, of the completion
  handlers and of the environment: what the dispatch counter counts, where every allocated page is, that every
  request handed over is completed once, that the queue depth is respected, and that the position of the
  sequential cursor stays valid for the device.
\<close>

section \<open>What the invariants speak about\<close>

definition in_flight :: "stage \<times> bio \<Rightarrow> bool" where
  "in_flight p \<longleftrightarrow> fst p = Queued \<or> fst p = Lat_Added"

definition uncounted :: "stage \<times> bio \<Rightarrow> bool" where
  "uncounted p \<longleftrightarrow> in_flight p \<or> fst p = Decremented"

definition owns_page :: "stage \<times> bio \<Rightarrow> bool" where
  "owns_page p \<longleftrightarrow> fst p \<noteq> Page_Freed"

fun trapped :: "pc \<Rightarrow> bool" where
  "trapped (Trapped f) = True"
| "trapped _ = False"

definition holds_page :: "pc \<Rightarrow> bool" where
  "holds_page p \<longleftrightarrow> p \<in> {Next_Request, Wait_Burst, Burst_Stop_Test, Dispatch, Submit} \<or> trapped p"

definition leaving :: "pc \<Rightarrow> bool" where
  "leaving p \<longleftrightarrow> p \<in> {Drain, Finish, Clear_Wqh, Report, Exited}"

text \<open>The requests that the dispatch counter stands for: those in flight, the one being submitted, and
  those whose submission failed.\<close>

definition w_load :: "worker \<Rightarrow> nat" where
  "w_load w = length (filter in_flight (w_bios w)) + of_bool (w_pc w = Submit \<or> trapped (w_pc w)) + length (w_lost w)"

definition page_inv :: "worker \<Rightarrow> bool" where
  "page_inv w \<longleftrightarrow> (w_page w \<noteq> None \<longleftrightarrow> holds_page (w_pc w))"

definition load_inv :: "worker \<Rightarrow> bool" where
  "load_inv w \<longleftrightarrow> th_dispatched (w_th w) = of_nat (w_load w)"

definition completed_inv :: "worker \<Rightarrow> bool" where
  "completed_inv w \<longleftrightarrow>
     of_nat (w_submitted w) = th_completed (w_th w) + of_nat (length (filter uncounted (w_bios w)))"

definition page_owners :: "worker \<Rightarrow> nat multiset" where
  "page_owners w = mset (case w_page w of None \<Rightarrow> [] | Some p \<Rightarrow> [p])
     + mset (map (\<lambda>p. bi_page (snd p)) (filter owns_page (w_bios w))) + mset (w_lost w)"

definition pages_inv :: "worker \<Rightarrow> bool" where
  "pages_inv w \<longleftrightarrow> mset (w_pages w) = page_owners w \<and> distinct (w_pages w)"

definition lost_inv :: "worker \<Rightarrow> bool" where
  "lost_inv w \<longleftrightarrow> length (w_lost w) \<le> 1 \<and> (w_lost w \<noteq> [] \<longrightarrow> leaving (w_pc w))
     \<and> (w_pc w = Fn_Start \<longrightarrow> w_bios w = [])"

lemma start_load: "lost_inv w \<Longrightarrow> w_pc w = Fn_Start \<Longrightarrow> w_load w = 0"
  by (auto simp: lost_inv_def w_load_def leaving_def)

lemmas worker_invs = page_inv_def load_inv_def completed_inv_def pages_inv_def lost_inv_def

section \<open>The calls of a step\<close>

lemma next_dir_frame:
  "kio_thread_next_dir t r th = (d, th') \<Longrightarrow>
     th_dispatched th' = th_dispatched th \<and> th_completed th' = th_completed th
     \<and> th_bio_wqh th' = th_bio_wqh th \<and> th_next_offset th' = th_next_offset th \<and> th_index th' = th_index th"
  by (auto simp: kio_thread_next_dir_def finish_dir_def Let_def split: if_splits)

lemma next_offset_frame:
  "kio_thread_next_offset io t lo hi th = (off, th') \<Longrightarrow>
     th_dispatched th' = th_dispatched th \<and> th_completed th' = th_completed th
     \<and> th_bio_wqh th' = th_bio_wqh th \<and> th_index th' = th_index th"
  by (auto simp: kio_thread_next_offset_def Let_def split: if_splits)

lemma submit_step_cases:
  assumes "w_page w = Some p"
  obtains (fault) f where "submit_step io c w = goto (Trapped f) w"
  | (failed) rc where "rc < 0"
      "submit_step io c w = goto Drain (w\<lparr>w_result := rc, w_page := None, w_lost := p # w_lost w\<rparr>)"
  | (ok) b where "bi_page b = p"
      "submit_step io c w = goto Slat (w\<lparr>w_result := 0, w_page := None, w_bios := w_bios w @ [(Queued, b)],
         w_submitted := Suc (w_submitted w)\<rparr>)"
proof (cases "kio_io_submit (c_submit c) io (w_offset w) (w_page w) (dir_is_write (w_dir w)) (unat (th_index (w_th w)))")
  case (Inl f)
  then show ?thesis
    by (intro fault [of f]) (simp add: submit_step_def)
next
  case (Inr r)
  then obtain rc evs where s: "kio_io_submit (c_submit c) io (w_offset w) (w_page w) (dir_is_write (w_dir w))
      (unat (th_index (w_th w))) = Inr (rc, evs)"
    by (cases r) auto
  then show ?thesis
  proof (cases rule: kio_io_submit_cases)
    case (submitted pg bd)
    let ?b = "submitted_bio (c_submit c) bd (w_offset w) pg (dir_is_write (w_dir w)) (unat (th_index (w_th w)))"
    let ?b' = "if io_submit_mode (c_submit c) = 2 then blk_partition_remap (sub_compat (c_submit c)) bd ?b else ?b"
    have "bi_page ?b' = p"
      using submitted assms by (simp add: blk_partition_remap_def submitted_bio_def split: option.split)
    moreover have "submitted_bios evs = [?b']"
      using submitted by (simp add: submitted_bios_def List.map_filter_def)
    ultimately show ?thesis
      using s submitted by (intro ok [of ?b']) (simp_all add: submit_step_def)
  qed (use s assms in \<open>auto simp: submit_step_def intro: failed\<close>)
qed

lemmas thread_step_simps = kio_thread_fn_step_def wait_event_interruptible_def Let_def goto_def

lemmas stage_simps = in_flight_def uncounted_def owns_page_def next_bio_def
  completion_clat_def completion_dec_def completion_inc_def

lemma completion_effect_frame [simp]:
  "w_pc (completion_effect now st b w) = w_pc w" "w_page (completion_effect now st b w) = w_page w"
  "w_lost (completion_effect now st b w) = w_lost w" "w_bios (completion_effect now st b w) = w_bios w"
  "w_submitted (completion_effect now st b w) = w_submitted w"
  "w_should_stop (completion_effect now st b w) = w_should_stop w"
  "w_signal (completion_effect now st b w) = w_signal w" "w_result (completion_effect now st b w) = w_result w"
  "w_offset (completion_effect now st b w) = w_offset w"
  "w_emergency_stop (completion_effect now st b w) = w_emergency_stop w"
  "th_next_offset (w_th (completion_effect now st b w)) = th_next_offset (w_th w)"
  "th_bio_wqh (w_th (completion_effect now st b w)) = th_bio_wqh (w_th w)"
  by (cases st; simp add: stage_simps)+

section \<open>Preservation\<close>

lemma thread_step_cases:
  assumes "kio_thread_fn_step io ktc c w = Some w'" and "page_inv w"
  obtains (fault) f p where "w_pc w = Submit" "w_page w = Some p" "w' = w\<lparr>w_pc := Trapped f\<rparr>"
  | (failed) rc p where "rc < 0" "w_pc w = Submit" "w_page w = Some p"
      "w' = w\<lparr>w_pc := Drain, w_result := rc, w_page := None, w_lost := p # w_lost w\<rparr>"
  | (ok) b where "w_pc w = Submit" "w_page w = Some (bi_page b)"
      "w' = w\<lparr>w_pc := Slat, w_result := 0, w_page := None, w_bios := w_bios w @ [(Queued, b)],
         w_submitted := Suc (w_submitted w)\<rparr>"
  | (other) "w_pc w \<noteq> Submit"
proof (cases "w_pc w = Submit")
  case True
  with assms obtain p where p: "w_page w = Some p" "w' = submit_step io c w"
    by (auto simp: thread_step_simps page_inv_def holds_page_def split: if_splits)
  then show ?thesis
    by (cases rule: submit_step_cases [of w p io c])
       (use True p in \<open>auto simp: goto_def intro: fault failed ok\<close>)
qed (rule other)

lemma page_inv_step: "worker_step io ktc w w' \<Longrightarrow> page_inv w \<Longrightarrow> page_inv w'"
proof (induction rule: worker_step.induct)
  case (thread c w w')
  then show ?case
  proof (cases rule: thread_step_cases)
    case other
    with thread show ?thesis
      by (auto simp: thread_step_simps page_inv_def holds_page_def
            split: pc.splits if_splits option.splits prod.splits)
  qed (auto simp: page_inv_def holds_page_def)
qed (auto simp: page_inv_def)

lemma load_inv_step:
  "worker_step io ktc w w' \<Longrightarrow> page_inv w \<Longrightarrow> load_inv w \<Longrightarrow> load_inv w'"
proof (induction rule: worker_step.induct)
  case (thread c w w')
  from thread(1,2) show ?case
  proof (cases rule: thread_step_cases)
    case other
    with thread show ?thesis
      by (auto simp: thread_step_simps load_inv_def w_load_def dest!: next_dir_frame next_offset_frame
            split: pc.splits if_splits option.splits prod.splits)
  qed (use thread in \<open>auto simp: load_inv_def w_load_def stage_simps\<close>)
next
  case (complete w xs st b ys now)
  then show ?case
    by (cases st) (auto simp: load_inv_def w_load_def stage_simps)
qed (auto simp: load_inv_def w_load_def)

lemma completed_inv_step:
  "worker_step io ktc w w' \<Longrightarrow> page_inv w \<Longrightarrow> completed_inv w \<Longrightarrow> completed_inv w'"
proof (induction rule: worker_step.induct)
  case (thread c w w')
  from thread(1,2) show ?case
  proof (cases rule: thread_step_cases)
    case other
    with thread show ?thesis
      by (auto simp: thread_step_simps completed_inv_def dest!: next_dir_frame next_offset_frame
            split: pc.splits if_splits option.splits prod.splits)
  qed (use thread in \<open>auto simp: completed_inv_def stage_simps\<close>)
next
  case (complete w xs st b ys now)
  then show ?case
    by (cases st) (auto simp: completed_inv_def stage_simps)
qed (auto simp: completed_inv_def)

lemma lost_inv_step:
  "worker_step io ktc w w' \<Longrightarrow> page_inv w \<Longrightarrow> lost_inv w \<Longrightarrow> lost_inv w'"
proof (induction rule: worker_step.induct)
  case (thread c w w')
  from thread(1,2) show ?case
  proof (cases rule: thread_step_cases)
    case other
    with thread show ?thesis
      by (auto simp: thread_step_simps lost_inv_def leaving_def
            split: pc.splits if_splits option.splits prod.splits)
  qed (use thread in \<open>auto simp: lost_inv_def leaving_def stage_simps\<close>)
qed (auto simp: lost_inv_def leaving_def)

lemma pages_inv_step:
  "worker_step io ktc w w' \<Longrightarrow> page_inv w \<Longrightarrow> pages_inv w \<Longrightarrow> pages_inv w'"
proof (induction rule: worker_step.induct)
  case (thread c w w')
  from thread(1,2) show ?case
  proof (cases rule: thread_step_cases)
    case other
    with thread show ?thesis
      by (auto simp: thread_step_simps pages_inv_def page_owners_def page_inv_def holds_page_def
            split: pc.splits if_splits option.splits prod.splits)
  qed (use thread in \<open>auto simp: pages_inv_def page_owners_def stage_simps\<close>)
next
  case (complete w xs st b ys now)
  then show ?case
    by (cases st) (auto simp: pages_inv_def page_owners_def stage_simps)
qed (auto simp: pages_inv_def page_owners_def)

section \<open>Queue depth\<close>

definition before_depth :: "pc \<Rightarrow> bool" where
  "before_depth p \<longleftrightarrow> p \<in> {Fn_Start, Loop_Test, Depth_Test, Wait_Depth}"

definition before_dispatch :: "pc \<Rightarrow> bool" where
  "before_dispatch p \<longleftrightarrow>
     p \<in> {Depth_Stop_Test, New_Page, Next_Request, Wait_Burst, Burst_Stop_Test, Dispatch}"

text \<open>A pending signal lets the thread leave the wait for the queue once, so one request more.\<close>

definition depth_inv :: "kio_thread_config \<Rightarrow> worker \<Rightarrow> bool" where
  "depth_inv ktc w \<longleftrightarrow>
     (let q = unat (ktc_queue_depth ktc) in
      w_load w \<le> q + of_bool (w_signal w)
      \<and> (before_depth (w_pc w) \<longrightarrow> w_load w \<le> q)
      \<and> (before_dispatch (w_pc w) \<longrightarrow> w_load w < q + of_bool (w_signal w)))"

definition depth_ok :: "kio_thread_config \<Rightarrow> bool" where
  "depth_ok ktc \<longleftrightarrow> 1 \<le> unat (ktc_queue_depth ktc) \<and> unat (ktc_queue_depth ktc) \<le> 1024"

lemma thread_valid_depth_ok: "thread_valid ds t \<Longrightarrow> depth_ok t"
  using of_nat_unat [of "ktc_queue_depth t", where 'a = int]
  unfolding thread_valid_def depth_ok_def by linarith

lemma unat_dispatched:
  assumes "load_inv w" and "depth_inv ktc w" and "depth_ok ktc"
  shows "unat (th_dispatched (w_th w)) = w_load w"
proof -
  have "w_load w \<le> 1025"
    using assms(2,3) by (auto simp: depth_inv_def depth_ok_def Let_def of_bool_def split: if_splits)
  with assms(1) show ?thesis
    unfolding load_inv_def by (simp add: unat_of_nat)
qed

lemma busy_iff:
  assumes "load_inv w" and "depth_inv ktc w" and "depth_ok ktc"
  shows "th_dispatched (w_th w) = 0 \<longleftrightarrow> w_load w = 0"
    and "kio_thread_busy (w_th w) \<longleftrightarrow> w_load w \<noteq> 0"
    and "kio_thread_too_busy ktc (w_th w) \<longleftrightarrow> unat (ktc_queue_depth ktc) \<le> w_load w"
proof -
  note u = unat_dispatched [OF assms]
  then show z: "th_dispatched (w_th w) = 0 \<longleftrightarrow> w_load w = 0"
    by (metis unat_eq_0)
  then show "kio_thread_busy (w_th w) \<longleftrightarrow> w_load w \<noteq> 0"
    by (simp add: kio_thread_busy_def)
  have "ktc_queue_depth ktc \<noteq> 0"
    using assms(3) by (auto simp: depth_ok_def)
  with u show "kio_thread_too_busy ktc (w_th w) \<longleftrightarrow> unat (ktc_queue_depth ktc) \<le> w_load w"
    by (simp add: kio_thread_too_busy_def word_le_nat_alt)
qed

lemma thread_step_frame:
  assumes "kio_thread_fn_step io ktc c w = Some w'" and "w_pc w \<noteq> Submit"
  shows "w_signal w' = w_signal w \<and> w_should_stop w' = w_should_stop w \<and> w_bios w' = w_bios w
    \<and> w_lost w' = w_lost w \<and> w_submitted w' = w_submitted w"
  using assms by (auto simp: thread_step_simps split: pc.splits if_splits option.splits prod.splits)

text \<open>The control flow of the thread, without the submission.\<close>

definition flow :: "kio_thread_config \<Rightarrow> worker \<Rightarrow> pc set" where
  "flow ktc w = (case w_pc w of
     Fn_Start \<Rightarrow> (if w_should_stop w then {Exited} else {Loop_Test})
   | Loop_Test \<Rightarrow> (if w_should_stop w then {Drain} else {Depth_Test})
   | Depth_Test \<Rightarrow> (if kio_thread_too_busy ktc (w_th w) then {Wait_Depth} else {New_Page})
   | Wait_Depth \<Rightarrow> (if \<not> kio_thread_too_busy ktc (w_th w) \<or> w_signal w then {Depth_Stop_Test} else {Wait_Depth})
   | Depth_Stop_Test \<Rightarrow> (if w_should_stop w then {Drain} else {New_Page})
   | New_Page \<Rightarrow> {Drain, Next_Request}
   | Next_Request \<Rightarrow> {Wait_Burst, Dispatch}
   | Wait_Burst \<Rightarrow> (if \<not> kio_thread_busy (w_th w) \<or> w_signal w then {Burst_Stop_Test} else {Wait_Burst})
   | Burst_Stop_Test \<Rightarrow> (if w_should_stop w then {Drain} else {Dispatch})
   | Dispatch \<Rightarrow> {Submit}
   | Submit \<Rightarrow> {}
   | Slat \<Rightarrow> {Delay}
   | Delay \<Rightarrow> {Signal_Test}
   | Signal_Test \<Rightarrow> (if w_signal w then {Drain} else {Loop_Test})
   | Drain \<Rightarrow> (if th_dispatched (w_th w) = 0 \<or> w_signal w then {Finish} else {Drain})
   | Finish \<Rightarrow> {Clear_Wqh}
   | Clear_Wqh \<Rightarrow> {Report}
   | Report \<Rightarrow> {Exited}
   | Exited \<Rightarrow> {}
   | Trapped f \<Rightarrow> {})"

lemma thread_step_flow:
  assumes "kio_thread_fn_step io ktc c w = Some w'" and "w_pc w \<noteq> Submit"
  shows "w_pc w' \<in> flow ktc w"
  using assms
  by (auto simp: thread_step_simps flow_def split: pc.splits if_splits option.splits prod.splits)

lemma thread_step_load:
  assumes "kio_thread_fn_step io ktc c w = Some w'" and "w_pc w \<noteq> Submit"
  shows "w_load w' = w_load w + of_bool (w_pc w = Dispatch)"
  using thread_step_frame [OF assms] thread_step_flow [OF assms] assms(2)
  by (cases "w_pc w") (auto simp: w_load_def flow_def split: if_splits)

lemma depth_inv_step:
  assumes "worker_step io ktc w w'" and "page_inv w" and "load_inv w" and "depth_ok ktc" and "depth_inv ktc w"
  shows "depth_inv ktc w'"
  using assms
proof (induction rule: worker_step.induct)
  case (thread c w w')
  from thread(1,2) show ?case
  proof (cases rule: thread_step_cases)
    case other
    with thread_step_frame [OF thread(1)] thread_step_flow [OF thread(1)] thread_step_load [OF thread(1)]
      thread(5) busy_iff(3) [OF thread(3,5,4)] show ?thesis
      by (cases "w_pc w")
         (auto simp: flow_def depth_inv_def before_depth_def before_dispatch_def Let_def split: if_splits)
  qed (use thread in \<open>auto simp: depth_inv_def w_load_def before_depth_def before_dispatch_def stage_simps\<close>)
next
  case (complete w xs st b ys now)
  then show ?case
    by (cases st) (auto simp: depth_inv_def w_load_def stage_simps Let_def)
qed (auto simp: depth_inv_def w_load_def Let_def)

section \<open>Offsets and faults\<close>

definition offset_inv :: "kio_io \<Rightarrow> kio_thread_config \<Rightarrow> worker \<Rightarrow> bool" where
  "offset_inv io ktc w \<longleftrightarrow>
     gen_ok (io, ktc, w_th w)
     \<and> (w_pc w \<in> {Wait_Burst, Burst_Stop_Test, Dispatch, Submit}
        \<longrightarrow> 0 \<le> sint (w_offset w)
          \<and> kio_io_offset_is_valid io (w_offset w) (ucast (ktc_block_size ktc)) = Inr True)"

lemma gen_ok_cong: "th_next_offset th' = th_next_offset th \<Longrightarrow> gen_ok (io, t, th') = gen_ok (io, t, th)"
  by (simp add: gen_ok_def)

lemma next_request_offset:
  assumes "gen_ok (io, t, th)" and "kio_thread_next_dir t r th = (d, th1)"
    and "kio_thread_next_offset io t lo hi th1 = (off, th2)"
  shows "gen_ok (io, t, th2) \<and> 0 \<le> sint off \<and> kio_io_offset_is_valid io off (ucast (ktc_block_size t)) = Inr True"
proof -
  have ok: "gen_ok (io, t, th1)"
    using assms(1) next_dir_frame [OF assms(2)] gen_ok_cong by blast
  moreover have "next_offset_of (lo, hi) (io, t, th1) = (off, io, t, th2)"
    using assms(3) by (simp add: next_offset_of_def)
  ultimately have "gen_ok (io, t, th2)" "offset_admissible (io, t, th1) off"
    using thread_offsets.gen_ok [OF ok, of "(lo, hi)"] thread_offsets.gen_admissible [OF ok, of "(lo, hi)"] by simp_all
  then show ?thesis
    by (simp add: offset_admissible_def)
qed

lemma offset_inv_thread:
  assumes "kio_thread_fn_step io ktc c w = Some w'" and "w_pc w \<noteq> Submit" and "offset_inv io ktc w"
  shows "offset_inv io ktc w'"
proof (cases "w_pc w = Next_Request")
  case True
  obtain d th1 off th2 where "kio_thread_next_dir ktc (c_rnd_dir c) (w_th w) = (d, th1)"
    and "kio_thread_next_offset io ktc (c_rnd_lo c) (c_rnd_hi c) th1 = (off, th2)"
    by (metis surj_pair)
  with next_request_offset [OF _ this] assms(1,3) True show ?thesis
    by (auto simp: thread_step_simps offset_inv_def split: if_splits)
next
  case False
  have "th_next_offset (w_th w') = th_next_offset (w_th w) \<and> w_offset w' = w_offset w"
    using assms(1,2) False
    by (cases "w_pc w") (auto simp: thread_step_simps split: if_splits option.splits)
  then have "gen_ok (io, ktc, w_th w') = gen_ok (io, ktc, w_th w)" "w_offset w' = w_offset w"
    using gen_ok_cong by blast+
  with thread_step_flow [OF assms(1,2)] assms(3) False show ?thesis
    by (cases "w_pc w") (auto simp: offset_inv_def flow_def split: if_splits)
qed

lemma offset_inv_step:
  assumes "worker_step io ktc w w'" and "page_inv w" and "offset_inv io ktc w"
  shows "offset_inv io ktc w'"
  using assms
proof (induction rule: worker_step.induct)
  case (thread c w w')
  from thread(1,2) show ?case
  proof (cases rule: thread_step_cases)
    case other
    with thread(1,3) show ?thesis
      by (blast intro: offset_inv_thread)
  qed (use thread in \<open>auto simp: offset_inv_def\<close>)
next
  case (complete w xs st b ys now)
  have "gen_ok (io, ktc, w_th (completion_effect now st b (w\<lparr>w_bios := xs @ next_bio st b @ ys\<rparr>)))
      = gen_ok (io, ktc, w_th w)"
    by (rule gen_ok_cong) simp
  with complete show ?case
    by (simp add: offset_inv_def)
qed (auto simp: offset_inv_def)

section \<open>Sleeping and waking\<close>

text \<open>The condition that a waiting thread waits for is false.\<close>

definition blocked :: "kio_thread_config \<Rightarrow> worker \<Rightarrow> bool" where
  "blocked ktc w \<longleftrightarrow>
     w_pc w = Wait_Depth \<and> kio_thread_too_busy ktc (w_th w)
     \<or> w_pc w = Wait_Burst \<and> kio_thread_busy (w_th w)
     \<or> w_pc w = Drain \<and> th_dispatched (w_th w) \<noteq> 0"

text \<open>A handler that has changed the counter and has still to wake the thread.\<close>

definition will_wake :: "stage \<times> bio \<Rightarrow> bool" where
  "will_wake p \<longleftrightarrow> fst p = Decremented \<or> fst p = Counted"

text \<open>Inside its loops the thread can be woken, and it sleeps only where it waits, with no signal pending, while the
  condition is false or a handler is about to wake it.\<close>

definition sleep_inv :: "kio_thread_config \<Rightarrow> worker \<Rightarrow> bool" where
  "sleep_inv ktc w \<longleftrightarrow>
     (w_pc w \<notin> {Fn_Start, Report, Exited} \<longrightarrow> th_bio_wqh (w_th w))
     \<and> (w_asleep w \<longrightarrow> w_pc w \<in> {Wait_Depth, Wait_Burst, Drain} \<and> \<not> w_signal w
          \<and> (blocked ktc w \<or> list_ex will_wake (w_bios w)))"

lemma thread_step_awake: "kio_thread_fn_step io ktc c w = Some w' \<Longrightarrow> \<not> w_asleep w"
  by (auto simp: kio_thread_fn_step_def split: if_splits)

lemma sleep_inv_thread:
  assumes "kio_thread_fn_step io ktc c w = Some w'" and "w_pc w \<noteq> Submit" and "sleep_inv ktc w"
  shows "sleep_inv ktc w'"
  using assms
  by (cases "w_pc w")
     (auto simp: thread_step_simps sleep_inv_def blocked_def dest!: next_dir_frame next_offset_frame
        split: if_splits option.splits prod.splits)

lemma sleep_inv_step:
  assumes "worker_step io ktc w w'" and "page_inv w" and "sleep_inv ktc w"
  shows "sleep_inv ktc w'"
  using assms
proof (induction rule: worker_step.induct)
  case (thread c w w')
  from thread(1,2) show ?case
  proof (cases rule: thread_step_cases)
    case other
    with thread(1,3) show ?thesis
      by (blast intro: sleep_inv_thread)
  qed (use thread thread_step_awake [OF thread(1)] in \<open>auto simp: sleep_inv_def\<close>)
next
  case (complete w xs st b ys now)
  then show ?case
    by (cases st) (auto simp: sleep_inv_def blocked_def will_wake_def kio_thread_busy_def kio_thread_too_busy_def
      stage_simps)
qed (auto simp: sleep_inv_def)

lemma sleep_inv_init: "sleep_inv ktc (worker_init i)"
  by (simp add: sleep_inv_def worker_init_def)

text \<open>With no handler left, a sleeping thread waits for a request whose submission failed.\<close>

lemma asleep_lost:
  assumes "sleep_inv ktc w" and "load_inv w" and "depth_inv ktc w" and "depth_ok ktc" and "lost_inv w"
    and "w_asleep w" and "w_bios w = []"
  shows "w_pc w = Drain \<and> w_lost w \<noteq> [] \<and> \<not> w_signal w"
proof -
  have b: "blocked ktc w" and p: "w_pc w \<in> {Wait_Depth, Wait_Burst, Drain}" "\<not> w_signal w"
    using assms(1,6,7) by (auto simp: sleep_inv_def)
  have "unat (ktc_queue_depth ktc) \<noteq> 0"
    using assms(4) by (simp add: depth_ok_def)
  with b busy_iff [OF assms(2-4)] have "w_load w \<noteq> 0"
    by (auto simp: blocked_def)
  with p assms(5,7) show ?thesis
    by (auto simp: w_load_def lost_inv_def leaving_def)
qed

end
