(* ===== verification/Kio_Worker_Stop.thy ===== *)
theory Kio_Worker_Stop
  imports Kio_Worker_Inv
begin

text \<open>
  The invariants on every reachable state of a worker, and what happens once the controller has asked it to
  stop: the thread and the completion handlers of its requests take a bounded number of further steps.
\<close>

section \<open>Reachable states\<close>

definition worker_inv :: "worker \<Rightarrow> bool" where
  "worker_inv w \<longleftrightarrow> page_inv w \<and> load_inv w \<and> completed_inv w \<and> pages_inv w \<and> lost_inv w"

lemma worker_inv_init: "worker_inv (worker_init i)"
  by (simp add: worker_inv_def worker_invs worker_init_def holds_page_def w_load_def page_owners_def kio_thread_zero_def)

lemma worker_inv_step: "worker_step io ktc w w' \<Longrightarrow> worker_inv w \<Longrightarrow> worker_inv w'"
  by (auto simp: worker_inv_def
        intro: page_inv_step load_inv_step completed_inv_step pages_inv_step lost_inv_step)

lemma worker_inv_reach: "(worker_step io ktc)\<^sup>*\<^sup>* (worker_init i) w \<Longrightarrow> worker_inv w"
  by (rule workers.steps_invariant) (auto intro: worker_inv_init worker_inv_step)

lemma depth_inv_init: "depth_inv ktc (worker_init i)"
  by (simp add: depth_inv_def worker_init_def w_load_def before_depth_def before_dispatch_def)

lemma depth_inv_reach:
  assumes "(worker_step io ktc)\<^sup>*\<^sup>* (worker_init i) w" and "depth_ok ktc"
  shows "worker_inv w \<and> depth_inv ktc w"
  using assms(1) workers.steps_invariant [where I = "\<lambda>w. worker_inv w \<and> depth_inv ktc w"]
  by (metis assms(2) depth_inv_init depth_inv_step worker_inv_def worker_inv_init worker_inv_step)

lemma offset_inv_init:
  assumes "thread_valid (dev_byte_size io) ktc" and "dev_block_size io \<noteq> 0"
  shows "offset_inv io ktc (worker_init i)"
  using assms thread_validD [OF assms(1)]
  by (simp add: offset_inv_def gen_ok_def worker_init_def kio_thread_zero_def)

lemma offset_inv_reach:
  assumes "(worker_step io ktc)\<^sup>*\<^sup>* (worker_init i) w"
    and "thread_valid (dev_byte_size io) ktc" and "dev_block_size io \<noteq> 0"
  shows "offset_inv io ktc w"
proof -
  have "worker_inv w \<and> offset_inv io ktc w"
    using assms(1) workers.steps_invariant [where I = "\<lambda>w. worker_inv w \<and> offset_inv io ktc w"]
    by (metis assms(2,3) offset_inv_init offset_inv_step worker_inv_def worker_inv_init worker_inv_step)
  then show ?thesis by blast
qed

lemma sleep_inv_reach:
  assumes "(worker_step io ktc)\<^sup>*\<^sup>* (worker_init i) w"
  shows "sleep_inv ktc w"
proof -
  have "worker_inv w \<and> sleep_inv ktc w"
    using assms workers.steps_invariant [where I = "\<lambda>w. worker_inv w \<and> sleep_inv ktc w"]
    by (metis sleep_inv_init sleep_inv_step worker_inv_def worker_inv_init worker_inv_step)
  then show ?thesis by blast
qed

section \<open>After the drain\<close>

text \<open>Past the final wait and without a signal nothing is in flight, and no submission had failed.\<close>

definition drained_inv :: "worker \<Rightarrow> bool" where
  "drained_inv w \<longleftrightarrow> (w_pc w \<in> {Finish, Clear_Wqh, Report, Exited} \<and> \<not> w_signal w \<longrightarrow> w_load w = 0)"

lemma drained_inv_step:
  assumes "worker_step io ktc w w'" and "worker_inv w" and "depth_inv ktc w" and "depth_ok ktc" and "drained_inv w"
  shows "drained_inv w'"
  using assms
proof (induction rule: worker_step.induct)
  case (thread c w w')
  then have "page_inv w" and load: "load_inv w" and "lost_inv w"
    by (simp_all add: worker_inv_def)
  from thread(1) this(1) show ?case
  proof (cases rule: thread_step_cases)
    case other
    with thread_step_frame [OF thread(1)] thread_step_flow [OF thread(1)] thread_step_load [OF thread(1)]
      thread(5) busy_iff(1) [OF load thread(3,4)] start_load [OF \<open>lost_inv w\<close>] show ?thesis
      by (cases "w_pc w") (auto simp: flow_def drained_inv_def split: if_splits)
  qed (auto simp: drained_inv_def)
next
  case (complete w xs st b ys now)
  then show ?case
    by (cases st) (auto simp: drained_inv_def w_load_def stage_simps)
qed (auto simp: drained_inv_def w_load_def)

lemma drained_inv_reach:
  assumes "(worker_step io ktc)\<^sup>*\<^sup>* (worker_init i) w" and "depth_ok ktc"
  shows "drained_inv w"
  using assms(1)
proof (induction rule: rtranclp_induct)
  case base
  then show ?case by (simp add: drained_inv_def worker_init_def)
next
  case (step x y)
  with depth_inv_reach [OF step(1) assms(2)] assms(2) show ?case
    by (blast intro: drained_inv_step)
qed

text \<open>The pages of failed submissions stay recorded.\<close>

lemma lost_step: "worker_step io ktc w w' \<Longrightarrow> set (w_lost w) \<subseteq> set (w_lost w')"
proof (induction rule: worker_step.induct)
  case (thread c w w')
  show ?case
  proof (cases "w_pc w = Submit")
    case True
    with thread show ?thesis
      by (auto simp: thread_step_simps submit_step_def split: sum.splits prod.splits if_splits)
  next
    case False
    with thread_step_frame [OF thread] show ?thesis
      by simp
  qed
qed auto

lemma lost_monotone: "(worker_step io ktc)\<^sup>*\<^sup>* w w' \<Longrightarrow> set (w_lost w) \<subseteq> set (w_lost w')"
  by (induction rule: rtranclp_induct) (auto dest: lost_step)

section \<open>No fault\<close>

lemma submit_no_fault:
  assumes "bdev io \<noteq> None" and "dev_block_size io \<noteq> 0"
  shows "\<exists>rc evs. kio_io_submit env io off page is_write private = Inr (rc, evs)"
proof -
  obtain bd where "bdev io = Some bd"
    using assms(1) by auto
  moreover obtain ok where "kio_io_offset_is_valid io off (page_size env) = Inr ok"
    using assms(2) by (fastforce simp: kio_io_offset_is_valid_def split: if_splits)
  ultimately show ?thesis
    by (cases page; cases ok) (simp_all add: kio_io_submit_def Let_def)
qed

lemma trapped_step:
  assumes "worker_step io ktc w w'" and "bdev io \<noteq> None" and "dev_block_size io \<noteq> 0" and "\<not> trapped (w_pc w)"
  shows "\<not> trapped (w_pc w')"
  using assms
proof (induction rule: worker_step.induct)
  case (thread c w w')
  show ?case
  proof (cases "w_pc w = Submit")
    case True
    obtain rc evs where "kio_io_submit (c_submit c) io (w_offset w) (w_page w) (dir_is_write (w_dir w))
        (unat (th_index (w_th w))) = Inr (rc, evs)"
      using submit_no_fault [OF thread(2,3)] by blast
    with thread(1) True show ?thesis
      by (auto simp: thread_step_simps submit_step_def split: if_splits)
  next
    case False
    with thread_step_flow [OF thread(1)] thread(4) show ?thesis
      by (cases "w_pc w") (auto simp: flow_def split: if_splits)
  qed
qed auto

text \<open>What a validated worker submits is accepted.\<close>

lemma worker_submits:
  assumes "(worker_step io ktc)\<^sup>*\<^sup>* (worker_init i) w" and "thread_valid (dev_byte_size io) ktc"
    and "dev_block_size io \<noteq> 0" and "bdev io \<noteq> None" and "w_pc w = Submit"
    and "page_size env = ucast (ktc_block_size ktc)"
  shows "\<exists>rc evs. kio_io_submit env io (w_offset w) (w_page w) is_write private = Inr (rc, evs)
    \<and> rc \<in> {0, - ENOMEM, - EIO}"
proof -
  have "page_inv w"
    using worker_inv_reach [OF assms(1)] by (simp add: worker_inv_def)
  then obtain p where p: "w_page w = Some p"
    using assms(5) by (auto simp: page_inv_def holds_page_def)
  have "kio_io_offset_is_valid io (w_offset w) (page_size env) = Inr True"
    using offset_inv_reach [OF assms(1-3)] assms(5,6) by (simp add: offset_inv_def)
  moreover obtain bd where "bdev io = Some bd"
    using assms(4) by auto
  ultimately show ?thesis
    using p by (simp add: kio_io_submit_def Let_def)
qed

section \<open>Stopping\<close>

text \<open>A step of the thread or of a completion handler.\<close>

definition quiet_step :: "kio_io \<Rightarrow> kio_thread_config \<Rightarrow> worker \<Rightarrow> worker \<Rightarrow> bool" where
  "quiet_step io ktc w w' \<longleftrightarrow>
     worker_step io ktc w w' \<and> w_signal w' = w_signal w \<and> w_should_stop w' = w_should_stop w"

definition stop_live :: "kio_io \<Rightarrow> kio_thread_config \<Rightarrow> worker \<Rightarrow> bool" where
  "stop_live io ktc w \<longleftrightarrow>
     w_should_stop w \<and> worker_inv w \<and> depth_inv ktc w \<and> depth_ok ktc \<and> sleep_inv ktc w
     \<and> bdev io \<noteq> None \<and> dev_block_size io \<noteq> 0 \<and> \<not> trapped (w_pc w)"

text \<open>Every handler has finished, and the thread has exited or sleeps for a request whose submission failed.\<close>

definition stop_final :: "worker \<Rightarrow> bool" where
  "stop_final w \<longleftrightarrow> w_bios w = [] \<and> (w_pc w = Exited \<or> w_pc w = Drain \<and> w_asleep w \<and> w_lost w \<noteq> [] \<and> \<not> w_signal w)"

fun pc_rank :: "pc \<Rightarrow> nat" where
  "pc_rank Fn_Start = 25"
| "pc_rank Depth_Test = 24"
| "pc_rank Wait_Depth = 23"
| "pc_rank Depth_Stop_Test = 22"
| "pc_rank New_Page = 21"
| "pc_rank Next_Request = 20"
| "pc_rank Wait_Burst = 19"
| "pc_rank Burst_Stop_Test = 18"
| "pc_rank Dispatch = 17"
| "pc_rank Submit = 16"
| "pc_rank Slat = 8"
| "pc_rank Delay = 7"
| "pc_rank Signal_Test = 6"
| "pc_rank Loop_Test = 5"
| "pc_rank Drain = 4"
| "pc_rank Finish = 3"
| "pc_rank Clear_Wqh = 2"
| "pc_rank Report = 1"
| "pc_rank Exited = 0"
| "pc_rank (Trapped f) = 0"

text \<open>Waking the thread lets it look at its condition once more.\<close>

fun stage_rank :: "stage \<Rightarrow> nat" where
  "stage_rank Queued = 7"
| "stage_rank Lat_Added = 6"
| "stage_rank Decremented = 5"
| "stage_rank Counted = 4"
| "stage_rank Woken = 2"
| "stage_rank Page_Freed = 1"

definition worker_variant :: "worker \<Rightarrow> nat" where
  "worker_variant w =
     pc_rank (w_pc w) + of_bool (\<not> w_asleep w) + sum_list (map (\<lambda>p. stage_rank (fst p)) (w_bios w))"

lemma asleep_after_step:
  assumes "kio_thread_fn_step io ktc c w = Some w'" and "w_pc w \<noteq> Submit" and "w_pc w' = w_pc w"
  shows "w_asleep w'"
  using assms
  by (cases "w_pc w") (auto simp: thread_step_simps split: if_splits option.splits prod.splits)

lemma quiet_step_variant:
  assumes "worker_step io ktc w w'" and "w_signal w' = w_signal w" and "w_should_stop w' = w_should_stop w"
    and "w_should_stop w" and "page_inv w"
  shows "worker_variant w' < worker_variant w"
  using assms
proof (induction rule: worker_step.induct)
  case (thread c w w')
  note awake = thread_step_awake [OF thread(1)]
  from thread(1,5) show ?case
  proof (cases rule: thread_step_cases)
    case other
    with thread_step_frame [OF thread(1)] thread_step_flow [OF thread(1)] asleep_after_step [OF thread(1)] thread(4)
    show ?thesis
      by (cases "w_pc w") (auto simp: awake flow_def worker_variant_def of_bool_def split: if_splits)
  qed (auto simp: awake worker_variant_def)
next
  case (complete w xs st b ys now)
  then show ?case
    by (cases st) (auto simp: worker_variant_def next_bio_def)
qed auto

text \<open>A thread that is awake can always take a step.\<close>

lemma thread_progress:
  assumes "\<not> w_asleep w" and "w_pc w \<noteq> Exited" and "\<not> trapped (w_pc w)"
  shows "\<exists>c w'. kio_thread_fn_step io ktc c w = Some w'"
proof -
  obtain c :: choice where "c_page c = None"
    by (meson choice.select_convs(2))
  with assms show ?thesis
    by (intro exI [of _ c], cases "w_pc w") (auto simp: thread_step_simps split: prod.split)
qed

lemma reach_not_trapped:
  assumes "(worker_step io ktc)\<^sup>*\<^sup>* (worker_init i) w" and "bdev io \<noteq> None" and "dev_block_size io \<noteq> 0"
  shows "\<not> trapped (w_pc w)"
  using assms(1)
proof (rule workers.steps_invariant)
  show "\<not> trapped (w_pc (worker_init i))"
    by (simp add: worker_init_def)
qed (use trapped_step assms(2,3) in blast)

interpretation stopping: terminating_system "quiet_step io ktc" "stop_live io ktc" stop_final worker_variant
  for io ktc
proof unfold_locales
  fix s t
  assume st: "quiet_step io ktc s t" and live: "stop_live io ktc s"
  then show "worker_variant t < worker_variant s"
    by (intro quiet_step_variant) (auto simp: quiet_step_def stop_live_def worker_inv_def)
  have "page_inv s" "load_inv s"
    using live by (simp_all add: stop_live_def worker_inv_def)
  with st live show "stop_live io ktc t"
    by (auto simp: quiet_step_def stop_live_def dest: trapped_step intro: worker_inv_step depth_inv_step sleep_inv_step)
next
  fix s
  assume live: "stop_live io ktc s" and nf: "\<not> stop_final s"
  show "\<exists>t. quiet_step io ktc s t"
  proof (cases "w_bios s")
    case Nil
    have "\<not> w_asleep s" "w_pc s \<noteq> Exited"
      using nf live Nil asleep_lost [of ktc s] by (auto simp: stop_final_def stop_live_def worker_inv_def)
    with live obtain c t where t: "kio_thread_fn_step io ktc c s = Some t"
      using thread_progress [of s io ktc] by (auto simp: stop_live_def)
    moreover have "page_inv s"
      using live by (simp add: stop_live_def worker_inv_def)
    ultimately have "w_signal t = w_signal s \<and> w_should_stop t = w_should_stop s"
      by (cases rule: thread_step_cases) (use thread_step_frame [OF t] in auto)
    with t show ?thesis
      by (auto simp: quiet_step_def intro: worker_step.thread)
  next
    case (Cons p ps)
    obtain st b where "p = (st, b)"
      by fastforce
    with Cons have "worker_step io ktc s (completion_effect 0 st b (s\<lparr>w_bios := [] @ next_bio st b @ ps\<rparr>))"
      by (intro worker_step.complete) simp
    then show ?thesis
      by (auto simp: quiet_step_def)
  qed
qed

end
