(* ===== verification/Kio_Worker_Props.thy ===== *)
theory Kio_Worker_Props
  imports Kio_Worker_Stop
begin

text \<open>
  The properties of a worker thread, over every interleaving of its steps with the completion handlers, the
  stop request and signals.
\<close>

section \<open>Schedules for the examples\<close>

definition example_choice :: choice where
  "example_choice = \<lparr>c_ktime = 1000, c_page = Some 7, c_rnd_dir = 0, c_rnd_lo = 0, c_rnd_hi = 0,
     c_submit = example_submit_env, c_jiffies = (\<lambda>u. 1)\<rparr>"

text \<open>One request is submitted; the other submits nothing because no bio can be allocated.\<close>

definition one_request :: "action list" where
  "one_request = replicate 10 (Act_Thread example_choice)"

definition one_failure :: "action list" where
  "one_failure = replicate 6 (Act_Thread example_choice)
     @ [Act_Thread (example_choice\<lparr>c_submit := example_submit_env\<lparr>bio_alloc_bioset := False\<rparr>\<rparr>)]"

lemma run_reaches:
  assumes "map_option f (worker_run io ktc as (worker_init i)) = Some v"
  obtains w where "(worker_step io ktc)\<^sup>*\<^sup>* (worker_init i) w" and "f w = v"
  using assms worker_run_steps by fastforce

lemma example_worker_valid: "thread_valid (dev_byte_size example_kio_io) example_valid_thread"
  by code_simp

lemma example_worker_block_size: "dev_block_size example_kio_io \<noteq> 0"
  by (simp add: example_kio_io_def)

lemma example_worker_bdev: "bdev example_kio_io \<noteq> None"
  by (simp add: example_kio_io_def)

section \<open>Counting\<close>

text \<open>C5: The dispatch counter of a worker is exact in every reachable state: it counts the requests in
  flight, the one that is being submitted, and those whose submission failed; and the requests handed to the
  block layer are those counted as completed and those whose handler has not counted them yet.\<close>

theorem dispatch_counter_exact:
  assumes "(worker_step io ktc)\<^sup>*\<^sup>* (worker_init i) w" and "thread_valid (dev_byte_size io) ktc"
  shows "unat (th_dispatched (w_th w))
      = length (filter in_flight (w_bios w)) + of_bool (w_pc w = Submit \<or> trapped (w_pc w)) + length (w_lost w)
    \<and> of_nat (w_submitted w) = th_completed (w_th w) + of_nat (length (filter uncounted (w_bios w)))"
proof -
  have d: "depth_ok ktc"
    using assms(2) by (rule thread_valid_depth_ok)
  from depth_inv_reach [OF assms(1) d] have "load_inv w" "depth_inv ktc w" "completed_inv w"
    by (simp_all add: worker_inv_def)
  with unat_dispatched [OF _ _ d] show ?thesis
    by (simp add: w_load_def completed_inv_def)
qed

theorem dispatch_counter_exact_witness:
  "\<exists>w. (worker_step example_kio_io example_valid_thread)\<^sup>*\<^sup>* (worker_init 0) w \<and> unat (th_dispatched (w_th w)) = 1"
proof -
  have "map_option (\<lambda>w. (length (filter in_flight (w_bios w)), w_pc w, w_lost w))
      (worker_run example_kio_io example_valid_thread one_request (worker_init 0)) = Some (1, Loop_Test, [])"
    by code_simp
  then obtain w where w: "(worker_step example_kio_io example_valid_thread)\<^sup>*\<^sup>* (worker_init 0) w"
    and f: "(length (filter in_flight (w_bios w)), w_pc w, w_lost w) = (1, Loop_Test, [])"
    by (rule run_reaches)
  from dispatch_counter_exact [OF w example_worker_valid] f w show ?thesis
    by auto
qed

section \<open>Pages\<close>

text \<open>C13: Every page that is allocated and not freed belongs to exactly one of: the request being prepared,
  a request whose handler has not freed it yet, a request whose submission failed.  So once the thread has
  exited and all handlers have finished, exactly the pages of failed submissions are left.\<close>

theorem pages_accounted:
  assumes "(worker_step io ktc)\<^sup>*\<^sup>* (worker_init i) w"
  shows "distinct (w_pages w)
    \<and> mset (w_pages w) = mset (case w_page w of None \<Rightarrow> [] | Some p \<Rightarrow> [p])
        + mset (map (\<lambda>p. bi_page (snd p)) (filter owns_page (w_bios w))) + mset (w_lost w)
    \<and> (w_pc w = Exited \<and> w_bios w = [] \<longrightarrow> w_pages w = w_lost w)"
proof -
  have inv: "page_inv w" "pages_inv w" "lost_inv w"
    using worker_inv_reach [OF assms] by (simp_all add: worker_inv_def)
  then have m: "mset (w_pages w) = page_owners w" and d: "distinct (w_pages w)"
    by (simp_all add: pages_inv_def)
  have "w_pages w = w_lost w" if "w_pc w = Exited" "w_bios w = []"
  proof -
    have "mset (w_pages w) = mset (w_lost w)"
      using m inv(1) that by (simp add: page_owners_def page_inv_def holds_page_def)
    moreover have "w_lost w = [] \<or> (\<exists>p. w_lost w = [p])"
      using inv(3) by (cases "w_lost w") (auto simp: lost_inv_def)
    ultimately show ?thesis
      by auto
  qed
  with m d show ?thesis
    by (simp add: page_owners_def)
qed

theorem pages_accounted_witness:
  "\<exists>w. (worker_step example_kio_io example_valid_thread)\<^sup>*\<^sup>* (worker_init 0) w \<and> w_pc w = Exited
     \<and> w_submitted w = 1 \<and> w_pages w = []"
proof -
  have "map_option (\<lambda>w. (w_pc w, w_submitted w, w_bios w, w_lost w))
      (worker_run example_kio_io example_valid_thread
        (one_request @ [Act_Stop, Act_Thread example_choice] @ replicate 6 (Act_Complete 0 2000)
          @ replicate 4 (Act_Thread example_choice)) (worker_init 0)) = Some (Exited, 1, [], [])"
    by code_simp
  then obtain w where w: "(worker_step example_kio_io example_valid_thread)\<^sup>*\<^sup>* (worker_init 0) w"
    and f: "(w_pc w, w_submitted w, w_bios w, w_lost w) = (Exited, 1, [], [])"
    by (rule run_reaches)
  from pages_accounted [OF w] f w show ?thesis
    by auto
qed

section \<open>Leaving the loop\<close>

text \<open>C14: A thread that has exited with no signal pending has drained its queue: nothing is in flight, no
  submission had failed, the dispatch counter is zero, and the requests it handed over are those counted as
  completed and those whose handler has decremented the one counter and not yet incremented the other.\<close>

theorem exit_is_drained:
  assumes "(worker_step io ktc)\<^sup>*\<^sup>* (worker_init i) w" and "thread_valid (dev_byte_size io) ktc"
    and "w_pc w = Exited" and "\<not> w_signal w"
  shows "filter in_flight (w_bios w) = [] \<and> w_lost w = [] \<and> th_dispatched (w_th w) = 0
    \<and> of_nat (w_submitted w) = th_completed (w_th w) + of_nat (length (filter (\<lambda>p. fst p = Decremented) (w_bios w)))"
proof -
  have d: "depth_ok ktc"
    using assms(2) by (rule thread_valid_depth_ok)
  have "w_load w = 0"
    using drained_inv_reach [OF assms(1) d] assms(3,4) by (simp add: drained_inv_def)
  then have e: "filter in_flight (w_bios w) = []" "w_lost w = []"
    by (simp_all add: w_load_def)
  have "filter uncounted (w_bios w) = filter (\<lambda>p. fst p = Decremented) (w_bios w)"
    using e(1) by (intro filter_cong) (auto simp: uncounted_def filter_empty_conv)
  with depth_inv_reach [OF assms(1) d] e \<open>w_load w = 0\<close> show ?thesis
    by (simp add: worker_inv_def load_inv_def completed_inv_def)
qed

theorem exit_is_drained_witness:
  "\<exists>w. (worker_step example_kio_io example_valid_thread)\<^sup>*\<^sup>* (worker_init 0) w \<and> w_pc w = Exited
     \<and> w_submitted w = 1 \<and> th_dispatched (w_th w) = 0 \<and> filter in_flight (w_bios w) = []"
proof -
  have "map_option (\<lambda>w. (w_pc w, w_submitted w, w_signal w))
      (worker_run example_kio_io example_valid_thread
        (one_request @ [Act_Stop, Act_Thread example_choice] @ replicate 6 (Act_Complete 0 2000)
          @ replicate 4 (Act_Thread example_choice)) (worker_init 0)) = Some (Exited, 1, False)"
    by code_simp
  then obtain w where w: "(worker_step example_kio_io example_valid_thread)\<^sup>*\<^sup>* (worker_init 0) w"
    and f: "(w_pc w, w_submitted w, w_signal w) = (Exited, 1, False)"
    by (rule run_reaches)
  from exit_is_drained [OF w example_worker_valid] f w show ?thesis
    by auto
qed

text \<open>C24: A failed submission hangs the worker.  The request stays counted as dispatched, so from then on and
  until a signal arrives the thread is in its final wait, whatever the device completes and although the
  controller asks it to stop; and the page of the request is never freed.\<close>

theorem failed_submit_hangs:
  assumes "(worker_step io ktc)\<^sup>*\<^sup>* (worker_init i) w" and "thread_valid (dev_byte_size io) ktc"
    and "w_lost w \<noteq> []" and "(worker_step io ktc)\<^sup>*\<^sup>* w w'" and "\<not> w_signal w'"
  shows "w_pc w' = Drain \<and> set (w_lost w) \<subseteq> set (w_pages w')"
proof -
  have d: "depth_ok ktc"
    using assms(2) by (rule thread_valid_depth_ok)
  have reach: "(worker_step io ktc)\<^sup>*\<^sup>* (worker_init i) w'"
    using assms(1,4) by simp
  have inv: "page_inv w'" "lost_inv w'" "pages_inv w'"
    using worker_inv_reach [OF reach] by (simp_all add: worker_inv_def)
  have lost: "set (w_lost w) \<subseteq> set (w_lost w')"
    using assms(4) by (rule lost_monotone)
  then have "w_lost w' \<noteq> []"
    using assms(3) by auto
  then have "leaving (w_pc w')" and "w_load w' \<noteq> 0"
    using inv(2) by (simp_all add: lost_inv_def w_load_def)
  with drained_inv_reach [OF reach d] assms(5) have "w_pc w' = Drain"
    by (auto simp: drained_inv_def leaving_def)
  moreover have "set (w_lost w') \<subseteq> set (w_pages w')"
    using inv(3) by (auto simp: pages_inv_def page_owners_def simp flip: set_mset_mset)
  ultimately show ?thesis
    using lost by blast
qed

theorem failed_submit_hangs_witness:
  "\<exists>w. (worker_step example_kio_io example_valid_thread)\<^sup>*\<^sup>* (worker_init 0) w \<and> w_lost w = [7] \<and> w_pc w = Drain
     \<and> 7 \<in> set (w_pages w)"
proof -
  have "map_option (\<lambda>w. (w_lost w, w_signal w))
      (worker_run example_kio_io example_valid_thread one_failure (worker_init 0)) = Some ([7], False)"
    by code_simp
  then obtain w where w: "(worker_step example_kio_io example_valid_thread)\<^sup>*\<^sup>* (worker_init 0) w"
    and f: "(w_lost w, w_signal w) = ([7], False)"
    by (rule run_reaches)
  from failed_submit_hangs [OF w example_worker_valid _ rtranclp.rtrancl_refl] f w show ?thesis
    by (intro exI [of _ w]) simp
qed

text \<open>C21: No wake-up is lost.  A sleeping thread is in one of its three waits with no signal pending, and its condition
  is false or a completion handler that has changed the counter is still to wake it; such a handler, when it
  comes to the wait queue, finds it and wakes the thread.  So a thread that sleeps when no handler is left
  waits for a request whose submission had failed.\<close>

theorem no_lost_wakeup:
  assumes "(worker_step io ktc)\<^sup>*\<^sup>* (worker_init i) w" and "thread_valid (dev_byte_size io) ktc" and "w_asleep w"
  shows "\<not> w_signal w
    \<and> (w_pc w = Wait_Depth \<and> kio_thread_too_busy ktc (w_th w) \<or> w_pc w = Wait_Burst \<and> kio_thread_busy (w_th w)
       \<or> w_pc w = Drain \<and> th_dispatched (w_th w) \<noteq> 0
       \<or> w_pc w \<in> {Wait_Depth, Wait_Burst, Drain} \<and> (\<exists>b. (Decremented, b) \<in> set (w_bios w) \<or> (Counted, b) \<in> set (w_bios w)))
    \<and> \<not> w_asleep (completion_effect now Counted b w)
    \<and> (w_bios w = [] \<longrightarrow> w_pc w = Drain \<and> w_lost w \<noteq> [])"
proof -
  have d: "depth_ok ktc"
    using assms(2) by (rule thread_valid_depth_ok)
  have inv: "sleep_inv ktc w" "load_inv w" "depth_inv ktc w" "lost_inv w"
    using sleep_inv_reach [OF assms(1)] depth_inv_reach [OF assms(1) d] by (simp_all add: worker_inv_def)
  have "w_bios w = [] \<longrightarrow> w_pc w = Drain \<and> w_lost w \<noteq> []"
    using asleep_lost [OF inv(1-3) d inv(4) assms(3)] by blast
  moreover have "th_bio_wqh (w_th w)"
    using inv(1) assms(3) by (auto simp: sleep_inv_def)
  ultimately show ?thesis
    using inv(1) assms(3)
    by (auto simp: sleep_inv_def blocked_def will_wake_def list_ex_iff)
qed

text \<open>A thread that fell asleep in its final wait, with the handler of its request about to wake it.\<close>

theorem no_lost_wakeup_witness:
  "\<exists>w. (worker_step example_kio_io example_valid_thread)\<^sup>*\<^sup>* (worker_init 0) w \<and> w_asleep w
     \<and> th_dispatched (w_th w) = 0 \<and> (\<exists>b. (Decremented, b) \<in> set (w_bios w) \<or> (Counted, b) \<in> set (w_bios w))"
proof -
  have "map_option (\<lambda>w. (w_asleep w, w_pc w, th_dispatched (w_th w)))
      (worker_run example_kio_io example_valid_thread
        (one_request @ [Act_Stop] @ replicate 2 (Act_Thread example_choice) @ replicate 2 (Act_Complete 0 2000))
        (worker_init 0)) = Some (True, Drain, 0)"
    by code_simp
  then obtain w where w: "(worker_step example_kio_io example_valid_thread)\<^sup>*\<^sup>* (worker_init 0) w"
    and f: "(w_asleep w, w_pc w, th_dispatched (w_th w)) = (True, Drain, 0)"
    by (rule run_reaches)
  from no_lost_wakeup [OF w example_worker_valid] f w show ?thesis
    by auto
qed

text \<open>C6: Stopping terminates.  Once the controller has asked a worker to stop, the thread and the completion
  handlers take at most \<open>worker_variant\<close> further steps, whatever their order; and when no further step is
  possible every handler has finished and the thread has exited, or sleeps for ever in its final wait because a
  submission had failed.\<close>

theorem stop_terminates:
  assumes "(worker_step io ktc)\<^sup>*\<^sup>* (worker_init i) w" and "thread_valid (dev_byte_size io) ktc"
    and "dev_block_size io \<noteq> 0" and "bdev io \<noteq> None" and "w_should_stop w" and "(quiet_step io ktc ^^ n) w w'"
  shows "n \<le> worker_variant w
    \<and> ((\<nexists>u. quiet_step io ktc w' u)
       \<longrightarrow> w_bios w' = [] \<and> (w_pc w' = Exited \<or> w_pc w' = Drain \<and> w_asleep w' \<and> w_lost w' \<noteq> [] \<and> \<not> w_signal w'))"
proof -
  have d: "depth_ok ktc"
    using assms(2) by (rule thread_valid_depth_ok)
  have "\<not> trapped (w_pc w)"
    using assms(1,4,3) by (rule reach_not_trapped)
  then have live: "stop_live io ktc w"
    using depth_inv_reach [OF assms(1) d] sleep_inv_reach [OF assms(1)] assms(3-5) d by (simp add: stop_live_def)
  from stopping.run_length_bounded [OF assms(6) live] have "n \<le> worker_variant w"
    by simp
  moreover have "stop_final w'" if "\<nexists>u. quiet_step io ktc w' u"
    using stopping.stuck_is_final [OF _ live that] assms(6) by (blast intro: relpowp_imp_rtranclp)
  ultimately show ?thesis
    by (auto simp: stop_final_def)
qed

theorem stop_terminates_witness:
  "\<exists>w. (worker_step example_kio_io example_valid_thread)\<^sup>*\<^sup>* (worker_init 0) w \<and> w_should_stop w
     \<and> (\<forall>n w'. (quiet_step example_kio_io example_valid_thread ^^ n) w w' \<longrightarrow> n \<le> 13)"
proof -
  have "map_option (\<lambda>w. (w_should_stop w, worker_variant w))
      (worker_run example_kio_io example_valid_thread (one_request @ [Act_Stop]) (worker_init 0)) = Some (True, 13)"
    by code_simp
  then obtain w where w: "(worker_step example_kio_io example_valid_thread)\<^sup>*\<^sup>* (worker_init 0) w"
    and f: "(w_should_stop w, worker_variant w) = (True, 13)"
    by (rule run_reaches)
  from stop_terminates [OF w example_worker_valid example_worker_block_size example_worker_bdev] f w show ?thesis
    by auto
qed

end
