(* ===== verification/Kio_Stats.thy ===== *)
theory Kio_Stats
  imports Kio_Worker_Props
begin

text \<open>
  The statistics of a run (\<open>driver/kio_run.c\<close>): the figures of one thread, their accumulation, the summary,
  and the text printed for them, with the C integer conversions and wrap-around.  The properties give the
  meaning of the figures and the ranges in which they are right.
\<close>

section \<open>Figures\<close>

definition NSEC_PER_SEC :: u64 where
  "NSEC_PER_SEC = 1000000000"

record kio_run_stats =
  st_num_threads :: u32
  st_dispatched :: u64
  st_completed :: u64
  st_slat_total :: u64
  st_clat_total :: u64
  st_bps_total :: u64
  st_runtime_total :: u64

definition kio_run_stats_zero :: kio_run_stats where
  "kio_run_stats_zero = \<lparr>st_num_threads = 0, st_dispatched = 0, st_completed = 0, st_slat_total = 0,
     st_clat_total = 0, st_bps_total = 0, st_runtime_total = 0\<rparr>"

text \<open>The values that a line of the report shows.\<close>

record figures =
  f_cnt :: u32
  f_slat :: u64
  f_clat :: u64
  f_lat :: u64
  f_iops :: u32
  f_bps :: u64

text \<open>
  The first half of \<open>kio_run_stats_thread\<close>.  The submission latency is divided unsigned, the completion
  latency (an \<open>atomic64_t\<close>) signed; the operations per second are cut to 32 bits.
\<close>

definition thread_figures :: "kio_thread_config \<Rightarrow> kio_thread \<Rightarrow> figures" where
  "thread_figures ktc th =
     (let cnt = th_completed th;
          slat = (if cnt \<noteq> 0 then th_slat_total th div ucast cnt else 0);
          clat = (if cnt \<noteq> 0 then s64_div (th_clat_total th) (ucast cnt) else 0);
          lat = (if cnt \<noteq> 0 then slat + clat else 0);
          iops = (if th_runtime th \<noteq> 0 then ucast (ucast cnt * NSEC_PER_SEC div th_runtime th) else 0);
          bps = (if th_runtime th \<noteq> 0
                 then ucast cnt * ucast (ktc_block_size ktc) * NSEC_PER_SEC div th_runtime th else 0)
      in \<lparr>f_cnt = cnt, f_slat = slat, f_clat = clat, f_lat = lat, f_iops = iops, f_bps = bps\<rparr>)"

section \<open>Text\<close>

text \<open>\<open>%03llu\<close>, and a value in thousandths as \<open>%llu.%03llu\<close>.\<close>

definition pad3 :: "nat \<Rightarrow> string" where
  "pad3 n = replicate (3 - length (dec_nat n)) (CHR ''0'') @ dec_nat n"

definition milli :: "u64 \<Rightarrow> string" where
  "milli v = dec_nat (unat (v div 1000)) @ ''.'' @ pad3 (unat (v mod 1000))"

text \<open>\<open>bps/1000000, (bps/1000)%1000\<close>.\<close>

definition mega :: "u64 \<Rightarrow> string" where
  "mega bps = dec_nat (unat (bps div 1000000)) @ ''.'' @ pad3 (unat (bps div 1000 mod 1000))"

definition figures_text :: "figures \<Rightarrow> string" where
  "figures_text f =
     ''completed='' @ dec_nat (unat (f_cnt f)) @ '' lat='' @ milli (f_lat f) @ ''('' @ milli (f_slat f) @ ''+''
     @ milli (f_clat f) @ '') iops='' @ dec_nat (unat (f_iops f)) @ '' MB/s='' @ mega (f_bps f) @ [newline]"

section \<open>The functions\<close>

definition kio_run_stats_thread ::
  "kio_thread_config \<Rightarrow> kio_thread \<Rightarrow> kio_run_stats \<Rightarrow> string \<times> kio_run_stats" where
  "kio_run_stats_thread ktc th st =
     (let f = thread_figures ktc th in
      (''kio: thread['' @ dec_nat (unat (th_index th)) @ '']: '' @ figures_text f,
       \<lparr>st_num_threads = st_num_threads st + 1,
        st_dispatched = st_dispatched st + scast (th_dispatched th),
        st_completed = st_completed st + ucast (f_cnt f),
        st_slat_total = st_slat_total st + th_slat_total th,
        st_clat_total = st_clat_total st + th_clat_total th,
        st_bps_total = st_bps_total st + f_bps f,
        st_runtime_total = st_runtime_total st + th_runtime th\<rparr>))"

text \<open>The summary; the divisor of the operations per second is a product that can wrap to zero.\<close>

definition total_figures :: "kio_run_stats \<Rightarrow> fault + figures" where
  "total_figures st =
     (let cnt = ucast (st_completed st) :: u32;
          slat = (if cnt \<noteq> 0 then st_slat_total st div ucast cnt else 0);
          clat = (if cnt \<noteq> 0 then st_clat_total st div ucast cnt else 0);
          lat = (if cnt \<noteq> 0 then slat + clat else 0);
          f = \<lparr>f_cnt = cnt, f_slat = slat, f_clat = clat, f_lat = lat, f_iops = 0, f_bps = 0\<rparr>;
          den = st_runtime_total st * ucast (st_num_threads st)
      in if st_runtime_total st \<noteq> 0 \<and> st_num_threads st \<noteq> 0
         then (if den = 0 then Inl Div_By_Zero
               else Inr (f\<lparr>f_iops := ucast (ucast cnt * NSEC_PER_SEC div den),
                           f_bps := st_bps_total st div ucast (st_num_threads st)\<rparr>))
         else Inr f)"

definition kio_run_stats_total :: "kio_run_stats \<Rightarrow> fault + string" where
  "kio_run_stats_total st =
     (case total_figures st of Inl e \<Rightarrow> Inl e | Inr f \<Rightarrow> Inr (''kio: summary: '' @ figures_text f))"

text \<open>The loop of \<open>kio_run\<close> over the threads, and the summary after it.\<close>

fun stats_threads ::
  "(kio_thread_config \<times> kio_thread) list \<Rightarrow> kio_run_stats \<Rightarrow> string list \<times> kio_run_stats" where
  "stats_threads [] st = ([], st)"
| "stats_threads ((ktc, th) # ths) st =
     (let (line, st') = kio_run_stats_thread ktc th st; (lines, st'') = stats_threads ths st'
      in (line # lines, st''))"

definition run_report :: "(kio_thread_config \<times> kio_thread) list \<Rightarrow> fault + string list" where
  "run_report ths =
     (let (lines, st) = stats_threads ths kio_run_stats_zero in
      case kio_run_stats_total st of Inl e \<Rightarrow> Inl e | Inr s \<Rightarrow> Inr (lines @ [s]))"

section \<open>Word arithmetic of the figures\<close>

lemma uint_figure_product:
  assumes "uint cnt * uint bs * 1000000000 < 2 ^ 64"
  shows "uint (ucast (cnt :: u32) * ucast (bs :: u32) * NSEC_PER_SEC) = uint cnt * uint bs * 1000000000"
proof -
  have "uint cnt * uint bs \<le> uint cnt * uint bs * 1000000000"
    by simp
  then have lt: "uint cnt * uint bs < 2 ^ 64"
    using assms by linarith
  then have "uint (ucast cnt * ucast bs :: u64) = uint cnt * uint bs"
    by (subst uint_mult_bounded) simp_all
  with assms show ?thesis
    by (subst uint_mult_bounded) (simp_all add: NSEC_PER_SEC_def)
qed

lemma uint_cnt_nsec: "uint (ucast (cnt :: u32) * NSEC_PER_SEC) = uint cnt * 1000000000"
proof -
  have "uint cnt * 1000000000 < 2 ^ 64"
    using uint_lt2p [of cnt] by simp
  then show ?thesis
    by (subst uint_mult_bounded) (simp_all add: NSEC_PER_SEC_def)
qed

lemma uint_ucast_down:
  fixes x :: u64
  assumes "uint x < 2 ^ 32"
  shows "uint (ucast x :: u32) = uint x"
  using assms by (simp add: unsigned_ucast_eq take_bit_int_eq_self)

end
