(* ===== verification/Kio_Stats_Props.thy ===== *)
theory Kio_Stats_Props
  imports Kio_Stats
begin

text \<open>What the statistics of a run mean, in which range they are right, and how they read as text.\<close>

section \<open>One thread\<close>

text \<open>C32: The figures of a thread that has completed requests are what their names say, rounded down: the
  average submission and completion latencies in nanoseconds, their sum, the requests per second and the
  bytes per second of its run time.  This holds as long as the number of nanobytes fits 64 bits, the
  requests per second fit 32 bits and the sum of the averages fits 64 bits.\<close>

theorem thread_figures_exact:
  assumes "th_completed th \<noteq> 0" and "th_runtime th \<noteq> 0" and "0 \<le> sint (th_clat_total th)"
    and "uint (th_completed th) * uint (ktc_block_size ktc) * 1000000000 < 2 ^ 64"
    and "uint (th_completed th) * 1000000000 div uint (th_runtime th) < 2 ^ 32"
    and "uint (th_slat_total th) div uint (th_completed th) + sint (th_clat_total th) div uint (th_completed th) < 2 ^ 64"
  shows "uint (f_slat (thread_figures ktc th)) = uint (th_slat_total th) div uint (th_completed th)
    \<and> uint (f_clat (thread_figures ktc th)) = sint (th_clat_total th) div uint (th_completed th)
    \<and> uint (f_lat (thread_figures ktc th)) = uint (f_slat (thread_figures ktc th)) + uint (f_clat (thread_figures ktc th))
    \<and> uint (f_iops (thread_figures ktc th)) = uint (th_completed th) * 1000000000 div uint (th_runtime th)
    \<and> uint (f_bps (thread_figures ktc th))
        = uint (th_completed th) * uint (ktc_block_size ktc) * 1000000000 div uint (th_runtime th)"
proof -
  let ?c = "th_completed th" and ?f = "thread_figures ktc th"
  have s: "uint (f_slat ?f) = uint (th_slat_total th) div uint ?c"
    using assms(1) by (simp add: thread_figures_def Let_def uint_div_distrib)
  have "sint (s64_div (th_clat_total th) (ucast ?c)) = sint (th_clat_total th) div uint ?c"
    using assms(3) by (simp add: sint_s64_div)
  then have c: "uint (f_clat ?f) = sint (th_clat_total th) div uint ?c"
    using assms(1,3) uint_of_sint_nonneg [of "s64_div (th_clat_total th) (ucast ?c)"]
    by (simp add: thread_figures_def Let_def div_int_pos_iff)
  have "f_lat ?f = f_slat ?f + f_clat ?f"
    using assms(1) by (simp add: thread_figures_def Let_def)
  then have l: "uint (f_lat ?f) = uint (f_slat ?f) + uint (f_clat ?f)"
    using s c assms(6) by (simp add: uint_add_bounded)
  have "uint (f_iops ?f) = uint ?c * 1000000000 div uint (th_runtime th)"
    using assms(2,5) by (simp add: thread_figures_def Let_def uint_ucast_down uint_div_distrib uint_cnt_nsec)
  moreover have "uint (f_bps ?f) = uint ?c * uint (ktc_block_size ktc) * 1000000000 div uint (th_runtime th)"
    using assms(2,4) by (simp add: thread_figures_def Let_def uint_div_distrib uint_figure_product)
  ultimately show ?thesis
    using s c l by simp
qed

definition example_stats_thread :: kio_thread where
  "example_stats_thread = kio_thread_zero\<lparr>th_completed := 100000, th_runtime := 2000000000,
     th_slat_total := 150000000, th_clat_total := 9000000000\<rparr>"

theorem thread_figures_exact_witness:
  "uint (f_iops (thread_figures example_valid_thread example_stats_thread)) = 50000
   \<and> uint (f_bps (thread_figures example_valid_thread example_stats_thread)) = 204800000
   \<and> uint (f_slat (thread_figures example_valid_thread example_stats_thread)) = 1500"
proof -
  let ?t = example_valid_thread and ?th = example_stats_thread
  have "th_completed ?th \<noteq> 0" "th_runtime ?th \<noteq> 0" "0 \<le> sint (th_clat_total ?th)"
    "uint (th_completed ?th) * uint (ktc_block_size ?t) * 1000000000 < 2 ^ 64"
    "uint (th_completed ?th) * 1000000000 div uint (th_runtime ?th) < 2 ^ 32"
    "uint (th_slat_total ?th) div uint (th_completed ?th) + sint (th_clat_total ?th) div uint (th_completed ?th) < 2 ^ 64"
    by code_simp+
  note thread_figures_exact [OF this]
  moreover have "uint (th_completed ?th) * 1000000000 div uint (th_runtime ?th) = 50000"
    "uint (th_completed ?th) * uint (ktc_block_size ?t) * 1000000000 div uint (th_runtime ?th) = 204800000"
    "uint (th_slat_total ?th) div uint (th_completed ?th) = 1500"
    by code_simp+
  ultimately show ?thesis
    by metis
qed

text \<open>C34: Beyond that range the bytes per second are wrong.  As soon as the number of nanobytes reaches
  \<open>2^64\<close> (with blocks of 4096 bytes after 4503600 requests) the product wraps, and the figure is too small by
  at least \<open>2^64\<close> divided by the run time.\<close>

theorem thread_bps_wraps:
  assumes "th_runtime th \<noteq> 0" and "2 ^ 64 \<le> uint (th_completed th) * uint (ktc_block_size ktc) * 1000000000"
  shows "uint (f_bps (thread_figures ktc th)) + 2 ^ 64 div uint (th_runtime th)
    \<le> uint (th_completed th) * uint (ktc_block_size ktc) * 1000000000 div uint (th_runtime th)"
proof -
  let ?x = "uint (th_completed th) * uint (ktc_block_size ktc) * 1000000000" and ?r = "uint (th_runtime th)"
  have r: "0 < ?r"
    using assms(1) by (simp add: word_neq_0_conv word_less_def)
  have "uint (ucast (th_completed th) * ucast (ktc_block_size ktc) * NSEC_PER_SEC) = ?x mod 2 ^ 64"
    by (simp add: NSEC_PER_SEC_def uint_word_ariths mod_mult_left_eq)
  then have b: "uint (f_bps (thread_figures ktc th)) = ?x mod 2 ^ 64 div ?r"
    using assms(1) by (simp add: thread_figures_def Let_def uint_div_distrib)
  have "?x mod 2 ^ 64 = (?x - 2 ^ 64) mod 2 ^ 64"
    by simp
  also have "\<dots> \<le> ?x - 2 ^ 64"
    using assms(2) by (intro zmod_le_nonneg_dividend) simp
  finally have m: "?x mod 2 ^ 64 + 2 ^ 64 \<le> ?x"
    by simp
  have "a div ?r * ?r \<le> a" for a
    using le_div_int_iff [OF r, of "a div ?r" a] by simp
  from add_mono [OF this [of "?x mod 2 ^ 64"] this [of "2 ^ 64"]]
  have "(?x mod 2 ^ 64 div ?r + 2 ^ 64 div ?r) * ?r \<le> ?x mod 2 ^ 64 + 2 ^ 64"
    by (simp only: distrib_right)
  then have "(?x mod 2 ^ 64 div ?r + 2 ^ 64 div ?r) * ?r \<le> ?x"
    using m by linarith
  then show ?thesis
    using b r le_div_int_iff by simp
qed

theorem thread_bps_wraps_witness:
  "uint (f_bps (thread_figures example_valid_thread
      (kio_thread_zero\<lparr>th_completed := 5000000, th_runtime := 10000000000\<rparr>))) + 1844674407 \<le> 2048000000"
proof -
  let ?th = "kio_thread_zero\<lparr>th_completed := 5000000, th_runtime := 10000000000\<rparr>"
  have a: "th_runtime ?th \<noteq> 0" "2 ^ 64 \<le> uint (th_completed ?th) * uint (ktc_block_size example_valid_thread) * 1000000000"
    by code_simp+
  have "2 ^ 64 div uint (th_runtime ?th) = 1844674407"
    "uint (th_completed ?th) * uint (ktc_block_size example_valid_thread) * 1000000000 div uint (th_runtime ?th) = 2048000000"
    by code_simp+
  with thread_bps_wraps [OF a] show ?thesis
    by metis
qed

section \<open>All threads\<close>

lemma stats_threads_replicate:
  "snd (stats_threads (replicate n (ktc, th)) st) =
    \<lparr>st_num_threads = st_num_threads st + of_nat n,
     st_dispatched = st_dispatched st + of_nat n * scast (th_dispatched th),
     st_completed = st_completed st + of_nat n * ucast (th_completed th),
     st_slat_total = st_slat_total st + of_nat n * th_slat_total th,
     st_clat_total = st_clat_total st + of_nat n * th_clat_total th,
     st_bps_total = st_bps_total st + of_nat n * f_bps (thread_figures ktc th),
     st_runtime_total = st_runtime_total st + of_nat n * th_runtime th\<rparr>"
proof (induction n arbitrary: st)
  case 0
  then show ?case by simp
next
  case (Suc n)
  have "f_cnt (thread_figures ktc th) = th_completed th"
    by (simp add: thread_figures_def Let_def)
  with Suc show ?case
    by (simp add: kio_run_stats_thread_def Let_def case_prod_beta algebra_simps)
qed

lemma uint_of_nat32:
  assumes "int n < 2 ^ 32"
  shows "uint (of_nat n :: u32) = int n" and "uint (of_nat n :: u64) = int n"
  using assms by (simp_all add: uint_nat unat_of_nat)

lemma div_le_self_int: "0 \<le> (a :: int) \<Longrightarrow> 0 < b \<Longrightarrow> a div b \<le> a"
  using zdiv_mono2 [of a 1 b] by simp

lemma uint_of_nat_mult:
  fixes x :: u64
  assumes "int n * uint x < 2 ^ 64" and "int n < 2 ^ 32"
  shows "uint (of_nat n * x) = int n * uint x"
proof -
  have "uint (of_nat n :: u64) = int n"
    using assms(2) by (rule uint_of_nat32)
  with assms(1) show ?thesis
    by (subst uint_mult_bounded) simp_all
qed

text \<open>The totals of \<open>n\<close> equal threads, as numbers.\<close>

lemma equal_threads_totals:
  fixes n ktc th
  defines "st \<equiv> snd (stats_threads (replicate n (ktc, th)) kio_run_stats_zero)"
  assumes "0 < n" and "int n < 2 ^ 32" and "th_runtime th \<noteq> 0"
    and "int n * uint (th_completed th) < 2 ^ 32" and "int n * uint (th_runtime th) * int n < 2 ^ 64"
    and "int n * uint (f_bps (thread_figures ktc th)) < 2 ^ 64"
  shows "uint (st_runtime_total st) = int n * uint (th_runtime th)" and "uint (st_num_threads st) = int n"
    and "uint (ucast (st_completed st) :: u32) = int n * uint (th_completed th)"
    and "uint (st_runtime_total st * ucast (st_num_threads st)) = int n * uint (th_runtime th) * int n"
    and "uint (st_bps_total st) = int n * uint (f_bps (thread_figures ktc th))"
proof -
  let ?c = "uint (th_completed th)" and ?r = "uint (th_runtime th)"
  have st: "st_runtime_total st = of_nat n * th_runtime th" "st_num_threads st = of_nat n"
    "st_completed st = of_nat n * ucast (th_completed th)" "st_bps_total st = of_nat n * f_bps (thread_figures ktc th)"
    unfolding st_def stats_threads_replicate by (simp_all add: kio_run_stats_zero_def)
  have "int n * ?r \<le> int n * ?r * int n"
    using assms(2) mult_left_mono [of 1 "int n" "int n * ?r"] by simp
  then have "int n * ?r < 2 ^ 64"
    using assms(6) by linarith
  then show rt: "uint (st_runtime_total st) = int n * ?r"
    using assms(3) by (simp add: st uint_of_nat_mult)
  show nt: "uint (st_num_threads st) = int n"
    using assms(3) by (simp add: st uint_of_nat32)
  have "uint (st_completed st) = int n * ?c"
    using assms(3,5) by (simp add: st uint_of_nat_mult)
  then show "uint (ucast (st_completed st) :: u32) = int n * ?c"
    using assms(5) by (simp add: uint_ucast_down)
  show "uint (st_runtime_total st * ucast (st_num_threads st)) = int n * ?r * int n"
    using assms(6) rt nt by (subst uint_mult_bounded) simp_all
  show "uint (st_bps_total st) = int n * uint (f_bps (thread_figures ktc th))"
    using assms(3,7) by (simp add: st uint_of_nat_mult)
qed

text \<open>C33: The summary of \<open>n\<close> threads that did the same work in the same time (as long as the sums fit their
  types): the bytes per second are those of one thread, the average over the threads, but the operations
  per second are divided by the number of threads once more, because the run time that they are divided
  by is already the sum over the threads.\<close>

theorem summary_of_equal_threads:
  assumes "0 < n" and "int n < 2 ^ 32" and "th_runtime th \<noteq> 0"
    and "int n * uint (th_completed th) < 2 ^ 32"
    and "int n * uint (th_runtime th) * int n < 2 ^ 64"
    and "int n * uint (f_bps (thread_figures ktc th)) < 2 ^ 64"
    and "uint (th_completed th) * 1000000000 div uint (th_runtime th) < 2 ^ 32"
  shows "\<exists>f. total_figures (snd (stats_threads (replicate n (ktc, th)) kio_run_stats_zero)) = Inr f
    \<and> f_bps f = f_bps (thread_figures ktc th)
    \<and> uint (f_iops f) = uint (f_iops (thread_figures ktc th)) div int n"
proof -
  let ?st = "snd (stats_threads (replicate n (ktc, th)) kio_run_stats_zero)"
  let ?c = "uint (th_completed th)" and ?r = "uint (th_runtime th)"
  note tot = equal_threads_totals [OF assms(1-6)]
  have r: "0 < ?r"
    using assms(3) by (simp add: word_neq_0_conv word_less_def)
  have nz: "st_runtime_total ?st \<noteq> 0" "st_num_threads ?st \<noteq> 0"
    "st_runtime_total ?st * ucast (st_num_threads ?st) \<noteq> 0"
    using tot assms(1) r by (auto simp: word_uint_eq_iff simp del: uint_0_eq)
  have q: "int n * ?c * 1000000000 div (int n * ?r * int n) = ?c * 1000000000 div ?r div int n"
    using assms(1) r by (simp add: mult.assoc div_mult_mult1 zdiv_zmult2_eq)
  have "?c * 1000000000 div ?r div int n \<le> ?c * 1000000000 div ?r"
    using assms(1) r by (intro div_le_self_int) (simp_all add: div_int_pos_iff)
  then have "uint (ucast (ucast (ucast (st_completed ?st) :: u32) * NSEC_PER_SEC div
      (st_runtime_total ?st * ucast (st_num_threads ?st))) :: u32) = ?c * 1000000000 div ?r div int n"
    using assms(7) q by (subst uint_ucast_down) (simp_all add: uint_div_distrib uint_cnt_nsec tot)
  moreover have "uint (f_iops (thread_figures ktc th)) = ?c * 1000000000 div ?r"
    using assms(3,7) by (simp add: thread_figures_def Let_def uint_ucast_down uint_div_distrib uint_cnt_nsec)
  moreover have "st_bps_total ?st div ucast (st_num_threads ?st) = f_bps (thread_figures ktc th)"
    using assms(1) by (simp add: word_uint_eq_iff uint_div_distrib tot)
  ultimately show ?thesis
    using nz by (simp add: total_figures_def Let_def)
qed

theorem summary_of_equal_threads_witness:
  "\<exists>f. total_figures (snd (stats_threads (replicate 4 (example_valid_thread, example_stats_thread)) kio_run_stats_zero)) = Inr f
     \<and> uint (f_iops f) = 12500 \<and> uint (f_bps f) = 204800000"
proof -
  let ?t = example_valid_thread and ?th = example_stats_thread
  have "(0 :: nat) < 4" "int 4 < 2 ^ 32"
    by simp_all
  moreover have "th_runtime ?th \<noteq> 0" "int 4 * uint (th_completed ?th) < 2 ^ 32"
    "int 4 * uint (th_runtime ?th) * int 4 < 2 ^ 64" "int 4 * uint (f_bps (thread_figures ?t ?th)) < 2 ^ 64"
    "uint (th_completed ?th) * 1000000000 div uint (th_runtime ?th) < 2 ^ 32"
    by code_simp+
  ultimately obtain f where f: "total_figures (snd (stats_threads (replicate 4 (?t, ?th)) kio_run_stats_zero)) = Inr f"
    "f_bps f = f_bps (thread_figures ?t ?th)" "uint (f_iops f) = uint (f_iops (thread_figures ?t ?th)) div int 4"
    using summary_of_equal_threads by blast
  moreover have "uint (f_bps (thread_figures ?t ?th)) = 204800000" "uint (f_iops (thread_figures ?t ?th)) div int 4 = 12500"
    by code_simp+
  ultimately show ?thesis
    by metis
qed

section \<open>Text\<close>

text \<open>A reader of a number with three decimals, in thousandths.\<close>

definition read_milli :: "string \<Rightarrow> nat option" where
  "read_milli cs =
     (case read_digits 0 cs of
        (n, c # ds) \<Rightarrow> (if c = CHR ''.'' \<and> length ds = 3 then Some (n * 1000 + fst (read_digits 0 ds)) else None)
      | _ \<Rightarrow> None)"

lemma length_dec_nat_small: "n < 1000 \<Longrightarrow> length (dec_nat n) \<le> 3"
  by (simp add: dec_nat.simps [of n] dec_nat.simps [of "n div 10"] dec_nat.simps [of "n div 10 div 10"])

lemma read_digits_zeros: "read_digits 0 (replicate k (CHR ''0'') @ cs) = read_digits 0 cs"
  by (induction k) (simp_all add: char_digit_def)

lemma read_pad3: "fst (read_digits 0 (pad3 n)) = n"
  using read_digits_dec_nat [of 0 n] by (auto simp: pad3_def read_digits_zeros)

lemma read_milli_parts:
  assumes "r < 1000"
  shows "read_milli (dec_nat q @ ''.'' @ pad3 r) = Some (q * 1000 + r)"
proof -
  have "read_digits 0 (dec_nat q) = (q, [])"
    using read_digits_dec_nat [of 0 q] by auto
  then have "read_digits 0 (dec_nat q @ ''.'' @ pad3 r) = (q, ''.'' @ pad3 r)"
    by (rule read_digits_rest) (simp add: char_digit_def)
  moreover have "length (pad3 r) = 3"
    using length_dec_nat_small [OF assms] by (simp add: pad3_def)
  ultimately show ?thesis
    by (simp add: read_milli_def read_pad3)
qed

text \<open>C35: The text of the figures loses nothing it should keep: a latency printed in microseconds with three
  decimals reads back as the exact number of nanoseconds, and a rate printed in megabytes per second with
  three decimals reads back as the rate in kilobytes per second, rounded down.\<close>

theorem figures_text_reads_back:
  "read_milli (milli v) = Some (unat v) \<and> read_milli (mega v) = Some (unat v div 1000)"
proof
  have "unat (v div 1000) * 1000 + unat (v mod 1000) = unat v"
    by (simp add: unat_div_distrib unat_mod_distrib)
  moreover have "unat (v mod 1000) < 1000"
    by (simp add: unat_mod_distrib)
  ultimately show "read_milli (milli v) = Some (unat v)"
    by (simp only: milli_def read_milli_parts)
  have "unat (v div 1000000) * 1000 + unat (v div 1000 mod 1000) = unat v div 1000"
    using div_mult_mod_eq [of "unat v div 1000" 1000]
    by (simp add: unat_div_distrib unat_mod_distrib div_mult2_eq [of _ 1000 1000, simplified])
  moreover have "unat (v div 1000 mod 1000) < 1000"
    by (simp add: unat_mod_distrib)
  ultimately show "read_milli (mega v) = Some (unat v div 1000)"
    by (simp only: mega_def read_milli_parts)
qed

end
