(* ===== verification/Kio_Run.thy ===== *)
theory Kio_Run
  imports Kio_Stats_Props
begin

text \<open>
  \<open>kio_run\<close> (\<open>driver/kio_run.c\<close>) and \<open>run_workload\<close> (\<open>driver/kio_config.c\<close>): the controller that creates one
  worker thread per configuration, waits for the run time or an emergency stop, stops and joins the threads,
  prints the statistics and frees the threads.  Controller and workers form one step relation.
\<close>

section \<open>State\<close>

text \<open>\<open>ths[i].thread\<close>: not created, an error pointer, or a running task.\<close>

datatype task = No_Task | Err_Task int | Task worker

datatype run_pc =
  Run_Start | Run_Alloc | Spawn nat | Wait_Timeout | Wait_Done | Stop nat | Join nat
| Stopped | Run_Report | Run_Free | Returned int | Run_Trapped fault

text \<open>\<open>r_running\<close> is \<open>kio_running\<close>, \<open>r_allocated\<close> says that \<open>ths\<close> is allocated, \<open>r_out\<close> are the lines printed.\<close>

record run =
  r_pc :: run_pc
  r_result :: int
  r_tasks :: "task list"
  r_running :: bool
  r_allocated :: bool
  r_out :: "string list"

definition run_init :: run where
  "run_init = \<lparr>r_pc = Run_Start, r_result = 0, r_tasks = [], r_running = False, r_allocated = False, r_out = []\<rparr>"

definition kio_is_running :: "run \<Rightarrow> bool" where
  "kio_is_running r = r_running r"

text \<open>What the kernel answers in one step of the controller: whether \<open>kzalloc\<close> succeeds, the error of
  \<open>kthread_run\<close>, whether the time is over or a signal is pending, and whether the task of a thread that has
  already returned is freed: the controller holds no reference to it.\<close>

record run_choice =
  rc_kzalloc :: bool
  rc_kthread_run :: "int option"
  rc_timeout :: bool
  rc_task_freed :: bool

section \<open>The controller\<close>

fun exited :: "task \<Rightarrow> bool" where
  "exited (Task w) = (w_pc w = Exited)"
| "exited _ = True"

text \<open>The flag on the controller's stack that the threads point to.\<close>

fun raised_emergency :: "task \<Rightarrow> bool" where
  "raised_emergency (Task w) = w_emergency_stop w"
| "raised_emergency _ = False"

definition emergency_stop :: "run \<Rightarrow> bool" where
  "emergency_stop r \<longleftrightarrow> list_ex raised_emergency (r_tasks r)"

definition task_threads :: "kio_thread_config list \<Rightarrow> task list \<Rightarrow> (kio_thread_config \<times> kio_thread) list" where
  "task_threads ts tasks = zip ts (map (\<lambda>t. case t of Task w \<Rightarrow> w_th w | _ \<Rightarrow> kio_thread_zero) tasks)"

definition kio_run_step :: "kio_thread_config list \<Rightarrow> run_choice \<Rightarrow> run \<Rightarrow> run option" where
  "kio_run_step ts c r =
    (case r_pc r of
       Run_Start \<Rightarrow>
         Some (if list_ex (\<lambda>t. ktc_block_size t \<noteq> 4096) ts then r\<lparr>r_pc := Returned (- ERANGE)\<rparr>
               else r\<lparr>r_running := True, r_pc := Run_Alloc\<rparr>)
     | Run_Alloc \<Rightarrow>
         Some (if \<not> rc_kzalloc c then r\<lparr>r_pc := Returned (- ENOMEM)\<rparr>
               else r\<lparr>r_allocated := True, r_tasks := replicate (length ts) No_Task, r_pc := Spawn 0\<rparr>)
     | Spawn i \<Rightarrow>
         Some (if i < length ts then
                 (case rc_kthread_run c of
                    None \<Rightarrow> r\<lparr>r_tasks := (r_tasks r)[i := Task (worker_init (of_nat i))], r_pc := Spawn (Suc i)\<rparr>
                  | Some e \<Rightarrow>
                      (let r' = r\<lparr>r_tasks := (r_tasks r)[i := Err_Task e], r_result := e\<rparr> in
                       if i = 0 then r'\<lparr>r_allocated := False, r_pc := Returned e\<rparr> else r'\<lparr>r_pc := Stop 0\<rparr>))
               else r\<lparr>r_pc := Wait_Timeout\<rparr>)
     | Wait_Timeout \<Rightarrow> (if emergency_stop r \<or> rc_timeout c then Some (r\<lparr>r_pc := Wait_Done\<rparr>) else None)
     | Wait_Done \<Rightarrow>
         Some (r\<lparr>r_result := (if emergency_stop r then - EINTR else r_result r), r_pc := Stop 0\<rparr>)
     | Stop i \<Rightarrow>
         Some (if i < length ts then
                 (case r_tasks r ! i of
                    No_Task \<Rightarrow> r\<lparr>r_pc := Stop (Suc i)\<rparr>
                  | Err_Task e \<Rightarrow> r\<lparr>r_pc := Run_Trapped Bad_Pointer\<rparr>
                  | Task w \<Rightarrow>
                      if w_pc w = Exited \<and> rc_task_freed c then r\<lparr>r_pc := Run_Trapped Bad_Pointer\<rparr>
                      else r\<lparr>r_tasks := (r_tasks r)[i := Task (request_stop w)], r_pc := Join i\<rparr>)
               else r\<lparr>r_pc := Stopped\<rparr>)
     | Join i \<Rightarrow> (if exited (r_tasks r ! i) then Some (r\<lparr>r_pc := Stop (Suc i)\<rparr>) else None)
     | Stopped \<Rightarrow> Some (r\<lparr>r_running := False, r_pc := Run_Report\<rparr>)
     | Run_Report \<Rightarrow>
         Some (if r_result r = 0 then
                 (case run_report (task_threads ts (r_tasks r)) of
                    Inl f \<Rightarrow> r\<lparr>r_pc := Run_Trapped f\<rparr>
                  | Inr ls \<Rightarrow> r\<lparr>r_out := ls, r_pc := Run_Free\<rparr>)
               else r\<lparr>r_pc := Run_Free\<rparr>)
     | Run_Free \<Rightarrow> Some (r\<lparr>r_allocated := False, r_pc := Returned (r_result r)\<rparr>)
     | Returned rc \<Rightarrow> None
     | Run_Trapped f \<Rightarrow> None)"

section \<open>The system\<close>

text \<open>A worker's own steps: only the controller asks a thread to stop.\<close>

inductive run_step :: "kio_io \<Rightarrow> kio_thread_config list \<Rightarrow> run \<Rightarrow> run \<Rightarrow> bool"
  for io :: kio_io and ts :: "kio_thread_config list" where
  control: "kio_run_step ts c r = Some r' \<Longrightarrow> run_step io ts r r'"
| work: "i < length ts \<Longrightarrow> i < length (r_tasks r) \<Longrightarrow> r_tasks r ! i = Task w
    \<Longrightarrow> worker_step io (ts ! i) w w' \<Longrightarrow> w_should_stop w' = w_should_stop w
    \<Longrightarrow> run_step io ts r (r\<lparr>r_tasks := (r_tasks r)[i := Task w']\<rparr>)"

text \<open>An executable schedule of the system.\<close>

datatype run_action = Act_Control run_choice | Act_Work nat action

fun quiet_action :: "action \<Rightarrow> bool" where
  "quiet_action Act_Stop = False"
| "quiet_action _ = True"

definition run_act :: "kio_io \<Rightarrow> kio_thread_config list \<Rightarrow> run_action \<Rightarrow> run \<Rightarrow> run option" where
  "run_act io ts a r =
     (case a of
        Act_Control c \<Rightarrow> kio_run_step ts c r
      | Act_Work i a \<Rightarrow>
          (if i < length ts \<and> i < length (r_tasks r) \<and> quiet_action a then
             (case r_tasks r ! i of
                Task w \<Rightarrow> map_option (\<lambda>w'. r\<lparr>r_tasks := (r_tasks r)[i := Task w']\<rparr>) (worker_act io (ts ! i) a w)
              | _ \<Rightarrow> None)
           else None))"

fun run_acts :: "kio_io \<Rightarrow> kio_thread_config list \<Rightarrow> run_action list \<Rightarrow> run \<Rightarrow> run option" where
  "run_acts io ts [] r = Some r"
| "run_acts io ts (a # as) r = Option.bind (run_act io ts a r) (run_acts io ts as)"

lemma thread_step_should_stop:
  assumes "kio_thread_fn_step io ktc c w = Some w'"
  shows "w_should_stop w' = w_should_stop w"
proof (cases "w_pc w = Submit")
  case True
  with assms show ?thesis
    by (auto simp: thread_step_simps submit_step_def split: sum.splits prod.splits if_splits)
qed (use thread_step_frame [OF assms] in blast)

lemma quiet_action_should_stop:
  assumes "worker_act io ktc a w = Some w'" and "quiet_action a"
  shows "w_should_stop w' = w_should_stop w"
  using assms
  by (cases a) (auto simp: worker_act_def thread_step_should_stop split: if_splits prod.splits)

lemma run_act_step: "run_act io ts a r = Some r' \<Longrightarrow> run_step io ts r r'"
  by (auto simp: run_act_def quiet_action_should_stop worker_act_step
        split: run_action.splits if_splits task.splits intro: run_step.control intro!: run_step.work)

lemma run_acts_steps: "run_acts io ts as r = Some r' \<Longrightarrow> (run_step io ts)\<^sup>*\<^sup>* r r'"
  by (induction as arbitrary: r)
     (auto simp: bind_eq_Some_conv dest!: run_act_step intro: converse_rtranclp_into_rtranclp)

interpretation runs: transition_system "\<lambda>r. r = run_init" "run_step io ts" for io ts .

section \<open>Starting a run\<close>

text \<open>A run that has returned: its result and the flag \<open>kio_running\<close> it leaves.\<close>

definition kio_run :: "kio_io \<Rightarrow> kio_thread_config list \<Rightarrow> int \<Rightarrow> bool \<Rightarrow> bool" where
  "kio_run io ts rc running \<longleftrightarrow>
     (\<exists>r. (run_step io ts)\<^sup>*\<^sup>* run_init r \<and> r_pc r = Returned rc \<and> kio_is_running r = running)"

text \<open>The guards of \<open>kio_run_workload_store\<close>; zero means that the run is started.\<close>

definition run_workload_admit :: "cfg_env \<Rightarrow> kio_io \<Rightarrow> bool \<Rightarrow> kio_config \<Rightarrow> fault + int \<times> kio_config" where
  "run_workload_admit env io is_running c =
     (if is_running then Inr (- EBUSY, c)
      else if num_threads c = 0 \<or> threads c = None then Inr (- ECHILD, c)
      else (case kio_config_is_valid env io c of
              Inl f \<Rightarrow> Inl f
            | Inr (ok, c') \<Rightarrow> Inr (if ok then 0 else - ENOEXEC, c')))"

text \<open>The value returned, the configuration and the flag \<open>kio_running\<close> afterwards.\<close>

inductive kio_run_workload_store ::
  "cfg_env \<Rightarrow> kio_io \<Rightarrow> bool \<Rightarrow> u64 \<Rightarrow> kio_config \<Rightarrow> int \<Rightarrow> kio_config \<Rightarrow> bool \<Rightarrow> bool"
  for env :: cfg_env and io :: kio_io and is_running :: bool and len :: u64 and c :: kio_config where
  refused: "run_workload_admit env io is_running c = Inr (rc, c') \<Longrightarrow> rc \<noteq> 0
    \<Longrightarrow> kio_run_workload_store env io is_running len c rc c' is_running"
| started: "run_workload_admit env io is_running c = Inr (0, c')
    \<Longrightarrow> kio_run io (take (unat (num_threads c')) (the (threads c'))) rc running
    \<Longrightarrow> kio_run_workload_store env io is_running len c (int_of_count len) c' running"

inductive_cases run_workload_storeE: "kio_run_workload_store env io is_running len c res c' running"

definition kio_run_workload_show :: "bool \<Rightarrow> string" where
  "kio_run_workload_show is_running = sprintf_d (if is_running then 1 else 0)"

end
