(* ===== verification/Kio_Run_Inv.thy ===== *)
theory Kio_Run_Inv
  imports Kio_Run
begin

text \<open>
  Invariants of a run.  Each worker of the system is a reachable state of the worker machine, so that every
  invariant of a worker holds in the system; the place of the controller determines which threads exist,
  which have been joined, and the flag \<open>kio_running\<close>.
\<close>

section \<open>The controller's bookkeeping\<close>

fun joined :: "task \<Rightarrow> bool" where
  "joined No_Task = True"
| "joined (Err_Task e) = False"
| "joined (Task w) = (w_pc w = Exited)"

fun is_task :: "task \<Rightarrow> bool" where
  "is_task (Task w) = True"
| "is_task _ = False"

definition small_blocks :: "kio_thread_config list \<Rightarrow> bool" where
  "small_blocks ts \<longleftrightarrow> (\<forall>t \<in> set ts. ktc_block_size t = 4096)"

text \<open>
  The invariant for a run of \<open>n\<close> threads; \<open>ok\<close> is the outcome of the test of the block sizes at its start.
  How a run can have returned: refused for a block size, without memory, without its first thread, or
  after every thread was joined.\<close>

definition returned_inv :: "bool \<Rightarrow> nat \<Rightarrow> int \<Rightarrow> run \<Rightarrow> bool" where
  "returned_inv ok n rc r \<longleftrightarrow>
     \<not> r_allocated r \<and> list_all exited (r_tasks r)
     \<and> (\<not> ok \<and> \<not> r_running r \<and> r_tasks r = [] \<and> rc = - ERANGE
      \<or> ok \<and> r_running r \<and> r_tasks r = [] \<and> rc = - ENOMEM
      \<or> ok \<and> r_running r \<and> r_tasks r = Err_Task rc # replicate (n - 1) No_Task \<and> n \<noteq> 0
      \<or> ok \<and> \<not> r_running r \<and> length (r_tasks r) = n \<and> list_all joined (r_tasks r)
          \<and> (n = 0 \<or> is_task (r_tasks r ! 0)))"

definition active_inv :: "bool \<Rightarrow> nat \<Rightarrow> run \<Rightarrow> bool" where
  "active_inv ok n r \<longleftrightarrow>
     ok \<and> r_running r \<and> r_allocated r \<and> length (r_tasks r) = n"

definition joined_upto :: "nat \<Rightarrow> run \<Rightarrow> bool" where
  "joined_upto i r \<longleftrightarrow> (\<forall>j < i. joined (r_tasks r ! j))"

definition has_first :: "nat \<Rightarrow> run \<Rightarrow> bool" where
  "has_first n r \<longleftrightarrow> n = 0 \<or> is_task (r_tasks r ! 0)"

definition place_inv :: "bool \<Rightarrow> nat \<Rightarrow> run \<Rightarrow> bool" where
  "place_inv ok n r \<longleftrightarrow>
    (case r_pc r of
       Run_Start \<Rightarrow> \<not> r_running r \<and> \<not> r_allocated r \<and> r_tasks r = []
     | Run_Alloc \<Rightarrow> ok \<and> r_running r \<and> \<not> r_allocated r \<and> r_tasks r = []
     | Spawn i \<Rightarrow> active_inv ok n r \<and> i \<le> n
         \<and> (\<forall>j < n. if j < i then is_task (r_tasks r ! j) else r_tasks r ! j = No_Task)
     | Wait_Timeout \<Rightarrow> active_inv ok n r \<and> (\<forall>j < n. is_task (r_tasks r ! j))
     | Wait_Done \<Rightarrow> active_inv ok n r \<and> (\<forall>j < n. is_task (r_tasks r ! j))
     | Stop i \<Rightarrow> active_inv ok n r \<and> i \<le> n \<and> joined_upto i r \<and> has_first n r
     | Join i \<Rightarrow> active_inv ok n r \<and> i < n \<and> joined_upto i r \<and> has_first n r \<and> is_task (r_tasks r ! i)
     | Stopped \<Rightarrow> active_inv ok n r \<and> joined_upto n r \<and> has_first n r
     | Run_Report \<Rightarrow> active_inv ok n (r\<lparr>r_running := True\<rparr>) \<and> \<not> r_running r \<and> joined_upto n r \<and> has_first n r
     | Run_Free \<Rightarrow> active_inv ok n (r\<lparr>r_running := True\<rparr>) \<and> \<not> r_running r \<and> joined_upto n r \<and> has_first n r
     | Returned rc \<Rightarrow> returned_inv ok n rc r
     | Run_Trapped f \<Rightarrow> ok \<and> length (r_tasks r) = n)"

lemma joined_exited: "joined t \<Longrightarrow> exited t"
  by (cases t) auto

lemma is_task_joined: "is_task t \<Longrightarrow> joined t \<longleftrightarrow> exited t"
  by (cases t) auto

lemma place_inv_spawn:
  assumes "kio_run_step ts c r = Some r'" and "place_inv ok (length ts) r" and Spawn: "r_pc r = Spawn i"
  shows "place_inv ok (length ts) r'"
proof (cases "i < length ts")
  case True
  show ?thesis
  proof (cases "rc_kthread_run c")
    case None
    with Spawn True assms show ?thesis
      by (auto simp: kio_run_step_def place_inv_def active_inv_def nth_list_update less_Suc_eq)
  next
    case (Some e)
    show ?thesis
    proof (cases "i = 0")
      case i: True
      have "(r_tasks r)[0 := Err_Task e] = Err_Task e # replicate (length ts - 1) No_Task"
        using Spawn True i assms(2)
        by (intro nth_equalityI)
           (auto simp: place_inv_def active_inv_def nth_list_update nth_Cons split: nat.split)
      with Spawn True i Some assms show ?thesis
        by (auto simp: kio_run_step_def place_inv_def active_inv_def returned_inv_def list_all_iff)
    next
      case False
      with Spawn True assms(2) have "is_task (r_tasks r ! 0)"
        by (auto simp: place_inv_def dest!: spec [of _ 0])
      with False Spawn True Some assms show ?thesis
        by (auto simp: kio_run_step_def place_inv_def active_inv_def joined_upto_def has_first_def Let_def)
    qed
  qed
next
  case False
  with Spawn assms show ?thesis
    by (auto simp: kio_run_step_def place_inv_def active_inv_def)
qed

lemma place_inv_control:
  assumes "kio_run_step ts c r = Some r'" and "place_inv ok (length ts) r"
  shows "place_inv (if r_pc r = Run_Start then small_blocks ts else ok) (length ts) r'"
proof (cases "r_pc r")
  case Run_Start
  with assms show ?thesis
    by (auto simp: kio_run_step_def place_inv_def returned_inv_def small_blocks_def list_ex_iff split: if_splits)
next
  case Run_Alloc
  with assms show ?thesis
    by (auto simp: kio_run_step_def place_inv_def returned_inv_def active_inv_def split: if_splits)
next
  case (Spawn i)
  with place_inv_spawn [OF assms] show ?thesis
    by simp
next
  case (Stop i)
  show ?thesis
  proof (cases "i < length ts")
    case True
    with Stop assms show ?thesis
      by (cases "r_tasks r ! i")
         (auto simp: kio_run_step_def place_inv_def active_inv_def joined_upto_def has_first_def
            nth_list_update less_Suc_eq split: if_splits)
  next
    case False
    with Stop assms show ?thesis
      by (auto simp: kio_run_step_def place_inv_def active_inv_def joined_upto_def has_first_def)
  qed
next
  case (Join i)
  with assms is_task_joined show ?thesis
    by (auto simp: kio_run_step_def place_inv_def active_inv_def joined_upto_def has_first_def less_Suc_eq
          split: if_splits)
next
  case Wait_Done
  with assms show ?thesis
    by (cases ts) (auto simp: kio_run_step_def place_inv_def active_inv_def joined_upto_def has_first_def)
next
  case Run_Free
  with assms show ?thesis
    by (auto simp: kio_run_step_def place_inv_def active_inv_def joined_upto_def has_first_def returned_inv_def
          list_all_length intro!: joined_exited)
qed (use assms in \<open>auto simp: kio_run_step_def place_inv_def active_inv_def joined_upto_def has_first_def
       split: if_splits sum.splits\<close>)

section \<open>The workers\<close>

lemma exited_stable: "worker_step io ktc w w' \<Longrightarrow> w_pc w = Exited \<Longrightarrow> w_pc w' = Exited"
  by (auto elim!: worker_stepE simp: thread_step_simps split: if_splits)

lemma list_all_update: "list_all P xs \<Longrightarrow> P x \<Longrightarrow> list_all P (xs[i := x])"
  using set_update_subset_insert [of xs i x] by (auto simp: list_all_iff)

lemma place_inv_work:
  assumes "i < length (r_tasks r)" and "r_tasks r ! i = Task w" and "worker_step io ktc w w'" and "place_inv ok n r"
  shows "place_inv ok n (r\<lparr>r_tasks := (r_tasks r)[i := Task w']\<rparr>)"
proof -
  let ?tasks = "(r_tasks r)[i := Task w']"
  have j: "joined (?tasks ! j)" if "joined (r_tasks r ! j)" for j
    using that assms(1-3) exited_stable by (cases "j = i") auto
  have t: "is_task (?tasks ! j) = is_task (r_tasks r ! j)" for j
    using assms(1,2) by (cases "j = i") auto
  have nt: "?tasks ! j = No_Task \<longleftrightarrow> r_tasks r ! j = No_Task" for j
    using assms(1,2) by (cases "j = i") auto
  have e: "list_all exited ?tasks" if "list_all exited (r_tasks r)"
    using that assms(1-3) exited_stable by (intro list_all_update) (auto simp: list_all_length)
  have jl: "list_all joined ?tasks" if "list_all joined (r_tasks r)"
    using that j by (simp add: list_all_length)
  have ne: "r_tasks r \<noteq> []" "r_tasks r \<noteq> Err_Task rc # replicate m No_Task" for rc m
    using assms(1,2) by (auto simp: nth_Cons split: nat.splits)
  have "returned_inv ok n rc (r\<lparr>r_tasks := ?tasks\<rparr>)" if "returned_inv ok n rc r" for rc
    using that ne e jl by (simp add: returned_inv_def t)
  then show ?thesis
    using assms(4) j ne
    by (cases "r_pc r") (simp_all add: place_inv_def active_inv_def joined_upto_def has_first_def t nt, auto)
qed

text \<open>For a configuration that stays the same.\<close>

definition control_inv :: "kio_thread_config list \<Rightarrow> run \<Rightarrow> bool" where
  "control_inv ts r = place_inv (small_blocks ts) (length ts) r"

definition workers_inv :: "kio_io \<Rightarrow> kio_thread_config list \<Rightarrow> task list \<Rightarrow> bool" where
  "workers_inv io ts tasks \<longleftrightarrow>
     (\<forall>i < length tasks. \<forall>w. tasks ! i = Task w
        \<longrightarrow> (worker_step io (ts ! i))\<^sup>*\<^sup>* (worker_init (of_nat i)) w)"

lemma workers_inv_update:
  assumes "workers_inv io ts tasks"
    and "\<And>w. i < length tasks \<Longrightarrow> t = Task w \<Longrightarrow> (worker_step io (ts ! i))\<^sup>*\<^sup>* (worker_init (of_nat i)) w"
  shows "workers_inv io ts (tasks[i := t])"
  unfolding workers_inv_def
proof (intro allI impI)
  fix j w
  assume "j < length (tasks[i := t])" and "tasks[i := t] ! j = Task w"
  with assms show "(worker_step io (ts ! j))\<^sup>*\<^sup>* (worker_init (of_nat j)) w"
    by (cases "j = i") (auto simp: workers_inv_def)
qed

text \<open>Which threads the controller has asked to stop.\<close>

fun asked_upto :: "run_pc \<Rightarrow> nat option" where
  "asked_upto (Spawn i) = Some 0"
| "asked_upto Wait_Timeout = Some 0"
| "asked_upto Wait_Done = Some 0"
| "asked_upto (Stop i) = Some i"
| "asked_upto (Join i) = Some (Suc i)"
| "asked_upto _ = None"

definition request_inv :: "run \<Rightarrow> bool" where
  "request_inv r \<longleftrightarrow> (\<forall>n j w. asked_upto (r_pc r) = Some n \<longrightarrow> j < length (r_tasks r) \<longrightarrow> r_tasks r ! j = Task w
     \<longrightarrow> (w_should_stop w \<longleftrightarrow> j < n))"

lemma nth_update_at: "j < length xs \<Longrightarrow> xs[i := x] ! j = (if j = i then x else xs ! j)"
  by auto

lemma request_inv_control:
  assumes "kio_run_step ts c r = Some r'" and "request_inv r"
  shows "request_inv r'"
proof (cases "r_pc r")
  case (Stop i)
  show ?thesis
  proof (cases "i < length ts")
    case True
    with Stop assms show ?thesis
      by (cases "r_tasks r ! i") (auto simp: kio_run_step_def request_inv_def nth_list_update less_Suc_eq split: if_splits)
  next
    case False
    with Stop assms show ?thesis
      by (auto simp: kio_run_step_def request_inv_def)
  qed
qed (use assms in \<open>auto simp: kio_run_step_def request_inv_def worker_init_def Let_def nth_update_at
       split: if_splits option.splits sum.splits\<close>)

lemma workers_inv_control:
  assumes "kio_run_step ts c r = Some r'" and "workers_inv io ts (r_tasks r)" and "request_inv r"
  shows "workers_inv io ts (r_tasks r')"
proof (cases "r_pc r")
  case Run_Alloc
  with assms show ?thesis
    by (auto simp: kio_run_step_def workers_inv_def split: if_splits)
next
  case (Spawn i)
  with assms show ?thesis
    by (auto simp: kio_run_step_def Let_def split: if_splits option.splits intro!: workers_inv_update)
next
  case (Stop i)
  have "(worker_step io (ts ! i))\<^sup>*\<^sup>* (worker_init (of_nat i)) (request_stop w)"
    if "r_tasks r ! i = Task w" "i < length (r_tasks r)" for w
  proof -
    have "\<not> w_should_stop w" "(worker_step io (ts ! i))\<^sup>*\<^sup>* (worker_init (of_nat i)) w"
      using that Stop assms(2,3) by (auto simp: request_inv_def workers_inv_def)
    then show ?thesis
      by (meson rtranclp.rtrancl_into_rtrancl worker_step.stop)
  qed
  with Stop assms(1,2) show ?thesis
    by (auto simp: kio_run_step_def split: if_splits task.splits intro!: workers_inv_update simp del: request_stop_def)
qed (use assms in \<open>auto simp: kio_run_step_def split: if_splits sum.splits\<close>)

lemma tasks_small_blocks: "control_inv ts r \<Longrightarrow> r_tasks r \<noteq> [] \<Longrightarrow> small_blocks ts"
  by (cases "r_pc r") (auto simp: control_inv_def place_inv_def active_inv_def returned_inv_def)

section \<open>Every reachable state\<close>

definition run_inv :: "kio_io \<Rightarrow> kio_thread_config list \<Rightarrow> run \<Rightarrow> bool" where
  "run_inv io ts r \<longleftrightarrow> control_inv ts r \<and> request_inv r \<and> workers_inv io ts (r_tasks r)"

lemma run_inv_step: "run_step io ts r r' \<Longrightarrow> run_inv io ts r \<Longrightarrow> run_inv io ts r'"
proof (induction rule: run_step.induct)
  case (control c r r')
  then show ?case
    by (auto simp: run_inv_def control_inv_def dest: place_inv_control request_inv_control workers_inv_control
          split: if_splits)
next
  case (work i r w w')
  have "(worker_step io (ts ! i))\<^sup>*\<^sup>* (worker_init (of_nat i)) w'"
    using work by (auto simp: run_inv_def workers_inv_def intro: rtranclp.rtrancl_into_rtrancl)
  moreover have "request_inv (r\<lparr>r_tasks := (r_tasks r)[i := Task w']\<rparr>)"
    using work by (auto simp: run_inv_def request_inv_def nth_list_update)
  ultimately show ?case
    using work by (auto simp: run_inv_def control_inv_def intro: place_inv_work workers_inv_update)
qed

lemma run_inv_reach: "(run_step io ts)\<^sup>*\<^sup>* run_init r \<Longrightarrow> run_inv io ts r"
proof (rule runs.steps_invariant)
  show "run_inv io ts run_init"
    by (simp add: run_inv_def control_inv_def place_inv_def request_inv_def workers_inv_def run_init_def)
qed (auto intro: run_inv_step)

end
