(* ===== verification/Kio_Run_Props.thy ===== *)
theory Kio_Run_Props
  imports Kio_Run_Inv
begin

text \<open>
  The properties of a run, over every interleaving of the controller, the workers and their completion
  handlers, and of the request that starts it.
\<close>

section \<open>Schedules for the examples\<close>

definition example_run_choice :: run_choice where
  "example_run_choice = \<lparr>rc_kzalloc = True, rc_kthread_run = None, rc_timeout = True,
     rc_task_freed = False\<rparr>"

definition control_steps :: "nat \<Rightarrow> run_action list" where
  "control_steps n = replicate n (Act_Control example_run_choice)"

definition work_steps :: "nat \<Rightarrow> run_action list" where
  "work_steps n = replicate n (Act_Work 0 (Act_Thread example_choice))"

text \<open>A run of one thread that submits one request; the handler of the request takes \<open>n\<close> steps before the
  thread looks at its counter for the last time.\<close>

definition example_run :: "nat \<Rightarrow> run_action list" where
  "example_run n = control_steps 4 @ work_steps 10 @ control_steps 3
     @ replicate n (Act_Work 0 (Act_Complete 0 2000)) @ work_steps 5 @ control_steps 5"

lemma run_acts_reach:
  assumes "map_option f (run_acts io ts as run_init) = Some v"
  obtains r where "(run_step io ts)\<^sup>*\<^sup>* run_init r" and "f r = v"
  using assms run_acts_steps by fastforce

section \<open>Threads and their memory\<close>

lemma run_task_reach:
  assumes "(run_step io ts)\<^sup>*\<^sup>* run_init r" and "i < length (r_tasks r)" and "r_tasks r ! i = Task w"
  shows "(worker_step io (ts ! i))\<^sup>*\<^sup>* (worker_init (of_nat i)) w"
  using run_inv_reach [OF assms(1)] assms(2,3) by (simp add: run_inv_def workers_inv_def)

text \<open>C8: No thread outlives its run.  While some worker has not exited, \<open>kio_running\<close> is set and the threads'
  memory is allocated (or the controller has faulted); when \<open>kio_run\<close> has returned, every thread that was
  created has exited and the memory is freed.\<close>

theorem threads_within_run:
  assumes "(run_step io ts)\<^sup>*\<^sup>* run_init r" and "\<And>f. r_pc r \<noteq> Run_Trapped f"
  shows "(Task w \<in> set (r_tasks r) \<longrightarrow> w_pc w \<noteq> Exited \<longrightarrow> kio_is_running r \<and> r_allocated r)
    \<and> (r_pc r = Returned rc \<longrightarrow> \<not> r_allocated r \<and> (Task w \<in> set (r_tasks r) \<longrightarrow> w_pc w = Exited))"
proof -
  have inv: "control_inv ts r"
    using run_inv_reach [OF assms(1)] by (simp add: run_inv_def)
  have "w_pc w = Exited" if "Task w \<in> set (r_tasks r)" "length (r_tasks r) = length ts" "joined_upto (length ts) r"
    using that by (metis in_set_conv_nth joined.simps(3) joined_upto_def)
  moreover have "w_pc w = Exited" if "Task w \<in> set (r_tasks r)" "list_all exited (r_tasks r)"
    using that by (auto simp: list_all_iff)
  ultimately show ?thesis
    using inv assms(2)
    by (cases "r_pc r") (auto simp: control_inv_def place_inv_def active_inv_def returned_inv_def kio_is_running_def)
qed

theorem threads_within_run_witness:
  "\<exists>r w. (run_step example_kio_io [example_valid_thread])\<^sup>*\<^sup>* run_init r \<and> r_tasks r = [Task w]
     \<and> w_pc w = Loop_Test \<and> kio_is_running r \<and> r_allocated r"
proof -
  have "map_option (\<lambda>r. (r_pc r, map (\<lambda>t. case t of Task w \<Rightarrow> Some (w_pc w) | _ \<Rightarrow> None) (r_tasks r)))
      (run_acts example_kio_io [example_valid_thread] (control_steps 4 @ work_steps 10) run_init)
    = Some (Wait_Timeout, [Some Loop_Test])"
    by code_simp
  then obtain r where r: "(run_step example_kio_io [example_valid_thread])\<^sup>*\<^sup>* run_init r"
    and f: "(r_pc r, map (\<lambda>t. case t of Task w \<Rightarrow> Some (w_pc w) | _ \<Rightarrow> None) (r_tasks r)) = (Wait_Timeout, [Some Loop_Test])"
    by (rule run_acts_reach)
  then obtain w where "r_tasks r = [Task w]" "w_pc w = Loop_Test"
    by (auto split: task.splits)
  moreover have "\<And>e. r_pc r \<noteq> Run_Trapped e"
    using f by simp
  ultimately show ?thesis
    using threads_within_run [OF r, of w] r by auto
qed

text \<open>C25: The memory of the threads can be freed while a completion handler still uses it.  There is a run that
  has returned with success and freed the threads, in which the handler of a request of the first thread has
  decremented the dispatch counter and still has to increment the completion counter and read the wait
  queue of the freed structure.\<close>

theorem completion_after_free:
  "\<exists>r w b. (run_step example_kio_io [example_valid_thread])\<^sup>*\<^sup>* run_init r \<and> r_pc r = Returned 0
     \<and> \<not> r_allocated r \<and> r_tasks r = [Task w] \<and> (Decremented, b) \<in> set (w_bios w)"
proof -
  let ?f = "\<lambda>r. (r_pc r, r_allocated r, map (\<lambda>t. case t of Task w \<Rightarrow> map fst (w_bios w) | _ \<Rightarrow> []) (r_tasks r))"
  have "map_option ?f (run_acts example_kio_io [example_valid_thread] (example_run 2) run_init)
    = Some (Returned 0, False, [[Decremented]])"
    by code_simp
  then obtain r where r: "(run_step example_kio_io [example_valid_thread])\<^sup>*\<^sup>* run_init r"
    and f: "?f r = (Returned 0, False, [[Decremented]])"
    by (rule run_acts_reach)
  then obtain w where w: "r_tasks r = [Task w]" "map fst (w_bios w) = [Decremented]"
    by (auto split: task.splits)
  then have "Decremented \<in> fst ` set (w_bios w)"
    by (simp flip: set_map)
  with r f w show ?thesis
    by auto
qed

section \<open>The running flag\<close>

text \<open>C15: How a run returns.  A configuration with a block size other than 4096 is refused with \<open>-ERANGE\<close>; a run
  that created at least its first thread returns with \<open>kio_running\<close> cleared and every thread exited; but a run
  that could not allocate its threads or create the first one returns with \<open>kio_running\<close> still set.\<close>

theorem kio_run_returns:
  assumes "(run_step io ts)\<^sup>*\<^sup>* run_init r" and "r_pc r = Returned rc" and "ts \<noteq> []"
  shows "(\<exists>t \<in> set ts. ktc_block_size t \<noteq> 4096) \<and> rc = - ERANGE \<and> \<not> kio_is_running r
    \<or> (\<forall>t \<in> set ts. ktc_block_size t = 4096) \<and> (\<exists>w. r_tasks r ! 0 = Task w) \<and> length (r_tasks r) = length ts
        \<and> (\<forall>w. Task w \<in> set (r_tasks r) \<longrightarrow> w_pc w = Exited) \<and> (\<forall>e. Err_Task e \<notin> set (r_tasks r)) \<and> \<not> kio_is_running r
    \<or> (\<forall>t \<in> set ts. ktc_block_size t = 4096) \<and> (\<forall>w. Task w \<notin> set (r_tasks r)) \<and> kio_is_running r"
proof -
  have "returned_inv (small_blocks ts) (length ts) rc r"
    using run_inv_reach [OF assms(1)] assms(2) by (simp add: run_inv_def control_inv_def place_inv_def)
  moreover have "\<exists>w. t = Task w" if "is_task t" for t
    using that by (cases t) auto
  moreover have "Err_Task e \<notin> set (r_tasks r)" and "Task w \<in> set (r_tasks r) \<longrightarrow> w_pc w = Exited"
    if "list_all joined (r_tasks r)" for e w
    using that by (auto simp: list_all_iff)
  ultimately show ?thesis
    using assms(3) by (auto simp: returned_inv_def small_blocks_def kio_is_running_def)
qed

theorem kio_run_returns_witness:
  "\<exists>r. (run_step example_kio_io [example_valid_thread])\<^sup>*\<^sup>* run_init r \<and> r_pc r = Returned (- ENOMEM)
     \<and> (\<forall>w. Task w \<notin> set (r_tasks r)) \<and> kio_is_running r"
proof -
  have "map_option (\<lambda>r. (r_pc r, r_tasks r = [])) (run_acts example_kio_io [example_valid_thread]
      [Act_Control example_run_choice, Act_Control (example_run_choice\<lparr>rc_kzalloc := False\<rparr>)] run_init)
    = Some (Returned (- ENOMEM), True)"
    by (simp add: run_act_def kio_run_step_def run_init_def example_run_choice_def example_valid_thread_def
          example_thread_def)
  then obtain r where r: "(run_step example_kio_io [example_valid_thread])\<^sup>*\<^sup>* run_init r"
    and f: "(r_pc r, r_tasks r = []) = (Returned (- ENOMEM), True)"
    by (rule run_acts_reach)
  then show ?thesis
    using kio_run_returns [OF r, of "- ENOMEM"] by auto
qed

text \<open>C31: A run in which creating a thread other than the first fails never returns: the error pointer is left
  in the array, and the controller passes it to \<open>kthread_stop\<close>.\<close>

theorem later_thread_failure_never_returns:
  assumes "(run_step io ts)\<^sup>*\<^sup>* run_init r" and "Err_Task e \<in> set (tl (r_tasks r))"
  shows "r_pc r \<noteq> Returned rc \<and> r_pc r \<noteq> Stopped \<and> r_pc r \<noteq> Run_Report \<and> r_pc r \<noteq> Run_Free"
proof -
  have inv: "control_inv ts r"
    using run_inv_reach [OF assms(1)] by (simp add: run_inv_def)
  have e: "Err_Task e \<in> set (r_tasks r)"
    using assms(2) by (cases "r_tasks r") auto
  have "\<not> list_all joined (r_tasks r)"
    using e by (auto simp: list_all_iff intro!: bexI [of _ "Err_Task e"])
  moreover have "\<not> joined_upto (length ts) r" if "length (r_tasks r) = length ts"
    using that e by (metis in_set_conv_nth joined.simps(2) joined_upto_def)
  ultimately show ?thesis
    using inv assms(2) by (auto simp: control_inv_def place_inv_def active_inv_def returned_inv_def)
qed

theorem later_thread_failure_never_returns_witness:
  "\<exists>r. (run_step example_kio_io [example_valid_thread, example_valid_thread])\<^sup>*\<^sup>* run_init r
     \<and> Err_Task (- 12) \<in> set (tl (r_tasks r)) \<and> r_pc r \<noteq> Returned (- 12)"
proof -
  let ?ts = "[example_valid_thread, example_valid_thread]"
  have "map_option (\<lambda>r. map (\<lambda>t. case t of Err_Task e \<Rightarrow> e | _ \<Rightarrow> 0) (r_tasks r)) (run_acts example_kio_io ?ts
      (control_steps 3 @ [Act_Control (example_run_choice\<lparr>rc_kthread_run := Some (- 12)\<rparr>)]) run_init)
    = Some [0, - 12]"
    by code_simp
  then obtain r where r: "(run_step example_kio_io ?ts)\<^sup>*\<^sup>* run_init r"
    and "map (\<lambda>t. case t of Err_Task e \<Rightarrow> e | _ \<Rightarrow> 0) (r_tasks r) = [0, - 12]"
    by (rule run_acts_reach)
  then have "Err_Task (- 12) \<in> set (tl (r_tasks r))"
    by (auto split: task.splits)
  with later_thread_failure_never_returns [OF r this, of "- 12"] r show ?thesis
    by blast
qed

section \<open>Faults of the controller\<close>













section \<open>Runs started through \<open>run_workload\<close>\<close>

lemma admit_valid:
  assumes "run_workload_admit env io is_running c = Inr (0, c')" and "t \<in> set (the (threads c'))"
  shows "thread_valid (dev_byte_size io) t"
proof -
  have v: "kio_config_is_valid env io c = Inr (True, c')"
    using assms(1) by (auto simp: run_workload_admit_def split: if_splits sum.splits)
  then obtain ts ts' where "kio_config_threads_are_valid env (dev_byte_size io) ts = (True, ts')" "c' = c\<lparr>threads := Some ts'\<rparr>"
    by (auto simp: kio_config_is_valid_def kio_io_dev_byte_size_def split: if_splits sum.splits prod.splits)
  with assms(2) show ?thesis
    by (auto simp: threads_are_valid_iff list_all_iff thread_acceptable_def)
qed

lemma busy_store_iff:
  assumes "run_workload_admit env io True c = Inr (- EBUSY, c)"
  shows "kio_run_workload_store env io True len c res c' running \<longleftrightarrow> res = - EBUSY \<and> c' = c \<and> running"
proof
  assume "kio_run_workload_store env io True len c res c' running"
  then show "res = - EBUSY \<and> c' = c \<and> running"
    by (rule run_workload_storeE) (use assms in auto)
next
  assume "res = - EBUSY \<and> c' = c \<and> running"
  then show "kio_run_workload_store env io True len c res c' running"
    using kio_run_workload_store.refused [OF assms, of len] by simp
qed

text \<open>The worker of a run on valid configurations, which asks for blocks of one page.\<close>

lemma valid_worker:
  assumes "\<forall>t \<in> set ts. thread_valid (dev_byte_size io) t"
    and "(run_step io ts)\<^sup>*\<^sup>* run_init r" and "i < length (r_tasks r)" and "r_tasks r ! i = Task w"
  shows "thread_valid (dev_byte_size io) (ts ! i)" and "ktc_block_size (ts ! i) = 4096"
    and "(worker_step io (ts ! i))\<^sup>*\<^sup>* (worker_init (of_nat i)) w"
proof -
  have inv: "control_inv ts r"
    using run_inv_reach [OF assms(2)] by (simp add: run_inv_def)
  then have len: "length (r_tasks r) = length ts"
    using assms(3,4)
    by (cases "r_pc r") (auto simp: control_inv_def place_inv_def active_inv_def returned_inv_def)
  show "(worker_step io (ts ! i))\<^sup>*\<^sup>* (worker_init (of_nat i)) w"
    using assms(2-4) by (rule run_task_reach)
  have "ts ! i \<in> set ts"
    using len assms(3) by simp
  then show "thread_valid (dev_byte_size io) (ts ! i)"
    using assms(1) by blast
  show "ktc_block_size (ts ! i) = 4096"
    using tasks_small_blocks [OF inv] assms(3) \<open>ts ! i \<in> set ts\<close>
    by (metis length_0_conv not_less_zero small_blocks_def)
qed

definition example_run_config :: kio_config where
  "example_run_config = \<lparr>runtime_seconds = 10, num_threads = 1, threads = Some [example_valid_thread]\<rparr>"

lemma example_run_admitted:
  "run_workload_admit example_env example_kio_io False example_run_config = Inr (0, example_run_config)"
  by code_simp

text \<open>C30: The result of the run is not reported.  When a configuration passes the validation but asks for blocks
  other than 4096 bytes, which the validation allows and \<open>kio_run\<close> refuses, a write to \<open>run_workload\<close> does
  exactly one thing: it returns the number of bytes written, as after a successful run, without
  running anything.\<close>

theorem refused_run_reports_success:
  assumes "run_workload_admit env io is_running c = Inr (0, c')"
    and "\<exists>t \<in> set (take (unat (num_threads c')) (the (threads c'))). ktc_block_size t \<noteq> 4096"
  shows "kio_run_workload_store env io is_running len c res c'' running
    \<longleftrightarrow> res = int_of_count len \<and> c'' = c' \<and> \<not> running"
proof -
  let ?ts = "take (unat (num_threads c')) (the (threads c'))"
  have run: "kio_run io ?ts rc b \<longleftrightarrow> rc = - ERANGE \<and> \<not> b" for rc b
  proof
    assume "kio_run io ?ts rc b"
    then obtain r where "(run_step io ?ts)\<^sup>*\<^sup>* run_init r" "r_pc r = Returned rc" "kio_is_running r = b"
      by (auto simp: kio_run_def)
    with run_inv_reach [of io ?ts r] assms(2) show "rc = - ERANGE \<and> \<not> b"
      by (auto simp: run_inv_def control_inv_def place_inv_def returned_inv_def small_blocks_def kio_is_running_def)
  next
    assume "rc = - ERANGE \<and> \<not> b"
    moreover have "kio_run_step ?ts example_run_choice run_init = Some (run_init\<lparr>r_pc := Returned (- ERANGE)\<rparr>)"
      using assms(2) by (auto simp: kio_run_step_def run_init_def list_ex_iff)
    then have "(run_step io ?ts)\<^sup>*\<^sup>* run_init (run_init\<lparr>r_pc := Returned (- ERANGE)\<rparr>)"
      by (blast intro: run_step.control)
    ultimately show "kio_run io ?ts rc b"
      unfolding kio_run_def by (intro exI [of _ "run_init\<lparr>r_pc := Returned (- ERANGE)\<rparr>"])
        (auto simp: kio_is_running_def run_init_def)
  qed
  then have "kio_run_workload_store env io is_running len c (int_of_count len) c' False"
    using kio_run_workload_store.started [OF assms(1), of "- ERANGE" False len] by blast
  moreover have "res = int_of_count len \<and> c'' = c' \<and> \<not> running"
    if "kio_run_workload_store env io is_running len c res c'' running"
    using that by (rule run_workload_storeE) (use assms(1) run in auto)
  ultimately show ?thesis
    by (cases running) auto
qed

theorem refused_run_reports_success_witness:
  "kio_run_workload_store example_env example_kio_io False 2
     (example_run_config\<lparr>threads := Some [example_valid_thread\<lparr>ktc_block_size := 8192, ktc_offset_high := 1073733632\<rparr>]\<rparr>) 2
     (example_run_config\<lparr>threads := Some [example_valid_thread\<lparr>ktc_block_size := 8192, ktc_offset_high := 1073733632\<rparr>]\<rparr>) False"
proof -
  let ?c = "example_run_config\<lparr>threads := Some [example_valid_thread\<lparr>ktc_block_size := 8192, ktc_offset_high := 1073733632\<rparr>]\<rparr>"
  have a: "run_workload_admit example_env example_kio_io False ?c = Inr (0, ?c)"
    by code_simp
  have "\<exists>t \<in> set (take (unat (num_threads ?c)) (the (threads ?c))). ktc_block_size t \<noteq> 4096"
    by (simp add: example_run_config_def)
  moreover have "int_of_count 2 = 2"
    by code_simp
  ultimately show ?thesis
    using refused_run_reports_success [OF a, of 2 2 ?c False] by simp
qed

text \<open>C28: A failed start wedges the driver.  For every configuration that is admitted with blocks of 4096 bytes,
  a write to \<open>run_workload\<close> during which the threads cannot be allocated returns the number of bytes written
  and leaves \<open>kio_running\<close> set; from then on every further write is refused with \<open>-EBUSY\<close> and changes
  nothing.\<close>

theorem failed_start_wedges:
  assumes "run_workload_admit env io is_running c = Inr (0, c')"
    and "\<forall>t \<in> set (take (unat (num_threads c')) (the (threads c'))). ktc_block_size t = 4096"
  shows "kio_run_workload_store env io is_running len c (int_of_count len) c' True
    \<and> (kio_run_workload_store env io True len' c' res c'' running \<longleftrightarrow> res = - EBUSY \<and> c'' = c' \<and> running)
    \<and> serve (kio_config_request env True) reqs c' = Inr (replicate (length reqs) (- EBUSY), c')"
proof -
  let ?ts = "take (unat (num_threads c')) (the (threads c'))"
  let ?r1 = "run_init\<lparr>r_running := True, r_pc := Run_Alloc\<rparr>"
  have "kio_run_step ?ts example_run_choice run_init = Some ?r1"
    using assms(2) by (auto simp: kio_run_step_def run_init_def list_ex_iff)
  moreover have "kio_run_step ?ts (example_run_choice\<lparr>rc_kzalloc := False\<rparr>) ?r1 = Some (?r1\<lparr>r_pc := Returned (- ENOMEM)\<rparr>)"
    by (simp add: kio_run_step_def)
  ultimately have "(run_step io ?ts)\<^sup>*\<^sup>* run_init (?r1\<lparr>r_pc := Returned (- ENOMEM)\<rparr>)"
    by (meson run_step.control r_into_rtranclp rtranclp.rtrancl_into_rtrancl)
  then have "kio_run io ?ts (- ENOMEM) True"
    unfolding kio_run_def by (intro exI [of _ "?r1\<lparr>r_pc := Returned (- ENOMEM)\<rparr>"]) (simp add: kio_is_running_def)
  then have "kio_run_workload_store env io is_running len c (int_of_count len) c' True"
    using assms(1) by (rule kio_run_workload_store.started [rotated])
  moreover have "run_workload_admit env io True c' = Inr (- EBUSY, c')"
    by (simp add: run_workload_admit_def)
  then have "kio_run_workload_store env io True len' c' res c'' running \<longleftrightarrow> res = - EBUSY \<and> c'' = c' \<and> running"
    by (rule busy_store_iff)
  ultimately show ?thesis
    using config_requests.serve_guarded by blast
qed

theorem failed_start_wedges_witness:
  "kio_run_workload_store example_env example_kio_io False 2 example_run_config 2 example_run_config True"
proof -
  have "\<forall>t \<in> set (take (unat (num_threads example_run_config)) (the (threads example_run_config))). ktc_block_size t = 4096"
    by (simp add: example_run_config_def example_valid_thread_def example_thread_def)
  moreover have "int_of_count 2 = 2"
    by code_simp
  ultimately show ?thesis
    using failed_start_wedges [OF example_run_admitted, of 2] by metis
qed

end
