(* ===== verification/Kio_Main.thy ===== *)
theory Kio_Main
  imports Kio_Run_Props
begin

text \<open>
  \<open>driver/kio_main.c\<close>: loading and unloading the module, as the composition of the initialisation and exit
  of the configuration and of the device.  The trace of a call says in which order the resources of the two
  components are acquired and released.
\<close>

section \<open>State and operations\<close>

datatype kio_res = Cfg_Res cfg_res | Io_Res io_res

record kio_module =
  m_kobj :: "kobj option"
  m_config :: kio_config
  m_io :: kio_io

abbreviation cfg_events :: "cfg_res res_event list \<Rightarrow> kio_res res_event list" where
  "cfg_events \<equiv> map (map_res_event Cfg_Res)"

abbreviation io_events :: "io_res res_event list \<Rightarrow> kio_res res_event list" where
  "io_events \<equiv> map (map_res_event Io_Res)"

definition kio_init :: "cfg_env \<Rightarrow> io_env \<Rightarrow> fault + int \<times> kio_module \<times> kio_res res_event list" where
  "kio_init cenv ienv =
     (let (rc, k, c, es) = kio_config_init cenv in
      if rc \<noteq> 0 then Inr (rc, \<lparr>m_kobj = k, m_config = c, m_io = kio_io_zero\<rparr>, cfg_events es)
      else
        (let (rc', io, es') = kio_io_init ienv kio_io_zero in
         if rc' \<noteq> 0 then
           (case kio_config_exit k c of
              Inl f \<Rightarrow> Inl f
            | Inr (c', es'') \<Rightarrow>
                Inr (rc', \<lparr>m_kobj = k, m_config = c', m_io = io\<rparr>, cfg_events es @ io_events es' @ cfg_events es''))
         else Inr (0, \<lparr>m_kobj = k, m_config = c, m_io = io\<rparr>, cfg_events es @ io_events es')))"

definition kio_exit :: "kio_module \<Rightarrow> fault + kio_module \<times> kio_res res_event list" where
  "kio_exit m =
     (let (io, es) = kio_io_exit (m_io m) in
      case kio_config_exit (m_kobj m) (m_config m) of
        Inl f \<Rightarrow> Inl f
      | Inr (c, es') \<Rightarrow> Inr (m\<lparr>m_io := io, m_config := c\<rparr>, io_events es @ cfg_events es'))"

section \<open>The initialisation\<close>

lemma config_init_ok:
  assumes "kio_config_init env = (0, k, c, es)"
  obtains k0 where "k = Some k0" "c = kio_config_zero" "es = [Acq (Kobj k0)]"
proof (cases "kobject_create_and_add env ''kio''")
  case (Some k0)
  with assms show ?thesis
    by (intro that [of k0]) (auto simp: kio_config_init_def Let_def split: if_splits)
qed (use assms in \<open>simp add: kio_config_init_def\<close>)

lemma config_init_failed:
  assumes "kio_config_init env = (rc, k, c, es)" and "rc \<noteq> 0"
  shows "es = [] \<or> (\<exists>k0. es = [Acq (Kobj k0), Rel (Kobj k0)])"
  using assms by (auto simp: kio_config_init_def Let_def split: option.splits if_splits)

lemma config_exit_zero: "kio_config_exit (Some k) kio_config_zero = Inr (kio_config_zero, [Rel (Kobj k)])"
  by (simp add: kio_config_exit_def kio_config_destroy_all_threads_def config_threads_def kio_config_zero_def
        put_kobjs_def List.map_filter_def)

lemma kio_init_ok:
  assumes "kio_init cenv ienv = Inr (0, m, es)"
  obtains k0 where "m_kobj m = Some k0" "m_config m = kio_config_zero"
    "kio_io_init ienv kio_io_zero = (0, m_io m, [Acq (Dev_Name 0), Acq Bdev_Excl, Acq Bio_Set])"
    "es = map Acq [Cfg_Res (Kobj k0), Io_Res (Dev_Name 0), Io_Res Bdev_Excl, Io_Res Bio_Set]"
proof -
  obtain rc k c fs where ci: "kio_config_init cenv = (rc, k, c, fs)"
    by (metis prod_cases4)
  obtain rc' io gs where ii: "kio_io_init ienv kio_io_zero = (rc', io, gs)"
    by (metis prod_cases3)
  have z: "rc = 0" "rc' = 0" and m: "m = \<lparr>m_kobj = k, m_config = c, m_io = io\<rparr>"
    and es: "es = cfg_events fs @ io_events gs"
    using assms ci ii by (auto simp: kio_init_def split: if_splits sum.splits)
  from ii z have "gs = [Acq (Dev_Name 0), Acq Bdev_Excl, Acq Bio_Set]"
    by (auto elim: kio_io_init_ok)
  moreover obtain k0 where "k = Some k0" "c = kio_config_zero" "fs = [Acq (Kobj k0)]"
    using ci z by (auto elim: config_init_ok)
  ultimately show ?thesis
    using ii z m es by (intro that [of k0]) simp_all
qed

text \<open>The exit of the configuration after the threads were created.\<close>

lemma config_exit_created:
  assumes "kio_num_threads_store env False buf len kio_config_zero = Inr (rc, c, es)" and "threads c \<noteq> None"
  obtains ks where "es = map Acq (Threads_Array # map Kobj ks)"
    "kio_config_exit (Some k0) c = Inr (c\<lparr>threads := None\<rparr>, map Rel (map Kobj ks @ [Threads_Array, Kobj k0]))"
proof -
  have "threads kio_config_zero = None"
    by (simp add: kio_config_zero_def)
  with assms obtain n ts ks where adm: "num_threads_admitted env buf kio_config_zero n"
    and c: "c = kio_config_zero\<lparr>num_threads := n, threads := Some ts\<rparr>"
    and es: "es = map Acq (Threads_Array # map Kobj ks)" and put: "put_kobjs ts = map Rel (map Kobj ks)"
    by (rule num_threads_store_created)
  have "n \<noteq> 0"
    using adm by (auto simp: num_threads_admitted_def)
  then show ?thesis
    using es by (intro that [of ks])
      (simp_all add: kio_config_exit_def kio_config_destroy_all_threads_def config_threads_def c put)
qed

text \<open>The two circumstances in which the initialisation of the device releases something that it does not hold: a path
  with leading blanks, and a device that was opened but refuses the block size or is too small.\<close>

definition trimmed_path :: "io_env \<Rightarrow> (nat \<times> string) option" where
  "trimmed_path env = Option.bind (kio_block_device env) (\<lambda>path. strim env (kstrdup env path))"

definition leading_blanks :: "io_env \<Rightarrow> bool" where
  "leading_blanks env = (case trimmed_path env of None \<Rightarrow> False | Some (off, name) \<Rightarrow> off \<noteq> 0)"

definition device_refused :: "io_env \<Rightarrow> bool" where
  "device_refused env =
     (case trimmed_path env of
        None \<Rightarrow> False
      | Some (off, name) \<Rightarrow>
          (case blkdev_get_by_path env name of
             Bdev_Ok bd \<Rightarrow> bd_disk bd \<and> bd_queue bd \<and> (set_blocksize env \<noteq> 0 \<or> i_size_read env < 1073741824)
           | _ \<Rightarrow> False))"

text \<open>The trace of a failed initialisation of the device.\<close>

lemma io_init_failed:
  assumes "kio_io_init env io = (rc, io', es)" and "rc \<noteq> 0"
  obtains (nothing) "es = []" "\<not> leading_blanks env" "\<not> device_refused env"
  | (path) off where "leading_blanks env \<longleftrightarrow> off \<noteq> 0" "\<not> device_refused env" "es = [Acq (Dev_Name 0), Rel (Dev_Name off)]"
  | (opened) off where "leading_blanks env \<longleftrightarrow> off \<noteq> 0" "\<not> device_refused env"
      "es = [Acq (Dev_Name 0), Acq Bdev_Excl, Rel Bdev_Excl, Rel (Dev_Name off)]"
  | (refused) off where "device_refused env"
      "es = [Acq (Dev_Name 0), Acq Bdev_Excl, Rel Bio_Set, Rel Bdev_Excl, Rel (Dev_Name off)]"
proof (cases "trimmed_path env")
  case None
  then have "es = []"
    using assms(1) by (auto simp: trimmed_path_def kio_io_init_def split: option.splits)
  moreover have "\<not> leading_blanks env" "\<not> device_refused env"
    using None by (simp_all add: leading_blanks_def device_refused_def)
  ultimately show ?thesis
    by (rule nothing)
next
  case (Some p)
  obtain off name where p: "p = (off, name)"
    by fastforce
  then obtain dev where dev: "kio_block_device env = Some dev" "strim env (kstrdup env dev) = Some (off, name)"
    using Some by (auto simp: trimmed_path_def bind_eq_Some_conv)
  have lb: "leading_blanks env \<longleftrightarrow> off \<noteq> 0"
    using Some p by (simp add: leading_blanks_def)
  show ?thesis
  proof (cases "blkdev_get_by_path env name")
    case (Bdev_Ok bd)
    with Some p dev lb assms opened [of off] refused [of off] show ?thesis
      by (auto simp: device_refused_def kio_io_init_def Let_def err_release_dev_name_def err_no_queue_def
            err_put_back_bd_def split: if_splits)
  qed (use Some p dev lb assms path [of off] in \<open>auto simp: device_refused_def kio_io_init_def Let_def
         err_release_dev_name_def\<close>)
qed

end
