(* ===== verification/Kio_Run_Finish.thy ===== *)
theory Kio_Run_Finish
  imports Kio_Run_Props
begin

text \<open>
  A run can be brought to its end.  As long as no submission has failed, no thread has ended by itself and every
  thread was created, some schedule stops and joins all threads.  The worker's part is a terminating system whose
  steps submit successfully.
\<close>

section \<open>A worker that submits successfully\<close>

definition good_step :: "kio_io \<Rightarrow> kio_thread_config \<Rightarrow> worker \<Rightarrow> worker \<Rightarrow> bool" where
  "good_step io ktc w w' \<longleftrightarrow> quiet_step io ktc w w' \<and> w_lost w' = []"

definition has_disk :: "kio_io \<Rightarrow> bool" where
  "has_disk io \<longleftrightarrow> (case bdev io of None \<Rightarrow> False | Some bd \<Rightarrow> bd_disk bd)"

definition finish_live :: "kio_io \<Rightarrow> kio_thread_config \<Rightarrow> worker \<Rightarrow> bool" where
  "finish_live io ktc w \<longleftrightarrow> stop_live io ktc w \<and> offset_inv io ktc w \<and> has_disk io \<and> w_lost w = []"

definition finish_final :: "worker \<Rightarrow> bool" where
  "finish_final w \<longleftrightarrow> w_pc w = Exited \<and> w_bios w = []"

text \<open>The kernel's answers with which a request of one block is submitted.\<close>

definition granting :: "kio_thread_config \<Rightarrow> choice" where
  "granting ktc = \<lparr>c_ktime = 0, c_page = None, c_rnd_dir = 0, c_rnd_lo = 0, c_rnd_hi = 0,
     c_submit = \<lparr>page_size = ucast (ktc_block_size ktc), bio_alloc_bioset = True, submit_ktime = 0,
       bio_add_page = 1, bio_bvec_ok = True, io_submit_mode = 0, sub_compat = kio_compat 0\<rparr>,
     c_jiffies = (\<lambda>u. 0)\<rparr>"

lemma granted_submit:
  assumes "page_inv w" and "offset_inv io ktc w" and "has_disk io" and "w_pc w = Submit" and "\<not> w_asleep w"
  shows "\<exists>w'. kio_thread_fn_step io ktc (granting ktc) w = Some w' \<and> w_lost w' = w_lost w"
proof -
  obtain p where p: "w_page w = Some p"
    using assms(1,4) by (auto simp: page_inv_def holds_page_def)
  have off: "kio_io_offset_is_valid io (w_offset w) (page_size (c_submit (granting ktc))) = Inr True"
    using assms(2,4) by (simp add: offset_inv_def granting_def)
  obtain bd where "bdev io = Some bd" "bd_disk bd"
    using assms(3) by (auto simp: has_disk_def split: option.splits)
  from submit_ok [OF off this, of p] obtain evs where
    "kio_io_submit (c_submit (granting ktc)) io (w_offset w) (w_page w) (dir_is_write (w_dir w))
       (unat (th_index (w_th w))) = Inr (0, evs)"
    using p by (fastforce simp: granting_def)
  then show ?thesis
    using assms(4,5) by (simp add: thread_step_simps submit_step_def)
qed

lemma good_progress:
  assumes "finish_live io ktc w" and "w_bios w = []" and "w_pc w \<noteq> Exited"
  shows "\<exists>c w'. kio_thread_fn_step io ktc c w = Some w' \<and> w_lost w' = []"
proof -
  have awake: "\<not> w_asleep w"
    using asleep_lost [of ktc w] assms by (auto simp: finish_live_def stop_live_def worker_inv_def)
  show ?thesis
  proof (cases "w_pc w = Submit")
    case True
    with awake assms(1) granted_submit [of w io ktc] show ?thesis
      by (auto simp: finish_live_def stop_live_def worker_inv_def)
  next
    case False
    obtain c w' where s: "kio_thread_fn_step io ktc c w = Some w'"
      using thread_progress [OF awake assms(3), of io ktc] assms(1) by (auto simp: finish_live_def stop_live_def)
    from thread_step_frame [OF s False] s assms(1) show ?thesis
      by (auto simp: finish_live_def)
  qed
qed

lemma thread_step_quiet:
  assumes "kio_thread_fn_step io ktc c w = Some w'" and "page_inv w"
  shows "quiet_step io ktc w w'"
proof -
  have "w_signal w' = w_signal w"
    using assms by (cases rule: thread_step_cases) (use thread_step_frame [OF assms(1)] in auto)
  then show ?thesis
    using assms(1) thread_step_should_stop [OF assms(1)] by (auto simp: quiet_step_def intro: worker_step.thread)
qed

interpretation finishing: terminating_system "good_step io ktc" "finish_live io ktc" finish_final worker_variant
  for io ktc
proof unfold_locales
  fix s t
  assume st: "good_step io ktc s t" and live: "finish_live io ktc s"
  then show "worker_variant t < worker_variant s"
    by (auto simp: good_step_def finish_live_def intro: stopping.variant_step)
  have "page_inv s"
    using live by (simp add: finish_live_def stop_live_def worker_inv_def)
  with st live show "finish_live io ktc t"
    by (auto simp: good_step_def finish_live_def quiet_step_def intro: stopping.live_step offset_inv_step)
next
  fix s
  assume live: "finish_live io ktc s" and nf: "\<not> finish_final s"
  show "\<exists>t. good_step io ktc s t"
  proof (cases "w_bios s")
    case Nil
    with live nf obtain c t where "kio_thread_fn_step io ktc c s = Some t" "w_lost t = []"
      using good_progress by (fastforce simp: finish_final_def)
    with live show ?thesis
      by (auto simp: good_step_def finish_live_def stop_live_def worker_inv_def intro: thread_step_quiet)
  next
    case (Cons p ps)
    obtain st b where "p = (st, b)"
      by fastforce
    with Cons have "worker_step io ktc s (completion_effect 0 st b (s\<lparr>w_bios := [] @ next_bio st b @ ps\<rparr>))"
      by (intro worker_step.complete) simp
    with live show ?thesis
      by (auto simp: good_step_def quiet_step_def finish_live_def)
  qed
qed

lemma reach_finish_live:
  assumes "(worker_step io ktc)\<^sup>*\<^sup>* (worker_init i) w" and "thread_valid (dev_byte_size io) ktc"
    and "dev_block_size io \<noteq> 0" and "has_disk io" and "w_lost w = []" and "w_should_stop w"
  shows "finish_live io ktc w"
proof -
  have d: "depth_ok ktc" and b: "bdev io \<noteq> None"
    using assms(2,4) thread_valid_depth_ok by (auto simp: has_disk_def split: option.splits)
  show ?thesis
    using depth_inv_reach [OF assms(1) d] sleep_inv_reach [OF assms(1)] offset_inv_reach [OF assms(1-3)] reach_not_trapped [OF assms(1) b assms(3)]
      d b assms(3-6)
    by (simp add: finish_live_def stop_live_def)
qed

section \<open>The workers inside a run\<close>

lemma run_work_steps:
  assumes "(good_step io (ts ! i))\<^sup>*\<^sup>* w w'" and "i < length ts" and "i < length (r_tasks r)" and "r_tasks r ! i = Task w"
  shows "(run_step io ts)\<^sup>*\<^sup>* r (r\<lparr>r_tasks := (r_tasks r)[i := Task w']\<rparr>)"
  using assms(1)
proof (induction rule: rtranclp_induct)
  case base
  have "(r_tasks r)[i := Task w] = r_tasks r"
    using assms(4) by (metis list_update_id)
  then show ?case by simp
next
  case (step x y)
  let ?r = "r\<lparr>r_tasks := (r_tasks r)[i := Task x]\<rparr>"
  have "run_step io ts ?r (?r\<lparr>r_tasks := (r_tasks ?r)[i := Task y]\<rparr>)"
    using step(2) assms(2,3) by (intro run_step.work) (auto simp: good_step_def quiet_step_def)
  with step(3) show ?case
    by (simp add: rtranclp.rtrancl_into_rtrancl)
qed

text \<open>Every thread was created, none has lost a request, and none has ended by itself.\<close>

fun sound_task :: "task \<Rightarrow> bool" where
  "sound_task (Task w) \<longleftrightarrow> w_lost w = [] \<and> (w_pc w = Exited \<longrightarrow> w_should_stop w)"
| "sound_task (Err_Task e) \<longleftrightarrow> False"
| "sound_task No_Task \<longleftrightarrow> True"

definition sound_tasks :: "task list \<Rightarrow> bool" where
  "sound_tasks tasks \<longleftrightarrow> list_all sound_task tasks"

lemma sound_tasks_nth: "sound_tasks tasks \<Longrightarrow> i < length tasks \<Longrightarrow> sound_task (tasks ! i)"
  by (simp add: sound_tasks_def list_all_length)

lemma sound_tasks_update: "sound_tasks tasks \<Longrightarrow> sound_task t \<Longrightarrow> sound_tasks (tasks[i := t])"
  by (simp add: sound_tasks_def list_all_update)

lemma join_completes:
  assumes "(run_step io ts)\<^sup>*\<^sup>* run_init r" and "r_pc r = Join i" and "sound_tasks (r_tasks r)"
    and "\<forall>t \<in> set ts. thread_valid (dev_byte_size io) t" and "dev_block_size io \<noteq> 0" and "has_disk io"
    and "\<And>w. r_tasks r ! i = Task w \<Longrightarrow> w_should_stop w"
  shows "\<exists>r'. (run_step io ts)\<^sup>*\<^sup>* r r' \<and> r_pc r' = Stop (Suc i) \<and> sound_tasks (r_tasks r')"
proof -
  have "control_inv ts r"
    using run_inv_reach [OF assms(1)] by (simp add: run_inv_def)
  with assms(2) have i: "i < length ts" "length (r_tasks r) = length ts" "is_task (r_tasks r ! i)"
    by (auto simp: control_inv_def place_inv_def active_inv_def)
  then obtain w where w: "r_tasks r ! i = Task w"
    by (cases "r_tasks r ! i") auto
  have reach: "(worker_step io (ts ! i))\<^sup>*\<^sup>* (worker_init (of_nat i)) w"
    using assms(1) i w by (intro run_task_reach) auto
  have "finish_live io (ts ! i) w"
    using reach assms i w sound_tasks_nth [OF assms(3), of i] by (intro reach_finish_live) auto
  then obtain w' where w': "(good_step io (ts ! i))\<^sup>*\<^sup>* w w'" "finish_final w'" "finish_live io (ts ! i) w'"
    using finishing.reaches_final by blast
  let ?r = "r\<lparr>r_tasks := (r_tasks r)[i := Task w']\<rparr>"
  have "(run_step io ts)\<^sup>*\<^sup>* r ?r"
    using w'(1) i w by (intro run_work_steps) auto
  moreover have "run_step io ts ?r (?r\<lparr>r_pc := Stop (Suc i)\<rparr>)"
    using assms(2) w'(2) i by (intro run_step.control [of _ undefined]) (simp add: kio_run_step_def finish_final_def)
  moreover have "sound_tasks (r_tasks ?r)"
    using assms(3) w'(3) by (auto simp: finish_live_def stop_live_def intro: sound_tasks_update)
  ultimately show ?thesis
    by (intro exI [of _ "?r\<lparr>r_pc := Stop (Suc i)\<rparr>"]) (auto intro: rtranclp.rtrancl_into_rtrancl)
qed

lemma control_step: "kio_run_step ts c r = Some r' \<Longrightarrow> (run_step io ts)\<^sup>*\<^sup>* r r'"
  by (auto intro: run_step.control)

lemma stop_one:
  assumes "\<forall>t \<in> set ts. thread_valid (dev_byte_size io) t" and "dev_block_size io \<noteq> 0" and "has_disk io"
    and "(run_step io ts)\<^sup>*\<^sup>* run_init r" and "r_pc r = Stop i" and "sound_tasks (r_tasks r)" and "i < length ts"
  shows "\<exists>r'. (run_step io ts)\<^sup>*\<^sup>* r r' \<and> r_pc r' = Stop (Suc i) \<and> sound_tasks (r_tasks r')"
proof -
  have inv: "control_inv ts r" "request_inv r"
    using run_inv_reach [OF assms(4)] by (simp_all add: run_inv_def)
  with assms(5) have len: "length (r_tasks r) = length ts"
    by (simp add: control_inv_def place_inv_def active_inv_def)
  show ?thesis
  proof (cases "r_tasks r ! i")
    case No_Task
    then have "kio_run_step ts undefined r = Some (r\<lparr>r_pc := Stop (Suc i)\<rparr>)"
      using assms(5,7) by (simp add: kio_run_step_def)
    from control_step [OF this] assms(6) show ?thesis
      by (intro exI [of _ "r\<lparr>r_pc := Stop (Suc i)\<rparr>"]) simp
  next
    case (Err_Task e)
    with assms(6,7) len sound_tasks_nth [of "r_tasks r" i] show ?thesis
      by simp
  next
    case (Task w)
    let ?r = "r\<lparr>r_tasks := (r_tasks r)[i := Task (request_stop w)], r_pc := Join i\<rparr>"
    have sound: "sound_task (Task w)" and "\<not> w_should_stop w"
      using sound_tasks_nth [OF assms(6), of i] inv assms(5,7) len Task by (auto simp: request_inv_def)
    then have st: "(run_step io ts)\<^sup>*\<^sup>* r ?r"
      using assms(5,7) Task by (intro control_step [of _ undefined]) (simp add: kio_run_step_def)
    then have "(run_step io ts)\<^sup>*\<^sup>* run_init ?r"
      using assms(4) by simp
    moreover have "sound_tasks (r_tasks ?r)"
      using assms(6) sound by (simp add: sound_tasks_update)
    ultimately have "\<exists>r'. (run_step io ts)\<^sup>*\<^sup>* ?r r' \<and> r_pc r' = Stop (Suc i) \<and> sound_tasks (r_tasks r')"
      using assms(1-3,7) len by (intro join_completes) auto
    with st show ?thesis
      by (meson rtranclp_trans)
  qed
qed

lemma stop_completes:
  assumes "\<forall>t \<in> set ts. thread_valid (dev_byte_size io) t" and "dev_block_size io \<noteq> 0" and "has_disk io"
    and "(run_step io ts)\<^sup>*\<^sup>* run_init r" and "r_pc r = Stop i" and "sound_tasks (r_tasks r)"
  shows "\<exists>r'. (run_step io ts)\<^sup>*\<^sup>* r r' \<and> r_pc r' = Stopped"
  using assms(4-6)
proof (induction "length ts - i" arbitrary: r i)
  case 0
  have "kio_run_step ts undefined r = Some (r\<lparr>r_pc := Stopped\<rparr>)"
    using 0 by (simp add: kio_run_step_def)
  from control_step [OF this] show ?case
    by (intro exI [of _ "r\<lparr>r_pc := Stopped\<rparr>"]) simp
next
  case (Suc m)
  then have i: "i < length ts" and m: "m = length ts - Suc i"
    by simp_all
  from stop_one [OF assms(1-3) Suc.prems i] obtain r1 where
    r1: "(run_step io ts)\<^sup>*\<^sup>* r r1" "r_pc r1 = Stop (Suc i)" "sound_tasks (r_tasks r1)"
    by blast
  then have "(run_step io ts)\<^sup>*\<^sup>* run_init r1"
    using Suc.prems(1) by simp
  from Suc.hyps(1) [OF m this r1(2,3)] r1(1) show ?case
    by (meson rtranclp_trans)
qed

section \<open>The controller\<close>

lemma spawn_completes:
  assumes "(run_step io ts)\<^sup>*\<^sup>* run_init r" and "r_pc r = Spawn i" and "sound_tasks (r_tasks r)"
  shows "\<exists>r'. (run_step io ts)\<^sup>*\<^sup>* r r' \<and> r_pc r' = Wait_Timeout \<and> sound_tasks (r_tasks r')"
  using assms
proof (induction "length ts - i" arbitrary: r i)
  case 0
  have "kio_run_step ts undefined r = Some (r\<lparr>r_pc := Wait_Timeout\<rparr>)"
    using 0 by (simp add: kio_run_step_def)
  from control_step [OF this] 0 show ?case
    by (intro exI [of _ "r\<lparr>r_pc := Wait_Timeout\<rparr>"]) simp
next
  case (Suc m)
  let ?r = "r\<lparr>r_tasks := (r_tasks r)[i := Task (worker_init (of_nat i))], r_pc := Spawn (Suc i)\<rparr>"
  have st: "(run_step io ts)\<^sup>*\<^sup>* r ?r"
    using Suc by (intro control_step [of _ example_run_choice])
      (simp add: kio_run_step_def example_run_choice_def)
  moreover have "sound_tasks (r_tasks ?r)"
    using Suc.prems(3) by (simp add: sound_tasks_update worker_init_def)
  ultimately have "\<exists>r'. (run_step io ts)\<^sup>*\<^sup>* ?r r' \<and> r_pc r' = Wait_Timeout \<and> sound_tasks (r_tasks r')"
    using Suc.prems(1) Suc.hyps(2) by (intro Suc.hyps(1)) auto
  with st show ?case
    by (meson rtranclp_trans)
qed

lemma wait_completes:
  assumes "r_pc r = Wait_Timeout \<or> r_pc r = Wait_Done" and "sound_tasks (r_tasks r)"
  shows "\<exists>r'. (run_step io ts)\<^sup>*\<^sup>* r r' \<and> r_pc r' = Stop 0 \<and> sound_tasks (r_tasks r')"
proof -
  have "(run_step io ts)\<^sup>*\<^sup>* r (r\<lparr>r_pc := Wait_Done\<rparr>)"
  proof (cases "r_pc r = Wait_Done")
    case True
    then have "r\<lparr>r_pc := Wait_Done\<rparr> = r"
      by (cases r) simp
    then show ?thesis by simp
  next
    case False
    with assms(1) show ?thesis
      by (intro control_step [of _ example_run_choice])
         (simp add: kio_run_step_def example_run_choice_def)
  qed
  moreover have "(run_step io ts)\<^sup>*\<^sup>* (r\<lparr>r_pc := Wait_Done\<rparr>)
      (r\<lparr>r_result := (if emergency_stop r then - EINTR else r_result r), r_pc := Stop 0\<rparr>)"
    by (intro control_step [of _ undefined]) (simp add: kio_run_step_def emergency_stop_def)
  ultimately show ?thesis
    using assms(2)
    by (intro exI [of _ "r\<lparr>r_result := (if emergency_stop r then - EINTR else r_result r), r_pc := Stop 0\<rparr>"]) auto
qed

text \<open>Where the controller can be while the flag \<open>kio_running\<close> is set and the threads are allocated.\<close>

lemma running_places:
  assumes "control_inv ts r" and "r_running r" and "r_allocated r" and "\<And>f. r_pc r \<noteq> Run_Trapped f"
  obtains (spawn) i where "r_pc r = Spawn i" | (wait) "r_pc r = Wait_Timeout \<or> r_pc r = Wait_Done"
  | (stop) i where "r_pc r = Stop i" | (join) i where "r_pc r = Join i" | (stopped) "r_pc r = Stopped"
  using assms by (cases "r_pc r") (auto simp: control_inv_def place_inv_def returned_inv_def)

lemma running_stops:
  assumes "(run_step io ts)\<^sup>*\<^sup>* run_init r" and "r_running r" and "r_allocated r" and "\<And>f. r_pc r \<noteq> Run_Trapped f"
    and "sound_tasks (r_tasks r)"
    and "\<forall>t \<in> set ts. thread_valid (dev_byte_size io) t" and "dev_block_size io \<noteq> 0" and "has_disk io"
  shows "\<exists>r'. (run_step io ts)\<^sup>*\<^sup>* r r' \<and> r_pc r' = Stopped"
proof -
  have stop: "\<exists>r'. (run_step io ts)\<^sup>*\<^sup>* r r' \<and> r_pc r' = Stopped"
    if "(run_step io ts)\<^sup>*\<^sup>* r r1" "r_pc r1 = Stop i" "sound_tasks (r_tasks r1)" for r1 i
    using stop_completes [OF assms(6-8), of r1 i] that assms(1) by (meson rtranclp_trans)
  have inv: "control_inv ts r"
    using run_inv_reach [OF assms(1)] by (simp add: run_inv_def)
  from this assms(2-4) show ?thesis
  proof (cases rule: running_places)
    case (spawn i)
    with assms(1,5) spawn_completes wait_completes stop show ?thesis
      by (meson rtranclp_trans)
  next
    case wait
    with assms(5) wait_completes stop show ?thesis
      by meson
  next
    case (join i)
    have "w_should_stop w" if "r_tasks r ! i = Task w" for w
      using that join inv run_inv_reach [OF assms(1)]
      by (auto simp: run_inv_def request_inv_def control_inv_def place_inv_def active_inv_def)
    with join_completes [OF assms(1) join assms(5-8)] stop show ?thesis
      by blast
  qed (use assms(5) stop in blast)+
qed

text \<open>C7: From every state of a run in which its threads were created, none of them has lost a request and none has
  ended by itself without having been asked to, with a validated configuration and a device that has a disk, some
  continuation stops and joins every thread, clears \<open>kio_running\<close> and reaches the statistics.\<close>

theorem run_can_complete:
  assumes "(run_step io ts)\<^sup>*\<^sup>* run_init r" and "r_running r" and "r_allocated r" and "\<And>f. r_pc r \<noteq> Run_Trapped f"
    and "sound_tasks (r_tasks r)"
    and "\<forall>t \<in> set ts. thread_valid (dev_byte_size io) t" and "dev_block_size io \<noteq> 0" and "has_disk io"
  shows "\<exists>r'. (run_step io ts)\<^sup>*\<^sup>* r r' \<and> r_pc r' = Run_Report \<and> \<not> kio_is_running r' \<and> list_all joined (r_tasks r')"
proof -
  obtain r1 where r1: "(run_step io ts)\<^sup>*\<^sup>* r r1" "r_pc r1 = Stopped"
    using running_stops [OF assms] by blast
  have "(run_step io ts)\<^sup>*\<^sup>* run_init r1"
    using assms(1) r1(1) by simp
  then have "control_inv ts r1"
    using run_inv_reach by (simp add: run_inv_def)
  with r1(2) have "list_all joined (r_tasks r1)"
    by (auto simp: control_inv_def place_inv_def active_inv_def joined_upto_def list_all_length)
  moreover have "(run_step io ts)\<^sup>*\<^sup>* r1 (r1\<lparr>r_running := False, r_pc := Run_Report\<rparr>)"
    using r1(2) by (intro control_step [of _ undefined]) (simp add: kio_run_step_def)
  ultimately show ?thesis
    using r1(1) by (intro exI [of _ "r1\<lparr>r_running := False, r_pc := Run_Report\<rparr>"])
      (auto simp: kio_is_running_def)
qed

theorem run_can_complete_witness:
  "\<exists>r r'. r_pc r = Wait_Timeout \<and> (run_step example_kio_io [example_valid_thread])\<^sup>*\<^sup>* r r' \<and> r_pc r' = Run_Report
     \<and> \<not> kio_is_running r'"
proof -
  let ?f = "\<lambda>r. (r_pc r, r_running r, r_allocated r, map sound_task (r_tasks r))"
  have "map_option ?f (run_acts example_kio_io [example_valid_thread] (control_steps 4 @ work_steps 10) run_init)
    = Some (Wait_Timeout, True, True, [True])"
    by code_simp
  then obtain r where r: "(run_step example_kio_io [example_valid_thread])\<^sup>*\<^sup>* run_init r"
    and f: "?f r = (Wait_Timeout, True, True, [True])"
    by (rule run_acts_reach)
  then have "sound_tasks (r_tasks r)"
    by (auto simp: sound_tasks_def)
  moreover have "has_disk example_kio_io"
    by (simp add: has_disk_def example_kio_io_def example_bdev_def)
  ultimately show ?thesis
    using run_can_complete [OF r] f example_worker_valid example_worker_block_size by auto
qed

end
