(* ===== verification/Kio_Run_Report.thy ===== *)
theory Kio_Run_Report
  imports Kio_Run_Finish
begin

text \<open>
  The report of a run, from the worker's first step to the printed line: what a line says was completed is what
  the thread handed to the block layer.
\<close>

lemma unat_of_nat32: "n < 2 ^ 32 \<Longrightarrow> unat (of_nat n :: u32) = n"
  by (simp add: unsigned_of_nat take_bit_nat_eq_self)

lemma thread_step_index: "kio_thread_fn_step io ktc c w = Some w' \<Longrightarrow> th_index (w_th w') = th_index (w_th w)"
  by (cases "w_pc w")
     (auto simp: thread_step_simps submit_step_def dest!: next_dir_frame next_offset_frame
        split: if_splits option.splits sum.splits prod.splits)

lemma completion_index: "th_index (w_th (completion_effect now st b w)) = th_index (w_th w)"
  by (cases st) (simp_all add: completion_clat_def completion_dec_def completion_inc_def)

lemma worker_index:
  assumes "(worker_step io ktc)\<^sup>*\<^sup>* (worker_init i) w"
  shows "th_index (w_th w) = i"
  using assms
proof (rule workers.steps_invariant)
  show "th_index (w_th (worker_init i)) = i"
    by (simp add: worker_init_def)
qed (auto elim!: worker_stepE simp: thread_step_index completion_index)

text \<open>The lines of the threads, in their order.\<close>

lemma stats_threads_lines:
  "length (fst (stats_threads ths st)) = length ths
   \<and> (i < length ths \<longrightarrow> (\<exists>st'. fst (stats_threads ths st) ! i = fst (kio_run_stats_thread (fst (ths ! i)) (snd (ths ! i)) st')))"
proof (induction ths arbitrary: st i)
  case (Cons p ths)
  obtain ktc th where "p = (ktc, th)"
    by fastforce
  with Cons [of "snd (kio_run_stats_thread ktc th st)" "i - 1"] show ?case
    by (cases i) (auto simp: Let_def split: prod.splits, (metis fst_conv)+)
qed simp

lemma stats_line: "\<exists>rest. fst (kio_run_stats_thread ktc th st)
    = ''kio: thread['' @ dec_nat (unat (th_index th)) @ '']: completed='' @ dec_nat (unat (th_completed th)) @ '' lat='' @ rest"
  by (simp add: kio_run_stats_thread_def figures_text_def thread_figures_def Let_def)

text \<open>C16: The report counts what was submitted.  Suppose the run has stopped its threads with result 0 and prints its
  report without a fault, the configurations are valid, and of thread \<open>i\<close>: no signal was sent to it, none of its
  completion handlers is between its two counters at that moment, and it has handed over fewer than \<open>2^32\<close>
  requests.  Then the line printed for the thread carries its index, and says that as many requests were completed
  as the thread has handed to the block layer.  (With a handler between the counters the line is one short.)\<close>

theorem report_counts_submitted:
  assumes "(run_step io ts)\<^sup>*\<^sup>* run_init r" and "r_pc r = Run_Report"
    and "kio_run_step ts c r = Some r'" and "r_pc r' = Run_Free" and "r_result r = 0"
    and "\<forall>t \<in> set ts. thread_valid (dev_byte_size io) t" and "length ts < 2 ^ 32"
    and "i < length ts" and "r_tasks r ! i = Task w" and "\<not> w_signal w" and "Decremented \<notin> fst ` set (w_bios w)"
    and "w_submitted w < 2 ^ 32"
  shows "\<exists>rest. r_out r' ! i = ''kio: thread['' @ dec_nat i @ '']: completed='' @ dec_nat (w_submitted w) @ '' lat='' @ rest"
proof -
  have "control_inv ts r"
    using run_inv_reach [OF assms(1)] by (simp add: run_inv_def)
  with assms(2,8) have len: "length (r_tasks r) = length ts" and j: "joined (r_tasks r ! i)"
    by (simp_all add: control_inv_def place_inv_def active_inv_def joined_upto_def)
  have i: "i < length (r_tasks r)"
    using len assms(8) by simp
  have reach: "(worker_step io (ts ! i))\<^sup>*\<^sup>* (worker_init (of_nat i)) w"
    using assms(1) i assms(9) by (rule run_task_reach)
  have d: "depth_ok (ts ! i)"
    using assms(6,8) thread_valid_depth_ok nth_mem by blast
  have "w_load w = 0"
    using drained_inv_reach [OF reach d] j assms(9,10) by (simp add: drained_inv_def)
  then have "filter in_flight (w_bios w) = []"
    by (simp add: w_load_def)
  then have "filter uncounted (w_bios w) = []"
    using assms(11) by (force simp: filter_empty_conv uncounted_def)
  then have "of_nat (w_submitted w) = th_completed (w_th w)"
    using depth_inv_reach [OF reach d] by (simp add: worker_inv_def completed_inv_def)
  then have cnt: "unat (th_completed (w_th w)) = w_submitted w"
    using assms(12) unat_of_nat32 by metis
  have ind: "unat (th_index (w_th w)) = i"
    using worker_index [OF reach] assms(7,8) by (simp add: unat_of_nat32)
  let ?ths = "task_threads ts (r_tasks r)"
  have nth: "i < length ?ths" "?ths ! i = (ts ! i, w_th w)"
    using len assms(8,9) by (simp_all add: task_threads_def)
  have "\<exists>s. r_out r' = fst (stats_threads ?ths kio_run_stats_zero) @ [s]"
    using assms(2-5) by (auto simp: kio_run_step_def run_report_def Let_def split: sum.splits prod.splits)
  then have "r_out r' ! i = fst (stats_threads ?ths kio_run_stats_zero) ! i"
    using stats_threads_lines [of ?ths kio_run_stats_zero i] nth(1) by (auto simp: nth_append)
  with stats_threads_lines [of ?ths kio_run_stats_zero i] nth obtain st where
    "r_out r' ! i = fst (kio_run_stats_thread (ts ! i) (w_th w) st)"
    by auto
  with stats_line [of "ts ! i" "w_th w" st] cnt ind show ?thesis
    by simp
qed

theorem report_counts_submitted_witness:
  "\<exists>r c r' rest. (run_step example_kio_io [example_valid_thread])\<^sup>*\<^sup>* run_init r \<and> kio_run_step [example_valid_thread] c r = Some r'
     \<and> r_out r' ! 0 = ''kio: thread[0]: completed=1 lat='' @ rest"
proof -
  let ?as = "control_steps 4 @ work_steps 10 @ control_steps 3 @ replicate 6 (Act_Work 0 (Act_Complete 0 2000))
    @ work_steps 5 @ control_steps 3"
  let ?w = "\<lambda>t. case t of Task w \<Rightarrow> Some (w_signal w, w_bios w, w_submitted w) | _ \<Rightarrow> None"
  let ?f = "\<lambda>r. (r_pc r, r_result r, map ?w (r_tasks r),
    map_option r_pc (kio_run_step [example_valid_thread] example_run_choice r))"
  have "map_option ?f (run_acts example_kio_io [example_valid_thread] ?as run_init)
    = Some (Run_Report, 0, [Some (False, [], 1)], Some Run_Free)"
    by code_simp
  then obtain r where r: "(run_step example_kio_io [example_valid_thread])\<^sup>*\<^sup>* run_init r"
    and f: "?f r = (Run_Report, 0, [Some (False, [], 1)], Some Run_Free)"
    by (rule run_acts_reach)
  then obtain w r' where w: "r_tasks r = [Task w]" "\<not> w_signal w" "w_bios w = []" "w_submitted w = 1"
    and r': "kio_run_step [example_valid_thread] example_run_choice r = Some r'" "r_pc r' = Run_Free"
    by (auto split: task.splits)
  have "r_pc r = Run_Report" "r_result r = 0"
    using f by auto
  from report_counts_submitted [OF r this(1) r' this(2), of 0 w] w example_worker_valid
  obtain rest where "r_out r' ! 0 = ''kio: thread['' @ dec_nat 0 @ '']: completed='' @ dec_nat 1 @ '' lat='' @ rest"
    by auto
  moreover have "dec_nat 0 = ''0''" "dec_nat 1 = ''1''"
    by code_simp+
  ultimately show ?thesis
    using r r' by auto
qed

end
