(* ===== verification/Kio_System.thy ===== *)
theory Kio_System
  imports Kio_Main Kio_Run_Report
begin

text \<open>
  The loaded driver as one concurrent system.  User processes write to the sysfs attributes at any time; each
  write is a writer with a place of its own in its handler (\<open>driver/kio_config.c\<close>).  The handlers of
  \<open>num_threads\<close>, \<open>runtime_seconds\<close> and \<open>run_workload\<close> hold \<open>kio_config.mutex\<close>; the handler of the thread
  attributes tests \<open>kio_is_running\<close> and stores the value later, without the mutex.  The run that
  \<open>run_workload\<close> starts takes its steps on the configuration as it is at that moment, between the steps of the
  writers, and \<open>kio_exit\<close> (\<open>driver/kio_main.c\<close>) may begin at any time: nothing holds a reference to the module.
\<close>

section \<open>State\<close>

datatype request = Write_Attr cfg_request | Write_Run_Workload u64

text \<open>The places in a handler: entered, past the unlocked test of \<open>kio_is_running\<close>, holding the mutex, inside
  \<open>kio_run\<close>, returned.\<close>

datatype writer_pc = W_Enter | W_Checked | W_Locked | W_In_Run | W_Return int | W_Trapped fault

record writer =
  wr_req :: request
  wr_pc :: writer_pc

datatype exit_pc = Loaded | Io_Released | Threads_Destroyed | Unloaded | Exit_Trapped fault

record sys =
  s_mod :: kio_module
  s_mutex :: "nat option"
  s_writers :: "writer list"
  s_run :: "run option"
  s_exit :: exit_pc

definition sys_init :: "kio_module \<Rightarrow> sys" where
  "sys_init m = \<lparr>s_mod = m, s_mutex = None, s_writers = [], s_run = None, s_exit = Loaded\<rparr>"

text \<open>\<open>kio_running\<close>, and the threads that \<open>kio_run\<close> sees in \<open>kio_config\<close>.\<close>

definition sys_running :: "sys \<Rightarrow> bool" where
  "sys_running s = (case s_run s of None \<Rightarrow> False | Some r \<Rightarrow> kio_is_running r)"

definition run_threads :: "kio_config \<Rightarrow> kio_thread_config list" where
  "run_threads c = take (unat (num_threads c)) (the (threads c))"

abbreviation s_config :: "sys \<Rightarrow> kio_config" where
  "s_config s \<equiv> m_config (s_mod s)"

abbreviation s_io :: "sys \<Rightarrow> kio_io" where
  "s_io s \<equiv> m_io (s_mod s)"

definition set_config :: "kio_config \<Rightarrow> sys \<Rightarrow> sys" where
  "set_config c s = s\<lparr>s_mod := (s_mod s)\<lparr>m_config := c\<rparr>\<rparr>"

definition set_pc :: "nat \<Rightarrow> writer_pc \<Rightarrow> sys \<Rightarrow> sys" where
  "set_pc i p s = s\<lparr>s_writers := (s_writers s)[i := (s_writers s ! i)\<lparr>wr_pc := p\<rparr>]\<rparr>"

section \<open>The handlers\<close>

fun unlocked_request :: "request \<Rightarrow> bool" where
  "unlocked_request (Write_Attr (Write_Thread_Var k buf len v)) = True"
| "unlocked_request _ = False"

text \<open>\<open>mutex_unlock\<close> and the return.\<close>

definition unlock_and_return :: "nat \<Rightarrow> int \<Rightarrow> sys \<Rightarrow> sys" where
  "unlock_and_return i rc s = set_pc i (W_Return rc) (s\<lparr>s_mutex := None\<rparr>)"

text \<open>The body of a handler that holds the mutex; \<open>run_workload\<close> goes on to \<open>kio_run\<close>.\<close>

definition locked_body :: "cfg_env \<Rightarrow> nat \<Rightarrow> request \<Rightarrow> sys \<Rightarrow> sys" where
  "locked_body env i req s =
     (case req of
        Write_Attr a \<Rightarrow>
          (case kio_config_request env (sys_running s) a (s_config s) of
             Inl f \<Rightarrow> set_pc i (W_Trapped f) s
           | Inr (rc, c) \<Rightarrow> unlock_and_return i rc (set_config c s))
      | Write_Run_Workload len \<Rightarrow>
          (case run_workload_admit env (s_io s) (sys_running s) (s_config s) of
             Inl f \<Rightarrow> set_pc i (W_Trapped f) s
           | Inr (rc, c) \<Rightarrow>
               (if rc \<noteq> 0 then unlock_and_return i rc (set_config c s)
                else set_pc i W_In_Run ((set_config c s)\<lparr>s_run := Some run_init\<rparr>))))"

text \<open>The second half of \<open>kio_thread_var_store\<close>, after its test of \<open>kio_is_running\<close>.\<close>

definition unlocked_body :: "cfg_env \<Rightarrow> nat \<Rightarrow> request \<Rightarrow> sys \<Rightarrow> sys" where
  "unlocked_body env i req s =
     (case req of
        Write_Attr a \<Rightarrow>
          (case kio_config_request env False a (s_config s) of
             Inl f \<Rightarrow> set_pc i (W_Trapped f) s
           | Inr (rc, c) \<Rightarrow> set_pc i (W_Return rc) (set_config c s))
      | Write_Run_Workload len \<Rightarrow> s)"

text \<open>The value that \<open>kio_run_workload_store\<close> returns after a run.\<close>

fun run_request_len :: "request \<Rightarrow> u64" where
  "run_request_len (Write_Run_Workload len) = len"
| "run_request_len _ = 0"

definition writer_step :: "cfg_env \<Rightarrow> nat \<Rightarrow> sys \<Rightarrow> sys option" where
  "writer_step env i s =
     (if i < length (s_writers s) then
        (let req = wr_req (s_writers s ! i) in
         case wr_pc (s_writers s ! i) of
           W_Enter \<Rightarrow>
             (if unlocked_request req then
                Some (set_pc i (if sys_running s then W_Return (- EBUSY) else W_Checked) s)
              else if s_mutex s = None then Some (set_pc i W_Locked (s\<lparr>s_mutex := Some i\<rparr>))
              else None)
         | W_Checked \<Rightarrow> Some (unlocked_body env i req s)
         | W_Locked \<Rightarrow> Some (locked_body env i req s)
         | W_In_Run \<Rightarrow>
             (case s_run s of
                None \<Rightarrow> None
              | Some r \<Rightarrow>
                  (case r_pc r of
                     Returned rc \<Rightarrow> Some (unlock_and_return i (int_of_count (run_request_len req)) s)
                   | Run_Trapped f \<Rightarrow> Some (set_pc i (W_Trapped f) s)
                   | _ \<Rightarrow> None))
         | W_Return rc \<Rightarrow> None
         | W_Trapped f \<Rightarrow> None)
      else None)"

section \<open>Unloading\<close>

text \<open>Putting the last reference to an object removes it, and waits until the handlers of its attributes have
  returned: the objects of the threads for the thread attributes, the object of the module for the others.\<close>

fun returned :: "writer \<Rightarrow> bool" where
  "returned w = (case wr_pc w of W_Return rc \<Rightarrow> True | _ \<Rightarrow> False)"

definition all_returned :: "(request \<Rightarrow> bool) \<Rightarrow> sys \<Rightarrow> bool" where
  "all_returned P s \<longleftrightarrow> list_all (\<lambda>w. P (wr_req w) \<longrightarrow> returned w) (s_writers s)"

text \<open>\<open>kio_exit\<close>: \<open>kio_io_exit\<close>, then the two halves of \<open>kio_config_exit\<close>.  The object of a thread holds a
  reference to the object of the module; so when threads were created after their destruction, putting the object
  of the module does not remove it and waits for nobody.\<close>

definition exit_step :: "sys \<Rightarrow> sys option" where
  "exit_step s =
     (case s_exit s of
        Loaded \<Rightarrow> Some (s\<lparr>s_mod := (s_mod s)\<lparr>m_io := fst (kio_io_exit (s_io s))\<rparr>, s_exit := Io_Released\<rparr>)
      | Io_Released \<Rightarrow>
          (if all_returned unlocked_request s then
             Some (case kio_config_destroy_all_threads (s_config s) of
                     Inl f \<Rightarrow> s\<lparr>s_exit := Exit_Trapped f\<rparr>
                   | Inr (c, es) \<Rightarrow> (set_config c s)\<lparr>s_exit := Threads_Destroyed\<rparr>)
           else None)
      | Threads_Destroyed \<Rightarrow>
          (if threads (s_config s) \<noteq> None \<or> all_returned (\<lambda>req. \<not> unlocked_request req) s
           then Some (s\<lparr>s_exit := Unloaded\<rparr>) else None)
      | Unloaded \<Rightarrow> None
      | Exit_Trapped f \<Rightarrow> None)"

text \<open>Which attributes exist: those of the module until its object is removed, those of the threads until the
  threads are destroyed, and again when a write to \<open>num_threads\<close> creates threads after that.\<close>

definition accepts :: "sys \<Rightarrow> request \<Rightarrow> bool" where
  "accepts s req \<longleftrightarrow> s_exit s = Loaded \<or> s_exit s = Io_Released
     \<or> s_exit s = Threads_Destroyed \<and> (unlocked_request req \<longrightarrow> threads (s_config s) \<noteq> None)"

section \<open>The system\<close>

text \<open>\<open>E\<close> are the answers that the kernel may give to a step of a handler, a new one for each step: what
  \<open>kzalloc\<close>, \<open>kobject_create_and_add\<close> and \<open>sysfs_create_file\<close> return, the number of online processors and how
  texts are read.  When the array of the threads has been freed under a run, the steps of its threads read freed
  memory; they are left out.\<close>

inductive sys_step :: "(cfg_env \<Rightarrow> bool) \<Rightarrow> sys \<Rightarrow> sys \<Rightarrow> bool" for E :: "cfg_env \<Rightarrow> bool" where
  arrive: "accepts s req \<Longrightarrow> sys_step E s (s\<lparr>s_writers := s_writers s @ [\<lparr>wr_req = req, wr_pc = W_Enter\<rparr>]\<rparr>)"
| handler: "E env \<Longrightarrow> writer_step env i s = Some s' \<Longrightarrow> sys_step E s s'"
| run: "s_run s = Some r \<Longrightarrow> threads (s_config s) \<noteq> None \<Longrightarrow> run_step (s_io s) (run_threads (s_config s)) r r'
    \<Longrightarrow> sys_step E s (s\<lparr>s_run := Some r'\<rparr>)"
| exit: "exit_step s = Some s' \<Longrightarrow> sys_step E s s'"

inductive_cases sys_stepE: "sys_step E s s'"

text \<open>An executable schedule.\<close>

datatype sys_action = Do_Arrive request | Do_Handler nat | Do_Run run_action | Do_Exit

definition sys_act :: "cfg_env \<Rightarrow> sys_action \<Rightarrow> sys \<Rightarrow> sys option" where
  "sys_act env a s =
     (case a of
        Do_Arrive req \<Rightarrow>
          (if accepts s req then Some (s\<lparr>s_writers := s_writers s @ [\<lparr>wr_req = req, wr_pc = W_Enter\<rparr>]\<rparr>) else None)
      | Do_Handler i \<Rightarrow> writer_step env i s
      | Do_Run ra \<Rightarrow>
          (case s_run s of
             None \<Rightarrow> None
           | Some r \<Rightarrow>
               (if threads (s_config s) = None then None
                else map_option (\<lambda>r'. s\<lparr>s_run := Some r'\<rparr>) (run_act (s_io s) (run_threads (s_config s)) ra r)))
      | Do_Exit \<Rightarrow> exit_step s)"

fun sys_acts :: "cfg_env \<Rightarrow> sys_action list \<Rightarrow> sys \<Rightarrow> sys option" where
  "sys_acts env [] s = Some s"
| "sys_acts env (a # as) s = Option.bind (sys_act env a s) (sys_acts env as)"

lemma sys_act_step: "sys_act env a s = Some s' \<Longrightarrow> E env \<Longrightarrow> sys_step E s s'"
  by (auto simp: sys_act_def split: sys_action.splits if_splits option.splits
        intro: sys_step.intros dest!: run_act_step)

lemma sys_acts_steps: "sys_acts env as s = Some s' \<Longrightarrow> E env \<Longrightarrow> (sys_step E)\<^sup>*\<^sup>* s s'"
  by (induction as arbitrary: s)
     (auto simp: bind_eq_Some_conv dest!: sys_act_step intro: converse_rtranclp_into_rtranclp)

lemma sys_acts_reach:
  assumes "map_option f (sys_acts env as s0) = Some v" and "E env"
  obtains s where "(sys_step E)\<^sup>*\<^sup>* s0 s" and "f s = v"
proof -
  from assms(1) obtain s where "sys_acts env as s0 = Some s" and "f s = v"
    by auto
  with sys_acts_steps [of env as s0 s E] assms(2) that show ?thesis
    by blast
qed

interpretation driver: transition_system "\<lambda>s. \<exists>m. s = sys_init m" "sys_step E" for E .

end
