(* ===== verification/Kio_System_Inv.thy ===== *)
theory Kio_System_Inv
  imports Kio_System
begin

text \<open>
  Invariants of the loaded driver in every interleaving: who holds the mutex, when a run is in progress, what
  the controller of the run has done, and the well-formedness of the configuration.
\<close>

section \<open>Updates of the state\<close>

lemma set_pc_simps [simp]:
  "s_mod (set_pc i p s) = s_mod s" "s_mutex (set_pc i p s) = s_mutex s" "s_run (set_pc i p s) = s_run s"
  "s_exit (set_pc i p s) = s_exit s" "length (s_writers (set_pc i p s)) = length (s_writers s)"
  by (simp_all add: set_pc_def)

lemma set_config_simps [simp]:
  "s_config (set_config c s) = c" "s_io (set_config c s) = s_io s" "s_mutex (set_config c s) = s_mutex s"
  "s_run (set_config c s) = s_run s" "s_exit (set_config c s) = s_exit s"
  "s_writers (set_config c s) = s_writers s" "m_kobj (s_mod (set_config c s)) = m_kobj (s_mod s)"
  by (simp_all add: set_config_def)

lemma set_config_id [simp]: "set_config (s_config s) s = s"
  by (simp add: set_config_def)

lemma set_pc_nth:
  "j < length (s_writers s) \<Longrightarrow> s_writers (set_pc i p s) ! j
     = (if j = i then (s_writers s ! i)\<lparr>wr_pc := p\<rparr> else s_writers s ! j)"
  by (simp add: set_pc_def)

lemma unlock_and_return_simps [simp]:
  "s_mod (unlock_and_return i rc s) = s_mod s" "s_mutex (unlock_and_return i rc s) = None"
  "s_run (unlock_and_return i rc s) = s_run s" "s_exit (unlock_and_return i rc s) = s_exit s"
  by (simp_all add: unlock_and_return_def)

text \<open>What a handler does in one step.\<close>

lemma writer_step_cases:
  assumes "writer_step env i s = Some s'"
  obtains (busy) "i < length (s_writers s)" "wr_pc (s_writers s ! i) = W_Enter" "unlocked_request (wr_req (s_writers s ! i))"
      "sys_running s" "s' = set_pc i (W_Return (- EBUSY)) s"
  | (checked) "i < length (s_writers s)" "wr_pc (s_writers s ! i) = W_Enter" "unlocked_request (wr_req (s_writers s ! i))"
      "\<not> sys_running s" "s' = set_pc i W_Checked s"
  | (lock) "i < length (s_writers s)" "wr_pc (s_writers s ! i) = W_Enter" "\<not> unlocked_request (wr_req (s_writers s ! i))"
      "s_mutex s = None" "s' = set_pc i W_Locked (s\<lparr>s_mutex := Some i\<rparr>)"
  | (unlocked) "i < length (s_writers s)" "wr_pc (s_writers s ! i) = W_Checked"
      "s' = unlocked_body env i (wr_req (s_writers s ! i)) s"
  | (locked) "i < length (s_writers s)" "wr_pc (s_writers s ! i) = W_Locked"
      "s' = locked_body env i (wr_req (s_writers s ! i)) s"
  | (returns) r rc where "i < length (s_writers s)" "wr_pc (s_writers s ! i) = W_In_Run" "s_run s = Some r"
      "r_pc r = Returned rc"
      "s' = unlock_and_return i (int_of_count (run_request_len (wr_req (s_writers s ! i)))) s"
  | (traps) r f where "i < length (s_writers s)" "wr_pc (s_writers s ! i) = W_In_Run" "s_run s = Some r"
      "r_pc r = Run_Trapped f" "s' = set_pc i (W_Trapped f) s"
proof -
  have i: "i < length (s_writers s)"
    using assms by (auto simp: writer_step_def split: if_splits)
  show ?thesis
  proof (cases "wr_pc (s_writers s ! i)")
    case W_Enter
    with assms i busy checked lock show ?thesis
      by (auto simp: writer_step_def Let_def split: if_splits)
  next
    case W_In_Run
    with assms i returns traps show ?thesis
      by (auto simp: writer_step_def Let_def split: if_splits option.splits run_pc.splits)
  qed (use assms i unlocked locked in \<open>auto simp: writer_step_def Let_def\<close>)
qed

text \<open>The outcomes of the two bodies.\<close>

lemma locked_body_cases:
  obtains (trap) f where "locked_body env i req s = set_pc i (W_Trapped f) s"
  | (attr) a rc c where "req = Write_Attr a" "kio_config_request env (sys_running s) a (s_config s) = Inr (rc, c)"
      "locked_body env i req s = unlock_and_return i rc (set_config c s)"
  | (refused) len rc c where "req = Write_Run_Workload len"
      "run_workload_admit env (s_io s) (sys_running s) (s_config s) = Inr (rc, c)" "rc \<noteq> 0"
      "locked_body env i req s = unlock_and_return i rc (set_config c s)"
  | (start) len c where "req = Write_Run_Workload len"
      "run_workload_admit env (s_io s) (sys_running s) (s_config s) = Inr (0, c)"
      "locked_body env i req s = set_pc i W_In_Run ((set_config c s)\<lparr>s_run := Some run_init\<rparr>)"
proof (cases req)
  case (Write_Attr a)
  with trap attr show ?thesis
    by (cases "kio_config_request env (sys_running s) a (s_config s)") (auto simp: locked_body_def)
next
  case (Write_Run_Workload len)
  show ?thesis
  proof (cases "run_workload_admit env (s_io s) (sys_running s) (s_config s)")
    case (Inl f)
    with Write_Run_Workload trap show ?thesis
      by (simp add: locked_body_def)
  next
    case (Inr p)
    obtain rc c where "p = (rc, c)"
      by fastforce
    with Inr Write_Run_Workload refused start show ?thesis
      by (cases "rc = 0") (auto simp: locked_body_def)
  qed
qed

lemma unlocked_body_cases:
  assumes "unlocked_request req"
  obtains (trap) f where "unlocked_body env i req s = set_pc i (W_Trapped f) s"
  | (store) k buf len v rc c where "req = Write_Attr (Write_Thread_Var k buf len v)"
      "kio_thread_var_store env False k buf len v (s_config s) = Inr (rc, c)"
      "unlocked_body env i req s = set_pc i (W_Return rc) (set_config c s)"
proof -
  obtain k buf len v where req: "req = Write_Attr (Write_Thread_Var k buf len v)"
    using assms by (cases req rule: unlocked_request.cases) auto
  with trap store show ?thesis
    by (cases "kio_thread_var_store env False k buf len v (s_config s)") (auto simp: unlocked_body_def)
qed

section \<open>The mutex\<close>

fun writer_ok :: "writer \<Rightarrow> bool" where
  "writer_ok w =
     (case wr_pc w of
        W_Checked \<Rightarrow> unlocked_request (wr_req w)
      | W_Locked \<Rightarrow> \<not> unlocked_request (wr_req w)
      | W_In_Run \<Rightarrow> (case wr_req w of Write_Run_Workload len \<Rightarrow> True | _ \<Rightarrow> False)
      | _ \<Rightarrow> True)"

text \<open>A handler that faults never unlocks.\<close>

fun holds_mutex :: "writer \<Rightarrow> bool" where
  "holds_mutex w =
     (case wr_pc w of
        W_Locked \<Rightarrow> True
      | W_In_Run \<Rightarrow> True
      | W_Trapped f \<Rightarrow> \<not> unlocked_request (wr_req w)
      | _ \<Rightarrow> False)"

definition lock_inv :: "sys \<Rightarrow> bool" where
  "lock_inv s \<longleftrightarrow>
     (\<forall>i < length (s_writers s). writer_ok (s_writers s ! i) \<and> (holds_mutex (s_writers s ! i) \<longleftrightarrow> s_mutex s = Some i))
     \<and> (\<forall>i. s_mutex s = Some i \<longrightarrow> i < length (s_writers s))"

lemma lock_inv_set_pc:
  assumes "lock_inv s" and "i < length (s_writers s)" and "s_writers t = s_writers s"
    and "writer_ok ((s_writers s ! i)\<lparr>wr_pc := p\<rparr>)"
    and "holds_mutex ((s_writers s ! i)\<lparr>wr_pc := p\<rparr>) \<longleftrightarrow> s_mutex t = Some i"
    and "s_mutex s = s_mutex t \<or> s_mutex s = None \<and> s_mutex t = Some i \<or> s_mutex s = Some i \<and> s_mutex t = None"
  shows "lock_inv (set_pc i p t)"
proof -
  have "writer_ok (s_writers (set_pc i p t) ! j) \<and> (holds_mutex (s_writers (set_pc i p t) ! j) \<longleftrightarrow> s_mutex t = Some j)"
    if "j < length (s_writers s)" for j
    using assms that by (cases "j = i") (auto simp: set_pc_nth lock_inv_def)
  moreover have "j < length (s_writers s)" if "s_mutex t = Some j" for j
    using that assms(1,2,6) by (auto simp: lock_inv_def)
  ultimately show ?thesis
    using assms(3) by (simp add: lock_inv_def)
qed

lemma lock_inv_same:
  assumes "lock_inv s" and "s_writers t = s_writers s" and "s_mutex t = s_mutex s"
  shows "lock_inv t"
  using assms by (simp add: lock_inv_def)

lemma lock_inv_holder:
  "lock_inv s \<Longrightarrow> i < length (s_writers s) \<Longrightarrow> holds_mutex (s_writers s ! i) \<Longrightarrow> s_mutex s = Some i"
  by (simp add: lock_inv_def)

lemma lock_inv_writer:
  assumes "writer_step env i s = Some s'" and inv: "lock_inv s"
  shows "lock_inv s'"
proof -
  have i: "i < length (s_writers s)" and ok: "writer_ok (s_writers s ! i)"
    and h: "holds_mutex (s_writers s ! i) \<longleftrightarrow> s_mutex s = Some i"
    using assms by (auto simp: lock_inv_def writer_step_def split: if_splits)
  note lock_set_pc = lock_inv_set_pc [OF inv i]
  from assms(1) show ?thesis
  proof (cases rule: writer_step_cases)
    case unlocked
    then have "unlocked_request (wr_req (s_writers s ! i))"
      using ok by simp
    then show ?thesis
      by (cases rule: unlocked_body_cases [where env = env and i = i and s = s]) (use unlocked h ok in \<open>auto intro!: lock_set_pc\<close>)
  next
    case locked
    show ?thesis
      by (cases rule: locked_body_cases [of env i "wr_req (s_writers s ! i)" s])
         (use locked h ok in \<open>auto simp: unlock_and_return_def intro!: lock_set_pc\<close>)
  qed (use h ok in \<open>auto simp: unlock_and_return_def intro!: lock_set_pc split: request.splits\<close>)
qed

lemma lock_inv_step: "sys_step E s s' \<Longrightarrow> lock_inv s \<Longrightarrow> lock_inv s'"
proof (induction rule: sys_step.induct)
  case (arrive s req)
  then show ?case
    by (auto simp: lock_inv_def nth_append)
next
  case (exit s s')
  then show ?case
    by (auto simp: exit_step_def split: exit_pc.splits if_splits sum.splits intro: lock_inv_same)
qed (auto intro: lock_inv_writer lock_inv_same)

lemma lock_inv_reach: "(sys_step E)\<^sup>*\<^sup>* (sys_init m) s \<Longrightarrow> lock_inv s"
proof (rule driver.steps_invariant)
  show "lock_inv (sys_init m)"
    by (simp add: lock_inv_def sys_init_def)
qed (auto intro: lock_inv_step)

section \<open>The run\<close>

text \<open>No run is in progress: none was started, or the last one has returned.\<close>

definition at_rest :: "run option \<Rightarrow> bool" where
  "at_rest ro \<longleftrightarrow> (\<forall>r. ro = Some r \<longrightarrow> (\<exists>rc. r_pc r = Returned rc))"

fun in_run :: "writer \<Rightarrow> bool" where
  "in_run w = (case wr_pc w of W_In_Run \<Rightarrow> True | W_Trapped f \<Rightarrow> True | _ \<Rightarrow> False)"

text \<open>A run is in progress only while a writer is inside \<open>kio_run_workload_store\<close> and holds the mutex.\<close>

definition rest_inv :: "sys \<Rightarrow> bool" where
  "rest_inv s \<longleftrightarrow> at_rest (s_run s) \<or> (\<exists>i < length (s_writers s). s_mutex s = Some i \<and> in_run (s_writers s ! i))"

text \<open>The controller sees an array of the length with which it began, as long as the array exists.\<close>

definition shape_inv :: "kio_config \<Rightarrow> run option \<Rightarrow> bool" where
  "shape_inv c ro \<longleftrightarrow>
     (case ro of
        None \<Rightarrow> True
      | Some r \<Rightarrow> (\<exists>ok n. place_inv ok n r \<and> (at_rest ro \<or> threads c = None \<or> n = length (run_threads c))))"

lemma at_rest_simps [simp]:
  "at_rest None" "at_rest (Some r) \<longleftrightarrow> (\<exists>rc. r_pc r = Returned rc)"
  by (auto simp: at_rest_def)

lemma rest_inv_idle:
  assumes "rest_inv s" and "lock_inv s" and "s_mutex s = None \<or> i < length (s_writers s) \<and> wr_pc (s_writers s ! i) = W_Locked"
  shows "at_rest (s_run s)"
  using assms lock_inv_holder [of s i] by (auto simp: rest_inv_def)

text \<open>A write to a thread attribute keeps the number of threads and the length of the array.\<close>

lemma var_store_threads:
  assumes "kio_thread_var_store env is_running k buf len i c = Inr (rc, c')"
  shows "threads c' = None \<longleftrightarrow> threads c = None" and "length (run_threads c') = length (run_threads c)"
  using var_store_cases [OF assms] by (auto simp: run_threads_def)

lemma run_step_rest: "run_step io ts r r' \<Longrightarrow> at_rest (Some r) \<Longrightarrow> at_rest (Some r')"
  by (induction rule: run_step.induct) (auto simp: kio_run_step_def)

lemma shape_inv_run:
  assumes "run_step io (run_threads c) r r'" and "shape_inv c (Some r)" and "threads c \<noteq> None"
  shows "shape_inv c (Some r')"
  using assms
proof (cases rule: run_step.cases)
  case (control ch)
  then have nr: "\<not> at_rest (Some r)"
    by (auto simp: kio_run_step_def)
  with assms(2,3) obtain ok where "place_inv ok (length (run_threads c)) r"
    by (auto simp: shape_inv_def)
  from place_inv_control [OF control this] show ?thesis
    by (auto simp: shape_inv_def)
next
  case (work i w w')
  from assms(2) obtain ok n where inv: "place_inv ok n r"
    and n: "at_rest (Some r) \<or> threads c = None \<or> n = length (run_threads c)"
    by (auto simp: shape_inv_def)
  from place_inv_work [OF work(3-5) inv] n show ?thesis
    unfolding work(1) by (auto simp: shape_inv_def)
qed

lemma shape_inv_config:
  assumes "shape_inv c ro" and "at_rest ro \<or> threads c' = None \<or> threads c \<noteq> None \<and> length (run_threads c') = length (run_threads c)"
  shows "shape_inv c' ro"
  using assms by (auto simp: shape_inv_def split: option.splits) blast

lemma shape_inv_start: "shape_inv c (Some run_init)"
  by (auto simp: shape_inv_def place_inv_def run_init_def)

lemma shape_inv_store:
  assumes "kio_thread_var_store env False k buf len v c = Inr (rc, c')" and "shape_inv c ro"
  shows "shape_inv c' ro"
  using assms(2) var_store_threads [OF assms(1)] by (metis shape_inv_config)

lemma rest_inv_set_pc:
  assumes "rest_inv s" and "i < length (s_writers s)" and "s_writers t = s_writers s" and "s_run t = s_run s"
    and "s_mutex t = s_mutex s" and "in_run (s_writers s ! i) \<longrightarrow> in_run ((s_writers s ! i)\<lparr>wr_pc := p\<rparr>)"
  shows "rest_inv (set_pc i p t)"
  using assms by (auto simp: rest_inv_def set_pc_nth)

definition sys_inv :: "sys \<Rightarrow> bool" where
  "sys_inv s \<longleftrightarrow> lock_inv s \<and> rest_inv s \<and> shape_inv (s_config s) (s_run s)"

lemma sys_inv_locked:
  assumes inv: "sys_inv s" and i: "i < length (s_writers s)" and pc: "wr_pc (s_writers s ! i) = W_Locked"
  shows "rest_inv (locked_body env i (wr_req (s_writers s ! i)) s)
    \<and> shape_inv (s_config (locked_body env i (wr_req (s_writers s ! i)) s)) (s_run (locked_body env i (wr_req (s_writers s ! i)) s))"
proof -
  have rest: "at_rest (s_run s)"
    using inv i pc rest_inv_idle by (auto simp: sys_inv_def)
  have m: "s_mutex s = Some i"
    using inv i pc by (intro lock_inv_holder) (simp_all add: sys_inv_def)
  from inv rest have shape: "shape_inv c (s_run s)" for c
    by (auto simp: sys_inv_def intro: shape_inv_config)
  show ?thesis
    by (cases rule: locked_body_cases [of env i "wr_req (s_writers s ! i)" s])
       (use rest m i shape shape_inv_start in \<open>auto simp: rest_inv_def set_pc_nth\<close>)
qed

lemma sys_inv_writer:
  assumes st: "writer_step env i s = Some s'" and inv: "sys_inv s"
  shows "sys_inv s'"
proof -
  have lock: "lock_inv s'" and ok: "writer_ok (s_writers s ! i)"
    using lock_inv_writer [OF st] inv st by (auto simp: sys_inv_def lock_inv_def writer_step_def split: if_splits)
  have r: "rest_inv s" and sh: "shape_inv (s_config s) (s_run s)"
    using inv by (simp_all add: sys_inv_def)
  note rest_pc = rest_inv_set_pc [OF r]
  from st have "rest_inv s' \<and> shape_inv (s_config s') (s_run s')"
  proof (cases rule: writer_step_cases)
    case lock
    then have "at_rest (s_run s)"
      using inv rest_inv_idle by (auto simp: sys_inv_def)
    with lock sh show ?thesis
      by (simp add: rest_inv_def)
  next
    case unlocked
    then have "unlocked_request (wr_req (s_writers s ! i))"
      using ok by simp
    then show ?thesis
      by (cases rule: unlocked_body_cases [where env = env and i = i and s = s])
         (use unlocked sh in \<open>auto intro!: rest_pc intro: shape_inv_store\<close>)
  next
    case locked
    with sys_inv_locked [OF inv] show ?thesis
      by simp
  next
    case (returns x rc)
    with sh show ?thesis
      by (simp add: rest_inv_def)
  qed (use sh in \<open>auto intro!: rest_pc\<close>)
  with lock show ?thesis
    by (simp add: sys_inv_def)
qed

lemma sys_inv_exit:
  assumes "exit_step s = Some s'" and "sys_inv s"
  shows "sys_inv s'"
proof -
  have "s_writers s' = s_writers s" "s_mutex s' = s_mutex s" "s_run s' = s_run s"
    and "s_config s' = s_config s \<or> threads (s_config s') = None"
    using assms(1)
    by (auto simp: exit_step_def kio_config_destroy_all_threads_def split: exit_pc.splits if_splits sum.splits)
  with assms(2) show ?thesis
    by (auto simp: sys_inv_def rest_inv_def intro: lock_inv_same shape_inv_config)
qed

lemma sys_inv_step: "sys_step E s s' \<Longrightarrow> sys_inv s \<Longrightarrow> sys_inv s'"
proof (induction rule: sys_step.induct)
  case (arrive s req)
  with lock_inv_step [OF sys_step.arrive, of s req] show ?case
    by (auto simp: sys_inv_def rest_inv_def nth_append)
next
  case (run s r r')
  with lock_inv_step [OF sys_step.run, of s r r'] shape_inv_run run_step_rest show ?case
    by (auto simp: sys_inv_def rest_inv_def)
qed (auto intro: sys_inv_writer sys_inv_exit)

lemma sys_inv_reach: "(sys_step E)\<^sup>*\<^sup>* (sys_init m) s \<Longrightarrow> sys_inv s"
proof (rule driver.steps_invariant)
  show "sys_inv (sys_init m)"
    by (simp add: sys_inv_def rest_inv_def shape_inv_def lock_inv_def sys_init_def)
qed (auto intro: sys_inv_step)

section \<open>The configuration\<close>

lemma thread_is_valid_kobj: "ktc_kobj (snd (kio_config_thread_is_valid env ds t)) = ktc_kobj t"
  by (simp add: kio_config_thread_is_valid_def cap_offset_high_def Let_def)

lemma threads_are_valid_kobj: "map ktc_kobj (snd (kio_config_threads_are_valid env ds ts)) = map ktc_kobj ts"
proof (induction ts)
  case (Cons t ts)
  then show ?case
    using thread_is_valid_kobj [of env ds t] by (auto simp: Let_def split: prod.splits)
qed simp

lemma is_valid_frame:
  assumes "kio_config_is_valid env io c = Inr (ok, c')"
  shows "c' = c \<or> (\<exists>ts ts'. threads c = Some ts \<and> c' = c\<lparr>threads := Some ts'\<rparr> \<and> map ktc_kobj ts' = map ktc_kobj ts)"
proof (cases "threads c")
  case None
  with assms show ?thesis
    by (auto simp: kio_config_is_valid_def config_threads_def check_u_def split: if_splits)
next
  case (Some ts)
  obtain ok' ts' where v: "kio_config_threads_are_valid env (kio_io_dev_byte_size io) ts = (ok', ts')"
    by fastforce
  then have "map ktc_kobj ts' = map ktc_kobj ts"
    using threads_are_valid_kobj [of env "kio_io_dev_byte_size io" ts] by simp
  with v Some assms show ?thesis
    by (auto simp: kio_config_is_valid_def config_threads_def check_u_def split: if_splits)
qed

lemma admit_config_wf:
  assumes "run_workload_admit env io is_running c = Inr (rc, c')" and "config_wf c"
  shows "config_wf c'"
proof -
  have "c' = c \<or> (\<exists>ts ts'. threads c = Some ts \<and> c' = c\<lparr>threads := Some ts'\<rparr> \<and> map ktc_kobj ts' = map ktc_kobj ts)"
    using assms(1) by (auto simp: run_workload_admit_def split: if_splits sum.splits dest: is_valid_frame)
  then show ?thesis
  proof (elim disjE exE conjE)
    fix ts ts'
    assume "threads c = Some ts" "c' = c\<lparr>threads := Some ts'\<rparr>" "map ktc_kobj ts' = map ktc_kobj ts"
    moreover from this(3) have "length ts' = length ts"
      by (rule map_eq_imp_length_eq)
    ultimately show ?thesis
      using assms(2) unfolding config_wf_def by (simp del: set_map list.set_map)
  qed (use assms(2) in simp)
qed

lemma sys_config_wf_step:
  assumes "sys_step E s s'" and "config_wf (s_config s)" and "\<forall>env. E env \<longrightarrow> kobjs_distinct env"
  shows "config_wf (s_config s')"
  using assms(1)
proof cases
  case (handler env i)
  have body: "config_wf (s_config (unlocked_body env i req s))" "config_wf (s_config (locked_body env i req s))" for req
    using assms(2,3) handler(1)
    by (auto simp: unlocked_body_def locked_body_def split: request.splits sum.splits
          intro: config_request_wf admit_config_wf)
  from handler(2) show ?thesis
    by (cases rule: writer_step_cases) (use assms(2) body in auto)
next
  case exit
  with assms(2) show ?thesis
    by (auto simp: exit_step_def kio_config_destroy_all_threads_def config_wf_def
          split: exit_pc.splits if_splits sum.splits option.splits)
qed (use assms(2) in auto)

section \<open>Attribute writes and the running flag\<close>

definition places :: "sys \<Rightarrow> writer_pc set" where
  "places s = wr_pc ` set (s_writers s)"

definition write_pending :: "sys \<Rightarrow> bool" where
  "write_pending s \<longleftrightarrow> W_Checked \<in> places s"

definition run_in_progress :: "sys \<Rightarrow> bool" where
  "run_in_progress s \<longleftrightarrow> W_In_Run \<in> places s"

lemma places_simps [simp]:
  "places (s\<lparr>s_mutex := m\<rparr>) = places s" "places (s\<lparr>s_run := r\<rparr>) = places s" "places (set_config c s) = places s"
  "places (s\<lparr>s_mod := k\<rparr>) = places s" "places (s\<lparr>s_exit := e\<rparr>) = places s"
  "places (s\<lparr>s_writers := s_writers s @ [w]\<rparr>) = insert (wr_pc w) (places s)"
  by (simp_all add: places_def)

lemma places_nth: "i < length (s_writers s) \<Longrightarrow> wr_pc (s_writers s ! i) \<in> places s"
  by (simp add: places_def)

lemma places_set_pc: "q \<in> places (set_pc i p s) \<Longrightarrow> q = p \<or> q \<in> places s"
proof -
  have "wr_pc ` set (s_writers (set_pc i p s)) \<subseteq> insert p (wr_pc ` set (s_writers s))"
    using set_update_subset_insert [of "s_writers s" i "(s_writers s ! i)\<lparr>wr_pc := p\<rparr>"] by (fastforce simp: set_pc_def)
  then show "q \<in> places (set_pc i p s) \<Longrightarrow> q = p \<or> q \<in> places s"
    by (auto simp: places_def)
qed

text \<open>While the flag is set and no attribute write is past its test, nothing but the exit of the module changes the
  configuration, and no new write gets past its test.\<close>

lemma locked_body_busy: "sys_running s \<Longrightarrow> locked_body env i req s = unlock_and_return i (- EBUSY) s"
  by (cases req) (simp_all add: locked_body_def config_requests.guard run_workload_admit_def)

lemma frozen_handler:
  assumes "writer_step env i s = Some s'" and "sys_running s" and "\<not> write_pending s"
  shows "s_config s' = s_config s \<and> s_io s' = s_io s \<and> s_run s' = s_run s \<and> \<not> write_pending s'"
  using assms(1)
proof (cases rule: writer_step_cases)
  case unlocked
  with assms(3) places_nth [of i s] show ?thesis
    by (simp add: write_pending_def)
qed (use assms(2,3) in \<open>auto simp: locked_body_busy unlock_and_return_def write_pending_def dest!: places_set_pc\<close>)

lemma frozen_step:
  assumes "sys_step E s s'" and "sys_running s" and "\<not> write_pending s" and "s_exit s = Loaded" and "s_exit s' = Loaded"
  shows "s_config s' = s_config s \<and> s_io s' = s_io s \<and> \<not> write_pending s'
    \<and> (run_step (s_io s) (run_threads (s_config s)))\<^sup>*\<^sup>* (the (s_run s)) (the (s_run s'))"
  using assms(1)
proof cases
  case (handler env i)
  with frozen_handler assms(2,3) show ?thesis
    by fastforce
next
  case exit
  with assms(4,5) show ?thesis
    by (auto simp: exit_step_def)
qed (use assms(3) in \<open>auto simp: write_pending_def\<close>)

text \<open>Steps in which no attribute write overlaps a run and the module stays loaded.\<close>

definition serial :: "sys \<Rightarrow> bool" where
  "serial s \<longleftrightarrow> s_exit s = Loaded \<and> \<not> (write_pending s \<and> run_in_progress s)"

definition serial_step :: "(cfg_env \<Rightarrow> bool) \<Rightarrow> sys \<Rightarrow> sys \<Rightarrow> bool" where
  "serial_step E s s' \<longleftrightarrow> sys_step E s s' \<and> serial s'"

lemma serial_steps: "(serial_step E)\<^sup>*\<^sup>* s s' \<Longrightarrow> (sys_step E)\<^sup>*\<^sup>* s s'"
  by (induction rule: rtranclp_induct) (auto simp: serial_step_def)

fun serial_acts :: "cfg_env \<Rightarrow> sys_action list \<Rightarrow> sys \<Rightarrow> sys option" where
  "serial_acts env [] s = Some s"
| "serial_acts env (a # as) s =
     Option.bind (sys_act env a s) (\<lambda>s'. if serial s' then serial_acts env as s' else None)"

lemma serial_acts_steps: "serial_acts env as s = Some s' \<Longrightarrow> E env \<Longrightarrow> (serial_step E)\<^sup>*\<^sup>* s s'"
  by (induction as arbitrary: s)
     (auto simp: bind_eq_Some_conv serial_step_def split: if_splits dest!: sys_act_step intro: converse_rtranclp_into_rtranclp)

end
