(* ===== verification/Kio_System_Props.thy ===== *)
theory Kio_System_Props
  imports Kio_System_Inv
begin

text \<open>
  The properties of the loaded driver: what the mutex, the flag \<open>kio_running\<close> and the order of the steps of
  \<open>kio_exit\<close> protect, and what they do not.
\<close>

section \<open>Writes one after the other\<close>

text \<open>When no run was started and nobody holds the mutex, a write that runs alone does what its handler does.\<close>

definition at_ease :: "sys \<Rightarrow> bool" where
  "at_ease s \<longleftrightarrow> s_mutex s = None \<and> \<not> sys_running s \<and> s_exit s = Loaded \<and> \<not> run_in_progress s"

lemma writer_stepI:
  assumes "i < length (s_writers s)" and "s_writers s ! i = \<lparr>wr_req = req, wr_pc = p\<rparr>"
  shows "p = W_Enter \<Longrightarrow> unlocked_request req \<Longrightarrow> \<not> sys_running s \<Longrightarrow> writer_step env i s = Some (set_pc i W_Checked s)"
    and "p = W_Enter \<Longrightarrow> \<not> unlocked_request req \<Longrightarrow> s_mutex s = None
      \<Longrightarrow> writer_step env i s = Some (set_pc i W_Locked (s\<lparr>s_mutex := Some i\<rparr>))"
    and "p = W_Checked \<Longrightarrow> writer_step env i s = Some (unlocked_body env i req s)"
    and "p = W_Locked \<Longrightarrow> writer_step env i s = Some (locked_body env i req s)"
  using assms by (simp_all add: writer_step_def)

text \<open>The state after a write alone, and after a series of writes.\<close>

definition answered :: "cfg_request \<Rightarrow> int \<Rightarrow> writer" where
  "answered a rc = \<lparr>wr_req = Write_Attr a, wr_pc = W_Return rc\<rparr>"

definition after_writes :: "cfg_request list \<Rightarrow> int list \<Rightarrow> kio_config \<Rightarrow> sys \<Rightarrow> sys" where
  "after_writes as rcs c s = (set_config c s)\<lparr>s_writers := s_writers s @ map2 answered as rcs\<rparr>"

lemma serial_stepI: "writer_step env i s = Some s' \<Longrightarrow> E env \<Longrightarrow> s_exit s' = Loaded \<Longrightarrow> \<not> run_in_progress s' \<Longrightarrow> serial_step E s s'"
  by (simp add: serial_step_def serial_def sys_step.handler)

lemma write_alone:
  assumes "at_ease s" and "kio_config_request env False a (s_config s) = Inr (rc, c)" and "E env"
  shows "(serial_step E)\<^sup>*\<^sup>* s (after_writes [a] [rc] c s)"
proof -
  let ?i = "length (s_writers s)"
  let ?s1 = "s\<lparr>s_writers := s_writers s @ [\<lparr>wr_req = Write_Attr a, wr_pc = W_Enter\<rparr>]\<rparr>"
  have r: "\<not> sys_running ?s1" and np: "\<not> run_in_progress ?s1" "\<not> run_in_progress (after_writes [a] [rc] c s)"
    using assms(1) by (auto simp: at_ease_def sys_running_def run_in_progress_def after_writes_def answered_def places_def)
  have loaded: "s_exit (after_writes [a] [rc] c s) = Loaded"
    using assms(1) by (simp add: at_ease_def after_writes_def)
  have "serial_step E s ?s1"
    using assms(1) np(1) by (auto simp: serial_step_def serial_def at_ease_def accepts_def intro: sys_step.arrive)
  moreover have "\<exists>s2. serial_step E ?s1 s2 \<and> serial_step E s2 (after_writes [a] [rc] c s)"
  proof (cases "unlocked_request (Write_Attr a)")
    case True
    let ?s2 = "set_pc ?i W_Checked ?s1"
    have "serial_step E ?s1 ?s2"
      using True r np assms(1,3)
      by (intro serial_stepI [of env ?i] writer_stepI) (auto simp: at_ease_def run_in_progress_def dest!: places_set_pc)
    moreover have "writer_step env ?i ?s2 = Some (unlocked_body env ?i (Write_Attr a) ?s2)"
      by (intro writer_stepI) (simp_all add: set_pc_def)
    moreover have "unlocked_body env ?i (Write_Attr a) ?s2 = after_writes [a] [rc] c s"
      using assms(2) by (simp add: unlocked_body_def set_pc_def set_config_def after_writes_def answered_def)
    ultimately show ?thesis
      using loaded np(2) assms(3) by (auto intro: serial_stepI)
  next
    case False
    let ?s2 = "set_pc ?i W_Locked (?s1\<lparr>s_mutex := Some ?i\<rparr>)"
    have "serial_step E ?s1 ?s2"
      using False np assms(1,3)
      by (intro serial_stepI [of env ?i] writer_stepI) (auto simp: at_ease_def run_in_progress_def dest!: places_set_pc)
    moreover have "writer_step env ?i ?s2 = Some (locked_body env ?i (Write_Attr a) ?s2)"
      by (intro writer_stepI) (simp_all add: set_pc_def)
    moreover have "locked_body env ?i (Write_Attr a) ?s2 = after_writes [a] [rc] c s"
      using assms(1,2) r
      by (simp add: locked_body_def set_pc_def set_config_def after_writes_def answered_def unlock_and_return_def
            sys_running_def at_ease_def)
    ultimately show ?thesis
      using loaded np(2) assms(3) by (auto intro: serial_stepI)
  qed
  ultimately show ?thesis
    by (meson r_into_rtranclp rtranclp.rtrancl_into_rtrancl)
qed

text \<open>So the driver implements the sequential specification \<open>serve\<close> on a series of attribute writes.\<close>

lemma serve_reach:
  assumes "at_ease s" and "serve (kio_config_request env False) as (s_config s) = Inr (rcs, c)" and "E env"
  shows "(serial_step E)\<^sup>*\<^sup>* s (after_writes as rcs c s)"
  using assms(1,2)
proof (induction as arbitrary: s rcs)
  case Nil
  then show ?case
    by (auto simp: after_writes_def)
next
  case (Cons a as)
  then obtain rc c1 rcs' where a: "kio_config_request env False a (s_config s) = Inr (rc, c1)"
    and as: "serve (kio_config_request env False) as c1 = Inr (rcs', c)" and rcs: "rcs = rc # rcs'"
    by (auto split: sum.splits prod.splits)
  let ?s = "after_writes [a] [rc] c1 s"
  have "at_ease ?s"
    using Cons.prems(1) by (auto simp: at_ease_def sys_running_def after_writes_def answered_def run_in_progress_def places_def)
  then have "(serial_step E)\<^sup>*\<^sup>* ?s (after_writes as rcs' c ?s)"
    using as by (intro Cons.IH) (simp_all add: after_writes_def)
  moreover have "after_writes as rcs' c ?s = after_writes (a # as) rcs c s"
    by (simp add: after_writes_def set_config_def rcs)
  ultimately show ?case
    using write_alone [OF Cons.prems(1) a, of E] assms(3) by simp
qed

section \<open>Schedules for the examples\<close>

definition example_module :: kio_module where
  "example_module = \<lparr>m_kobj = Some 7, m_config = kio_config_zero, m_io = example_kio_io\<rparr>"

text \<open>One thread that writes at the first two blocks of the device in random order, and a run of five seconds.\<close>

definition example_writes :: "cfg_request list" where
  "example_writes = [Write_Num_Threads ''1'' 1, Write_Runtime_Seconds ''5'' 1]
     @ map (\<lambda>(v, buf). Write_Thread_Var 10 buf 1 v)
         [(0, ''4096''), (1, ''10''), (2, ''1''), (3, ''4096''), (5, ''8192''), (10, ''1'')]"

definition one_thread :: "kio_thread_config \<Rightarrow> kio_config" where
  "one_thread t = \<lparr>runtime_seconds = 5, num_threads = 1, threads = Some [t]\<rparr>"

definition example_live_thread :: kio_thread_config where
  "example_live_thread = ktc_zero\<lparr>ktc_kobj := Some 10, ktc_block_size := 4096, ktc_queue_depth := 10,
     ktc_offset_random := 1, ktc_offset_stride := 4096, ktc_offset_high := 8192, ktc_write_burst := 1\<rparr>"

lemma example_store:
  assumes "ktc_kobj t = Some 10" and "read_long buf = Inr x" and "kio_var_of_index v = Some var"
  shows "kio_config_request example_env False (Write_Thread_Var 10 buf 1 v) (one_thread t)
    = Inr (1, one_thread (kio_var_set var x t))"
  using assms
  by (simp add: kio_thread_var_store_def kio_thread_config_from_kobj_def config_threads_def one_thread_def example_env_def)

lemma example_create: "kio_config_request example_env False (Write_Num_Threads ''1'' 1) kio_config_zero
    = Inr (1, kio_config_zero\<lparr>num_threads := 1, threads := Some [ktc_zero\<lparr>ktc_kobj := Some 10\<rparr>]\<rparr>)"
  by code_simp

lemma example_seconds: "kio_config_request example_env False (Write_Runtime_Seconds ''5'' 1)
    (kio_config_zero\<lparr>num_threads := 1, threads := Some [ktc_zero\<lparr>ktc_kobj := Some 10\<rparr>]\<rparr>)
    = Inr (1, one_thread (ktc_zero\<lparr>ktc_kobj := Some 10\<rparr>))"
  by code_simp

lemma example_texts: "read_long ''4096'' = Inr 4096" "read_long ''10'' = Inr 10" "read_long ''1'' = Inr 1"
  "read_long ''8192'' = Inr 8192"
  by code_simp+

lemma example_indices: "kio_var_of_index 0 = Some KIO_BLOCK_SIZE" "kio_var_of_index 1 = Some KIO_QUEUE_DEPTH"
  "kio_var_of_index 2 = Some KIO_OFFSET_RANDOM" "kio_var_of_index 3 = Some KIO_OFFSET_STRIDE"
  "kio_var_of_index 4 = Some KIO_OFFSET_LOW" "kio_var_of_index 5 = Some KIO_OFFSET_HIGH"
  "kio_var_of_index 10 = Some KIO_WRITE_BURST"
  by code_simp+

lemma example_serve: "serve (kio_config_request example_env False) example_writes kio_config_zero
    = Inr ([1, 1, 1, 1, 1, 1, 1, 1], one_thread example_live_thread)"
  by (simp add: example_writes_def example_create example_seconds example_store example_texts example_indices
        example_live_thread_def del: config_request_thread_var One_nat_def)

lemma example_admitted:
  "run_workload_admit example_env example_kio_io False (one_thread example_live_thread) = Inr (0, one_thread example_live_thread)"
  by code_simp

text \<open>The driver loaded and configured.\<close>

definition example_ready :: sys where
  "example_ready = after_writes example_writes [1, 1, 1, 1, 1, 1, 1, 1] (one_thread example_live_thread) (sys_init example_module)"

lemma example_ready_reach: "(serial_step ((=) example_env))\<^sup>*\<^sup>* (sys_init example_module) example_ready"
  unfolding example_ready_def
  by (rule serve_reach [where env = example_env])
     (simp_all add: at_ease_def sys_running_def run_in_progress_def places_def sys_init_def example_module_def example_serve)

text \<open>A write to \<open>run_workload\<close> that is admitted and starts its thread.\<close>

definition example_start :: "sys_action list" where
  "example_start = [Do_Arrive (Write_Run_Workload 1), Do_Handler 8, Do_Handler 8] @ map Do_Run (control_steps 4)"

lemma example_acts_reach:
  assumes "map_option f (sys_acts example_env as example_ready) = Some v"
  obtains s where "(sys_step ((=) example_env))\<^sup>*\<^sup>* (sys_init example_module) s" and "f s = v"
proof -
  from assms obtain s where "(sys_step ((=) example_env))\<^sup>*\<^sup>* example_ready s" and "f s = v"
    by (rule sys_acts_reach) simp
  with serial_steps [OF example_ready_reach] that show ?thesis
    by (metis rtranclp_trans)
qed

lemma example_serial_reach:
  assumes "map_option f (serial_acts example_env as example_ready) = Some v"
  obtains s where "(serial_step ((=) example_env))\<^sup>*\<^sup>* (sys_init example_module) s" and "f s = v"
proof -
  from assms obtain s where "serial_acts example_env as example_ready = Some s" "f s = v"
    by auto
  with serial_acts_steps [of example_env as example_ready s "(=) example_env"] example_ready_reach that show ?thesis
    by (metis rtranclp_trans)
qed

section \<open>The mutex\<close>

text \<open>C10: Mutual exclusion.  In every interleaving at most one handler is between \<open>mutex_lock\<close> and
  \<open>mutex_unlock\<close>; only writers of thread attributes are past the unlocked test, only writers of the other
  attributes are past \<open>mutex_lock\<close> and only writers of \<open>run_workload\<close> are inside \<open>kio_run\<close>; and while a run is in
  progress its handler exists and holds the mutex.\<close>

theorem mutex_excludes:
  assumes "(sys_step E)\<^sup>*\<^sup>* (sys_init m) s" and "i < length (s_writers s)" and "j < length (s_writers s)"
  shows "(holds_mutex (s_writers s ! i) \<and> holds_mutex (s_writers s ! j) \<longrightarrow> j = i) \<and> writer_ok (s_writers s ! j)
    \<and> (\<not> at_rest (s_run s) \<longrightarrow> (\<exists>k < length (s_writers s). holds_mutex (s_writers s ! k) \<and> in_run (s_writers s ! k)))
    \<and> (\<not> at_rest (s_run s) \<and> holds_mutex (s_writers s ! i) \<longrightarrow> in_run (s_writers s ! i))"
proof -
  have "sys_inv s"
    using assms(1) by (rule sys_inv_reach)
  then have lock: "lock_inv s" and rest: "rest_inv s"
    by (simp_all add: sys_inv_def)
  have hold: "holds_mutex (s_writers s ! k) \<longleftrightarrow> s_mutex s = Some k" and ok: "writer_ok (s_writers s ! k)"
    if "k < length (s_writers s)" for k
    using lock that by (simp_all add: lock_inv_def del: writer_ok.simps holds_mutex.simps)
  have "\<exists>k < length (s_writers s). s_mutex s = Some k \<and> in_run (s_writers s ! k)" if "\<not> at_rest (s_run s)"
    using rest that by (simp add: rest_inv_def del: in_run.simps)
  with hold ok assms(2,3) show ?thesis
    by (auto simp del: writer_ok.simps holds_mutex.simps in_run.simps)
qed

theorem mutex_excludes_witness:
  "\<exists>s. (sys_step ((=) example_env))\<^sup>*\<^sup>* (sys_init example_module) s \<and> map wr_pc (drop 8 (s_writers s)) = [W_In_Run, W_Enter]
     \<and> in_run (s_writers s ! 8) \<and> \<not> holds_mutex (s_writers s ! 9)"
proof -
  let ?f = "\<lambda>s. (map wr_pc (drop 8 (s_writers s)), map_option r_pc (s_run s), wr_pc (s_writers s ! 8), length (s_writers s))"
  have "map_option ?f (sys_acts example_env (example_start @ [Do_Arrive (Write_Run_Workload 1)]) example_ready)
    = Some ([W_In_Run, W_Enter], Some Wait_Timeout, W_In_Run, 10)"
    by code_simp
  then obtain s where s: "(sys_step ((=) example_env))\<^sup>*\<^sup>* (sys_init example_module) s"
    and f: "?f s = ([W_In_Run, W_Enter], Some Wait_Timeout, W_In_Run, 10)"
    by (rule example_acts_reach)
  from mutex_excludes [OF s, of 8 9] f s show ?thesis
    by auto
qed

text \<open>C29: Under the mutex \<open>kio_running\<close> is clear, except after a failed start.  When a handler that holds the mutex
  finds the flag set, the last run has returned without a thread: \<open>kzalloc\<close> failed, or \<open>kthread_run\<close> failed for
  the first thread.  The handler then returns \<open>-EBUSY\<close>, releases the mutex and changes nothing else.\<close>

theorem locked_busy_after_failed_start:
  assumes "(sys_step E)\<^sup>*\<^sup>* (sys_init m) s" and "i < length (s_writers s)" and "wr_pc (s_writers s ! i) = W_Locked"
    and "sys_running s"
  shows "writer_step env i s = Some (set_pc i (W_Return (- EBUSY)) (s\<lparr>s_mutex := None\<rparr>))
    \<and> (\<exists>r rc. s_run s = Some r \<and> r_pc r = Returned rc
        \<and> (r_tasks r = [] \<and> rc = - ENOMEM \<or> (\<exists>n. r_tasks r = Err_Task rc # replicate n No_Task)))"
proof -
  have inv: "sys_inv s"
    using assms(1) by (rule sys_inv_reach)
  then have "at_rest (s_run s)"
    using rest_inv_idle [of s i] assms(2,3) by (simp add: sys_inv_def)
  then obtain r rc where r: "s_run s = Some r" "r_pc r = Returned rc" "r_running r"
    using assms(4) by (auto simp: sys_running_def kio_is_running_def split: option.splits)
  with inv obtain ok n where "returned_inv ok n rc r"
    by (auto simp: sys_inv_def shape_inv_def place_inv_def)
  with r have "r_tasks r = [] \<and> rc = - ENOMEM \<or> (\<exists>n. r_tasks r = Err_Task rc # replicate n No_Task)"
    by (auto simp: returned_inv_def)
  moreover have "writer_step env i s = Some (set_pc i (W_Return (- EBUSY)) (s\<lparr>s_mutex := None\<rparr>))"
    using assms(2-4) by (simp add: writer_step_def locked_body_busy unlock_and_return_def)
  ultimately show ?thesis
    using r by blast
qed

theorem locked_busy_after_failed_start_witness:
  "\<exists>s r. (sys_step ((=) example_env))\<^sup>*\<^sup>* (sys_init example_module) s \<and> wr_pc (s_writers s ! 9) = W_Locked
     \<and> s_run s = Some r \<and> r_pc r = Returned (- ENOMEM)"
proof -
  let ?f = "\<lambda>s. (wr_pc (s_writers s ! 9), map_option (\<lambda>r. (r_pc r, r_running r)) (s_run s), length (s_writers s))"
  have "map_option ?f (sys_acts example_env ([Do_Arrive (Write_Run_Workload 1), Do_Handler 8, Do_Handler 8,
        Do_Run (Act_Control example_run_choice), Do_Run (Act_Control (example_run_choice\<lparr>rc_kzalloc := False\<rparr>)),
        Do_Handler 8, Do_Arrive (Write_Run_Workload 1), Do_Handler 9]) example_ready)
    = Some (W_Locked, Some (Returned (- ENOMEM), True), 10)"
    by code_simp
  then obtain s where s: "(sys_step ((=) example_env))\<^sup>*\<^sup>* (sys_init example_module) s"
    and f: "?f s = (W_Locked, Some (Returned (- ENOMEM), True), 10)"
    by (rule example_acts_reach)
  then have "sys_running s"
    by (auto simp: sys_running_def kio_is_running_def)
  from locked_busy_after_failed_start [OF s _ _ this, of 9] f s show ?thesis
    by auto
qed

end
