(* ===== verification/Kio_System_Run.thy ===== *)
theory Kio_System_Run
  imports Kio_System_Props
begin

text \<open>
  Runs inside the loaded driver: the flag \<open>kio_running\<close> freezes the configuration once it is set; when no
  attribute write overlaps a run, the run inside the driver is a run of \<open>Kio_Run\<close> on a validated
  configuration; and what an overlapping write or the exit of the module does to a run.
\<close>

section \<open>The running flag\<close>

text \<open>Steps during which the flag stays set and the module stays loaded.\<close>

definition flagged_step :: "(cfg_env \<Rightarrow> bool) \<Rightarrow> sys \<Rightarrow> sys \<Rightarrow> bool" where
  "flagged_step E s s' \<longleftrightarrow> sys_step E s s' \<and> sys_running s' \<and> s_exit s' = Loaded"

text \<open>C9: The flag freezes the configuration.  Once \<open>kio_running\<close> is set, no attribute write is past its test of
  the flag and the module is not unloaded, no request of any kind changes the configuration until the flag is
  cleared, and the run goes on by the steps of \<open>kio_run\<close> on that one configuration.\<close>

theorem flag_freezes_config:
  assumes "s_exit s = Loaded" and "sys_running s" and "\<not> write_pending s" and "(flagged_step E)\<^sup>*\<^sup>* s s'"
  shows "s_config s' = s_config s \<and> s_io s' = s_io s \<and> \<not> write_pending s'
    \<and> (run_step (s_io s) (run_threads (s_config s)))\<^sup>*\<^sup>* (the (s_run s)) (the (s_run s'))"
  using assms(4)
proof (induction rule: rtranclp_induct)
  case base
  then show ?case
    using assms(3) by simp
next
  case (step x y)
  have "sys_running x" "s_exit x = Loaded"
    using step(1) assms(1,2) by (auto simp: flagged_step_def elim: rtranclp.cases)
  with step frozen_step [of E x y] show ?case
    by (auto simp: flagged_step_def)
qed

theorem flag_freezes_config_witness:
  "\<exists>s. (sys_step ((=) example_env))\<^sup>*\<^sup>* (sys_init example_module) s \<and> sys_running s
     \<and> (\<forall>s'. (flagged_step ((=) example_env))\<^sup>*\<^sup>* s s' \<longrightarrow> s_config s' = s_config s)"
proof -
  let ?f = "\<lambda>s. (s_exit s, map_option r_running (s_run s), list_ex (\<lambda>w. wr_pc w = W_Checked) (s_writers s))"
  have "map_option ?f (sys_acts example_env example_start example_ready) = Some (Loaded, Some True, False)"
    by code_simp
  then obtain s where s: "(sys_step ((=) example_env))\<^sup>*\<^sup>* (sys_init example_module) s"
    and f: "?f s = (Loaded, Some True, False)"
    by (rule example_acts_reach)
  have "sys_running s" "\<not> write_pending s"
    using f by (auto simp: sys_running_def kio_is_running_def write_pending_def places_def list_ex_iff)
  with flag_freezes_config [OF _ this] f s show ?thesis
    by auto
qed

section \<open>Writes that do not overlap a run\<close>

text \<open>The run in progress is a run on the present configuration, which is valid.\<close>

definition run_refines :: "kio_io \<Rightarrow> sys \<Rightarrow> bool" where
  "run_refines io s \<longleftrightarrow> s_io s = io \<and>
     (run_in_progress s \<longrightarrow>
        (\<exists>r. s_run s = Some r \<and> (run_step io (run_threads (s_config s)))\<^sup>*\<^sup>* run_init r)
        \<and> (\<forall>t \<in> set (run_threads (s_config s)). thread_valid (dev_byte_size io) t))"

lemma run_in_progress_set_pc:
  "run_in_progress (set_pc i p s) \<Longrightarrow> p \<noteq> W_In_Run \<Longrightarrow> run_in_progress s"
  by (auto simp: run_in_progress_def dest: places_set_pc)

lemma run_in_progress_holder:
  assumes "run_in_progress s" and "lock_inv s"
  obtains j where "j < length (s_writers s)" "wr_pc (s_writers s ! j) = W_In_Run" "s_mutex s = Some j"
proof -
  from assms(1) obtain j where j: "j < length (s_writers s)" "wr_pc (s_writers s ! j) = W_In_Run"
    by (auto simp: run_in_progress_def places_def in_set_conv_nth)
  with lock_inv_holder [OF assms(2) j(1)] that show ?thesis
    by simp
qed

text \<open>A handler that holds the mutex and is not inside \<open>kio_run\<close> excludes a run.\<close>

lemma locked_no_run:
  assumes "lock_inv s" and "i < length (s_writers s)" and "wr_pc (s_writers s ! i) = W_Locked"
  shows "\<not> run_in_progress s"
proof
  assume "run_in_progress s"
  then obtain j where "wr_pc (s_writers s ! j) = W_In_Run" "s_mutex s = Some j"
    using assms(1) by (rule run_in_progress_holder)
  with lock_inv_holder [OF assms(1,2)] assms(3) show False
    by simp
qed

lemma run_refines_locked:
  assumes "lock_inv s" and "i < length (s_writers s)" and "wr_pc (s_writers s ! i) = W_Locked" and "s_io s = io"
  shows "run_refines io (locked_body env i req s)"
proof (cases rule: locked_body_cases [of env i req s])
  case (start len c)
  have "thread_valid (dev_byte_size io) t" if "t \<in> set (run_threads c)" for t
    using admit_valid [OF start(2)] that assms(4) unfolding run_threads_def by (metis in_set_takeD)
  with start assms(4) show ?thesis
    by (simp add: run_refines_def)
qed (use locked_no_run [OF assms(1-3)] assms(4) in
      \<open>auto simp: run_refines_def unlock_and_return_def run_in_progress_def dest!: places_set_pc\<close>)

lemma run_refines_writer:
  assumes "writer_step env i s = Some s'" and "lock_inv s" and "serial s" and "run_refines io s"
  shows "run_refines io s'"
  using assms(1)
proof (cases rule: writer_step_cases)
  case unlocked
  then have np: "\<not> run_in_progress s" and u: "unlocked_request (wr_req (s_writers s ! i))"
    using assms(2,3) places_nth [of i s] by (auto simp: serial_def write_pending_def lock_inv_def)
  from u show ?thesis
    by (cases rule: unlocked_body_cases [where env = env and i = i and s = s])
       (use unlocked np assms(4) in \<open>auto simp: run_refines_def run_in_progress_def dest!: places_set_pc\<close>)
next
  case locked
  with assms(2,4) run_refines_locked show ?thesis
    by (simp add: run_refines_def)
qed (use assms(4) in \<open>auto simp: run_refines_def run_in_progress_def unlock_and_return_def dest!: places_set_pc\<close>)

lemma run_refines_step:
  assumes "serial_step E s s'" and "lock_inv s" and "serial s" and "run_refines io s"
  shows "run_refines io s'"
proof -
  have "sys_step E s s'" and "s_exit s' = Loaded"
    using assms(1) by (auto simp: serial_step_def serial_def)
  then show ?thesis
  proof cases
    case (handler env i)
    from this(2) assms(2-4) show ?thesis by (rule run_refines_writer)
  next
    case exit
    with \<open>s_exit s' = Loaded\<close> assms(3) show ?thesis
      by (auto simp: exit_step_def serial_def)
  next
    case (run r r')
    with assms(4) show ?thesis
      by (auto simp: run_refines_def run_in_progress_def intro: rtranclp.rtrancl_into_rtrancl)
  qed (use assms(4) in \<open>auto simp: run_refines_def run_in_progress_def\<close>)
qed

lemma serial_inv_reach:
  assumes "(serial_step E)\<^sup>*\<^sup>* (sys_init m) s"
  shows "lock_inv s \<and> serial s \<and> run_refines (m_io m) s"
  using assms
proof (induction rule: rtranclp_induct)
  case base
  show ?case
    using lock_inv_reach [of E m "sys_init m"]
    by (simp add: serial_def run_refines_def run_in_progress_def write_pending_def places_def sys_init_def)
next
  case (step x y)
  then show ?case
    using lock_inv_step run_refines_step by (metis serial_step_def)
qed

text \<open>C3: A driver whose attribute writes do not overlap its runs refines \<open>kio_run\<close>: whenever a run is in progress,
  its state is one that \<open>kio_run\<close> reaches alone on the configuration as it is, and every thread of that
  configuration satisfies \<open>thread_valid\<close> for the device; so every property of a run holds in the driver.\<close>

theorem serial_driver_refines_run:
  assumes "(serial_step E)\<^sup>*\<^sup>* (sys_init m) s" and "run_in_progress s"
  shows "\<exists>r. s_run s = Some r \<and> (run_step (m_io m) (run_threads (s_config s)))\<^sup>*\<^sup>* run_init r
    \<and> (\<forall>t \<in> set (run_threads (s_config s)). thread_valid (dev_byte_size (m_io m)) t)"
  using serial_inv_reach [OF assms(1)] assms(2) by (auto simp: run_refines_def)

theorem serial_driver_refines_run_witness:
  "\<exists>s r. (serial_step ((=) example_env))\<^sup>*\<^sup>* (sys_init example_module) s \<and> s_run s = Some r \<and> r_pc r = Wait_Timeout
     \<and> (run_step example_kio_io [example_live_thread])\<^sup>*\<^sup>* run_init r"
proof -
  let ?f = "\<lambda>s. (list_ex (\<lambda>w. wr_pc w = W_In_Run) (s_writers s), map_option r_pc (s_run s), s_config s)"
  have "map_option ?f (serial_acts example_env example_start example_ready)
    = Some (True, Some Wait_Timeout, one_thread example_live_thread)"
    by code_simp
  then obtain s where s: "(serial_step ((=) example_env))\<^sup>*\<^sup>* (sys_init example_module) s"
    and f: "?f s = (True, Some Wait_Timeout, one_thread example_live_thread)"
    by (rule example_serial_reach)
  then have "run_in_progress s"
    by (force simp: run_in_progress_def places_def list_ex_iff)
  from serial_driver_refines_run [OF s this] f s show ?thesis
    by (auto simp: run_threads_def one_thread_def example_module_def)
qed

section \<open>Writes that overlap a run\<close>

text \<open>A write of \<open>-8192\<close> to \<open>offset_low\<close> passes its test before the run starts and is stored while the thread runs.\<close>

definition example_race :: "sys_action list" where
  "example_race = [Do_Arrive (Write_Attr (Write_Thread_Var 10 ''-8192'' 1 4)), Do_Handler 8,
     Do_Arrive (Write_Run_Workload 1), Do_Handler 9, Do_Handler 9] @ map Do_Run (control_steps 4)
     @ [Do_Handler 8] @ map Do_Run (work_steps 7)"

definition lost_pages :: "run \<Rightarrow> nat list" where
  "lost_pages r = concat (map (\<lambda>t. case t of Task w \<Rightarrow> w_lost w | _ \<Rightarrow> []) (r_tasks r))"

text \<open>C26: The flag does not protect a run from a write that had passed its test before.  From a freshly loaded driver
  there is a history in which \<open>run_workload\<close> validates the configuration and starts the run, an attribute write
  then stores a value that the validation would refuse, and a thread's request is refused by
  \<open>kio_io_submit\<close> while \<open>kio_running\<close> is set: the thread hangs and its page is lost.\<close>

theorem unlocked_write_breaks_run:
  "\<exists>s r. (sys_step ((=) example_env))\<^sup>*\<^sup>* (sys_init example_module) s \<and> s_run s = Some r \<and> kio_is_running r
     \<and> run_in_progress s \<and> lost_pages r = [7]
     \<and> \<not> list_ex (thread_valid (dev_byte_size (s_io s))) (run_threads (s_config s))"
proof -
  let ?f = "\<lambda>s. (map_option (\<lambda>r. (r_running r, lost_pages r)) (s_run s), list_ex (\<lambda>w. wr_pc w = W_In_Run) (s_writers s),
    list_ex (thread_valid (dev_byte_size (s_io s))) (run_threads (s_config s)))"
  have "map_option ?f (sys_acts example_env example_race example_ready) = Some (Some (True, [7]), True, False)"
    by code_simp
  then obtain s where s: "(sys_step ((=) example_env))\<^sup>*\<^sup>* (sys_init example_module) s"
    and f: "?f s = (Some (True, [7]), True, False)"
    by (rule example_acts_reach)
  then have "run_in_progress s"
    by (force simp: run_in_progress_def places_def list_ex_iff)
  with s f show ?thesis
    by (auto simp: kio_is_running_def)
qed

end
