(* ===== verification/Kio_System_Exit.thy ===== *)
theory Kio_System_Exit
  imports Kio_System_Run
begin

text \<open>
  Unloading the module while requests are handled.  When every handler has returned the steps of the exit are
  \<open>kio_exit\<close>; otherwise they release the device, and free the configurations, under a run.
\<close>

section \<open>The exit of a quiet driver\<close>

definition exit_steps :: "nat \<Rightarrow> sys \<Rightarrow> sys option" where
  "exit_steps n s = ((\<lambda>so. Option.bind so exit_step) ^^ n) (Some s)"

lemma returned_all_returned: "list_all returned (s_writers s) \<Longrightarrow> all_returned P s"
  by (auto simp: all_returned_def list_all_iff)

lemma all_returned_simps [simp]:
  "all_returned P (s\<lparr>s_mod := m\<rparr>) = all_returned P s" "all_returned P (s\<lparr>s_exit := e\<rparr>) = all_returned P s"
  "all_returned P (s\<lparr>s_run := r\<rparr>) = all_returned P s" "all_returned P (s\<lparr>s_mutex := k\<rparr>) = all_returned P s"
  "all_returned P (set_config c s) = all_returned P s"
  by (simp_all add: all_returned_def)

text \<open>Once every handler has returned, the three steps of the exit are \<open>kio_exit\<close>: they end with the module as
  \<open>kio_exit\<close> leaves it, or, when \<open>kio_exit\<close> faults, at the same fault.\<close>

lemma exit_is_kio_exit:
  assumes "s_exit s = Loaded" and "list_all returned (s_writers s)"
  shows "(kio_exit (s_mod s) = Inr (m, es) \<longrightarrow> exit_steps 3 s = Some (s\<lparr>s_mod := m, s_exit := Unloaded\<rparr>))
    \<and> (kio_exit (s_mod s) = Inl f \<longrightarrow> map_option s_exit (exit_steps 2 s) = Some (Exit_Trapped f))"
proof -
  let ?s1 = "s\<lparr>s_mod := (s_mod s)\<lparr>m_io := fst (kio_io_exit (s_io s))\<rparr>, s_exit := Io_Released\<rparr>"
  have s1: "exit_step s = Some ?s1"
    using assms(1) by (simp add: exit_step_def)
  have s2: "exit_step ?s1 = Some (case kio_config_destroy_all_threads (s_config s) of
      Inl f \<Rightarrow> ?s1\<lparr>s_exit := Exit_Trapped f\<rparr> | Inr (c, es) \<Rightarrow> (set_config c ?s1)\<lparr>s_exit := Threads_Destroyed\<rparr>)"
    using assms(2) by (simp add: exit_step_def returned_all_returned)
  show ?thesis
  proof (cases "kio_config_destroy_all_threads (s_config s)")
    case (Inl e)
    with s1 s2 show ?thesis
      by (simp add: exit_steps_def kio_exit_def kio_config_exit_def numeral_eq_Suc split: prod.splits)
  next
    case (Inr p)
    obtain c fs where p: "p = (c, fs)"
      by fastforce
    let ?s2 = "(set_config c ?s1)\<lparr>s_exit := Threads_Destroyed\<rparr>"
    have "exit_step ?s2 = Some (?s2\<lparr>s_exit := Unloaded\<rparr>)"
      using assms(2) by (simp add: exit_step_def returned_all_returned)
    moreover have "s_mod ?s2 = (s_mod s)\<lparr>m_io := fst (kio_io_exit (s_io s)), m_config := c\<rparr>"
      by (simp add: set_config_def)
    ultimately show ?thesis
      using s1 s2 Inr p
      by (auto simp: exit_steps_def kio_exit_def kio_config_exit_def numeral_eq_Suc set_config_def split: prod.splits)
  qed
qed

section \<open>What the exit does to a run\<close>

text \<open>Unloading does not wait for a run before it releases what the run uses.  From a freshly loaded driver there
  is a history in which \<open>kio_exit\<close> releases the device during a run, so that the next request of a thread is
  refused and lost, and then frees the array of the configurations, while \<open>kio_running\<close> is set and the thread,
  which has not exited, still points into it.\<close>

lemma exit_frees_under_run:
  "\<exists>s r w. (sys_step ((=) example_env))\<^sup>*\<^sup>* (sys_init example_module) s \<and> run_in_progress s \<and> s_exit s = Threads_Destroyed
     \<and> threads (s_config s) = None \<and> s_run s = Some r \<and> kio_is_running r \<and> r_tasks r = [Task w]
     \<and> w_lost w = [7] \<and> w_pc w = Drain"
proof -
  let ?f = "\<lambda>s. (list_ex (\<lambda>w. wr_pc w = W_In_Run) (s_writers s), s_exit s, threads (s_config s) = None,
    map_option (\<lambda>r. (r_running r, map (\<lambda>t. case t of Task w \<Rightarrow> Some (w_lost w, w_pc w) | _ \<Rightarrow> None) (r_tasks r))) (s_run s))"
  let ?v = "(True, Threads_Destroyed, True, Some (True, [Some ([7], Drain)]))"
  have "map_option ?f (sys_acts example_env
      (example_start @ map Do_Run (work_steps 6) @ [Do_Exit] @ map Do_Run (work_steps 1) @ [Do_Exit]) example_ready) = Some ?v"
    by code_simp
  then obtain s where s: "(sys_step ((=) example_env))\<^sup>*\<^sup>* (sys_init example_module) s" and f: "?f s = ?v"
    by (rule example_acts_reach)
  then have "run_in_progress s"
    by (force simp: run_in_progress_def places_def list_ex_iff)
  with s f show ?thesis
    by (auto simp: kio_is_running_def split: task.splits)
qed

text \<open>Threads can be created while the module is unloaded.  There is a history in which \<open>num_threads\<close> is written
  after \<open>kio_config_destroy_all_threads\<close> and before the object of the module is put: the module is unloaded
  with the array of the threads and their objects still allocated.\<close>

lemma exit_leaks_threads:
  "\<exists>s. (sys_step ((=) example_env))\<^sup>*\<^sup>* (sys_init example_module) s \<and> s_exit s = Unloaded
     \<and> map_option (map ktc_kobj) (threads (s_config s)) = Some [Some 10]"
proof -
  let ?f = "\<lambda>s. (s_exit s, map_option (map ktc_kobj) (threads (s_config s)))"
  have "map_option ?f (sys_acts example_env [Do_Exit, Do_Exit, Do_Arrive (Write_Attr (Write_Num_Threads ''1'' 1)),
      Do_Handler 0, Do_Handler 0, Do_Exit] (sys_init example_module)) = Some (Unloaded, Some [Some 10])"
    by code_simp
  then obtain s where "(sys_step ((=) example_env))\<^sup>*\<^sup>* (sys_init example_module) s" and "?f s = (Unloaded, Some [Some 10])"
    by (rule sys_acts_reach) simp
  then show ?thesis
    by auto
qed

text \<open>C27: Unloading is not synchronised with the requests.  From a freshly loaded driver there is a history in
  which \<open>kio_exit\<close> releases the device and frees the configurations under a run: the flag is set, a thread has not
  exited and has lost the request it submitted after the release.  And there is one in which a write to
  \<open>num_threads\<close> creates threads behind \<open>kio_config_destroy_all_threads\<close>, which are never freed.\<close>

theorem exit_not_synchronised:
  "(\<exists>s r w. (sys_step ((=) example_env))\<^sup>*\<^sup>* (sys_init example_module) s \<and> run_in_progress s \<and> s_exit s = Threads_Destroyed
     \<and> threads (s_config s) = None \<and> s_run s = Some r \<and> kio_is_running r \<and> r_tasks r = [Task w]
     \<and> w_lost w = [7] \<and> w_pc w = Drain)
   \<and> (\<exists>s. (sys_step ((=) example_env))\<^sup>*\<^sup>* (sys_init example_module) s \<and> s_exit s = Unloaded
     \<and> map_option (map ktc_kobj) (threads (s_config s)) = Some [Some 10])"
  using exit_frees_under_run exit_leaks_threads by (rule conjI)

section \<open>The configuration\<close>

text \<open>C17: In every interleaving of the requests, the run and the exit the configuration stays well formed: the run
  time stays within its bound, and when there is an array of threads it has \<open>num_threads\<close> elements, each with a
  kernel object of its own.  The kernel may answer each request differently; it is only assumed that the objects it
  creates for one array of threads are different.\<close>

theorem driver_keeps_config_wf:
  assumes "(sys_step E)\<^sup>*\<^sup>* (sys_init m) s" and "config_wf (m_config m)"
    and "\<forall>env. E env \<longrightarrow> kobjs_distinct env"
  shows "config_wf (s_config s)"
  using assms(1)
proof (rule driver.steps_invariant)
  show "config_wf (s_config (sys_init m))"
    using assms(2) by (simp add: sys_init_def)
qed (use assms(3) sys_config_wf_step in blast)

theorem driver_keeps_config_wf_witness:
  "\<exists>s. (sys_step ((=) example_env))\<^sup>*\<^sup>* (sys_init example_module) s \<and> s_config s = one_thread example_live_thread
     \<and> config_wf (one_thread example_live_thread)"
proof -
  have s: "(sys_step ((=) example_env))\<^sup>*\<^sup>* (sys_init example_module) example_ready"
    using example_ready_reach by (rule serial_steps)
  have c: "s_config example_ready = one_thread example_live_thread"
    by (simp add: example_ready_def after_writes_def)
  have "config_wf (m_config example_module)"
    by (simp add: example_module_def config_wf_zero)
  from driver_keeps_config_wf [OF s this] example_kobjs_distinct s c show ?thesis
    by auto
qed

end
