(* ===== verification/Spec2Isabelle.thy ===== *)
theory Spec2Isabelle
  imports Kio_System_Exit
begin

text \<open>
  Verification of the kio driver, a Linux kernel module that generates block I/O from configured worker
  threads (\<open>driver/\<close>).  User space writes the configuration through sysfs and starts a run; the driver
  validates the configuration against the device, creates one thread per configuration, and every thread
  submits page-sized requests, keeping up to its queue depth in flight, until the run time is over; then
  the threads are stopped and statistics are printed.

  \<^bold>\<open>Parts and theories.\<close>
  \<^item> \<open>Kio_Prelude\<close>: the machine integer types as words, error numbers, faults, signed C division and its
    lemmas, the collections \<open>kio_word\<close> and \<open>kio_inv\<close>.  \<open>Kio_Text\<close>: decimal text of \<open>sprintf\<close> and its
    readers.  \<open>Kio_Transition\<close>: the locales \<open>transition_system\<close> and \<open>terminating_system\<close>, and
    \<open>held_after\<close>, which replays a trace of acquired and released resources.
  \<^item> \<open>Kio_Compat\<close> (\<open>kio_compat.h\<close>): which kernel interfaces are used for a kernel version, the inline
    functions and the wrapper macros.
  \<^item> \<open>Kio_Io\<close>, \<open>Kio_Io_Props\<close> (\<open>kio_io.c\<close>, \<open>kio_io.h\<close>): \<open>struct kio_io\<close>, \<open>kio_io_init\<close> with its error
    labels, \<open>kio_io_exit\<close>, \<open>kio_io_offset_is_valid\<close>, \<open>kio_io_submit\<close> and the start time of a bio.
  \<^item> \<open>Kio_Config\<close>, \<open>Kio_Config_Props\<close>, \<open>Kio_Handlers\<close> (\<open>kio_config.c\<close>, \<open>kio_config.h\<close>): the configuration
    records with the field widths of the source, \<open>kio_config_is_valid\<close>, the sysfs handlers, creation and
    destruction of the kernel objects.  \<open>thread_valid\<close> is the abstract meaning of a valid thread
    configuration, \<open>fit_window\<close> what the validation makes of it.  The locale \<open>attr_bank\<close> states the laws of a
    set of attributes and is interpreted on the thirteen thread attributes; \<open>guarded_handler\<close> states the busy
    guard and is interpreted on the handlers.
  \<^item> \<open>Kio_Thread\<close>, \<open>Kio_Thread_Props\<close>, \<open>Kio_Direction\<close> (\<open>kio_run.c\<close>): \<open>struct kio_thread\<close>, the choice of
    direction and offset, the delay, the completion handler.  The locale \<open>offset_source\<close> is interpreted
    on \<open>kio_thread_next_offset\<close>; \<open>burst_spec\<close> is the reference for the directions, and the two countdowns
    of the code refine it.
  \<^item> \<open>Kio_Worker\<close>, \<open>Kio_Worker_Inv\<close>, \<open>Kio_Worker_Stop\<close>, \<open>Kio_Worker_Props\<close> (\<open>kio_thread_fn\<close>,
    \<open>kio_bio_completion\<close>): the worker as a step relation, one access to shared state per step, interleaved
    with the completion handlers of its requests (one statement per step), the stop request and signals.  A
    thread that finds the condition of one of its three waits false falls asleep and takes no step until it is
    woken.  Both locales of \<open>Kio_Transition\<close> are interpreted on it.
  \<^item> \<open>Kio_Stats\<close>, \<open>Kio_Stats_Props\<close> (\<open>kio_run_stats_thread\<close>, \<open>kio_run_stats_total\<close>): the figures with their
    integer conversions and wrap-around, and the text printed.
  \<^item> \<open>Kio_Run\<close>, \<open>Kio_Run_Inv\<close>, \<open>Kio_Run_Props\<close> (\<open>kio_run\<close>, \<open>run_workload\<close>): the controller as a step machine,
    composed with its workers into one system; the request that starts a run.  \<open>kthread_stop\<close> faults on an error
    pointer, and on a thread that has returned when its task was freed.  \<open>Kio_Run_Finish\<close>: a run can be
    brought to its end (a second interpretation of \<open>terminating_system\<close>, on workers that submit successfully).
    \<open>Kio_Run_Report\<close>: from the worker's counters to the printed line.
  \<^item> \<open>Kio_Main\<close> (\<open>kio_main.c\<close>): loading and unloading.
  \<^item> \<open>Kio_System\<close>, \<open>Kio_System_Inv\<close>, \<open>Kio_System_Props\<close>, \<open>Kio_System_Run\<close>, \<open>Kio_System_Exit\<close> (the store handlers of
    \<open>kio_config.c\<close>, \<open>kio_config.mutex\<close>, \<open>kio_exit\<close>): the loaded driver as one concurrent system.  A state \<open>sys\<close> holds
    the module, the holder of the mutex, the writers, each at a place in its handler, the run, and how far the
    exit has come; \<open>sys_step\<close> interleaves the arrival of requests, the handlers, the steps of \<open>run_step\<close> on the
    configuration of that moment, and the exit.  Its argument is the set of answers that the kernel may give; each
    step of a handler gets one of its own.  This theory holds the properties that span all parts.

  \<^bold>\<open>How code becomes definitions.\<close>  A C function is a function on explicit state that returns the C result
  and the new state; \<open>Inl\<close> of a \<open>fault\<close> is a run that dereferences a null or error pointer or divides by
  zero.  Integers are words of the width of the C type, read with \<open>uint\<close> or \<open>sint\<close> as the C expression does.
  What the kernel answers (memory, devices, kernel objects, parsed numbers, the clock, random numbers)
  is an argument: the records \<open>io_env\<close>, \<open>cfg_env\<close>, \<open>submit_env\<close>, \<open>choice\<close> and \<open>run_choice\<close>.  A handler that
  takes the configuration mutex waits for it in one step and does its work in another, \<open>run_workload\<close> up to the
  call of \<open>kio_run\<close>; the handler of the thread attributes, which does not take it, tests \<open>kio_is_running\<close> in one
  step and stores the value in another.

  \<^bold>\<open>What is shown.\<close>  Validation decides exactly its specification, and protects every submission of every run in
  every history of the driver in which no attribute write overlaps a run, from loading to \<open>kio_io_submit\<close>;
  such a driver refines \<open>kio_run\<close> alone.  The mutex excludes, the running flag freezes the configuration, the
  configuration stays well formed, in every interleaving.
  Generated offsets and directions have closed descriptions; the dispatch counter, the pages and the completions
  are accounted for exactly, up to the count in the printed report; queue depth is respected; stopping a
  worker terminates within \<open>worker_variant\<close> steps (the rank of the thread's place, the remaining statements of
  its handlers and the wake-ups they cause), no wake-up is lost, and a run with healthy threads can be completed;
  no thread outlives its run; loading, unloading and failing to load release every resource once, up to two error
  cases; attributes and printed figures read back.  Where the code
  departs from what it means to do the departure is a theorem too: the attribute write that changes a validated
  configuration during a run, the exit that releases the device and the configurations under a run, the hang and
  the leaked page after a failed submission, the completion handler that uses freed threads, the flag
  \<open>kio_running\<close> left set by a failed start, the error pointer and the freed task passed to \<open>kthread_stop\<close>, the ignored
  result of a run, the error paths of \<open>num_threads\<close> and of \<open>kio_io_init\<close>, the lower bound of the offset check, the partition
  remap, the first sequential offset, the wrapped byte rate and the summary's operations per second.

  \<^bold>\<open>Not modelled.\<close>  Log messages other than the statistics; the scheduler's real time (a time-out may come at
  any moment, and the delay after a request only records what is asked for); the wake-up of the controller, which
  leaves its wait when the time is over or the emergency stop is raised; weak memory: every access of
  a step is atomic and in program order; intermediate states of a handler that holds the mutex, as seen by a
  handler that does not; the steps of a run whose configurations have been freed, what a handler does that is
  still running or arrives after the module is unloaded, and the completion handlers left over from a run when the
  next one starts; the user-space scripts and packaging.

  \<^bold>\<open>Plan.\<close>  Next: fairness, under which every run of healthy threads ends rather than can be ended; the body of
  \<open>num_threads\<close> and of the validation as several steps, observed by unlocked attribute writes; the sizes of the
  texts against the buffers they are printed to.
\<close>

section \<open>The life of the module\<close>

lemma exit_after_creation:
  assumes "m_kobj m = Some k0" and "dev_name (m_io m) = Some (off, name)"
    and "kio_config_exit (Some k0) c = Inr (c\<lparr>threads := None\<rparr>, map Rel (map Kobj ks @ [Threads_Array, Kobj k0]))"
  shows "kio_exit (m\<lparr>m_config := c\<rparr>) = Inr (m\<lparr>m_config := c\<lparr>threads := None\<rparr>, m_io := kio_io_zero\<rparr>,
    map Rel ([Io_Res Bio_Set, Io_Res (Dev_Name off), Io_Res Bdev_Excl] @ map Cfg_Res (map Kobj ks @ [Threads_Array, Kobj k0])))"
  using assms by (simp add: kio_exit_def kio_io_exit_def)

text \<open>C20: After loading, a successful write to \<open>num_threads\<close> and unloading, everything the module acquired has been
  released exactly once: no kernel object, no memory, no open device and no bio set is left, and nothing was
  released that was not held.  The one exception is a path with leading blanks (\<open>strim\<close> skipped \<open>off\<close>
  characters): then the unloading frees a pointer that was not allocated.\<close>

theorem module_life_cycle_balanced:
  assumes "kio_init cenv ienv = Inr (0, m, es)"
    and "kio_num_threads_store cenv' False buf len (m_config m) = Inr (rc, c, es')" and "threads c \<noteq> None"
  shows "\<exists>off name m' es''. dev_name (m_io m) = Some (off, name) \<and> kio_exit (m\<lparr>m_config := c\<rparr>) = Inr (m', es'')
    \<and> held_after [] (es @ cfg_events es' @ es'') = (if off = 0 then Some [] else None)
    \<and> m_io m' = kio_io_zero \<and> threads (m_config m') = None"
proof -
  from assms(1) obtain k0 where k0: "m_kobj m = Some k0" "m_config m = kio_config_zero"
    and ii: "kio_io_init ienv kio_io_zero = (0, m_io m, [Acq (Dev_Name 0), Acq Bdev_Excl, Acq Bio_Set])"
    and es: "es = map Acq [Cfg_Res (Kobj k0), Io_Res (Dev_Name 0), Io_Res Bdev_Excl, Io_Res Bio_Set]"
    by (rule kio_init_ok)
  from ii obtain off name where n: "dev_name (m_io m) = Some (off, name)"
    by (auto elim: kio_io_init_ok)
  from assms(2,3) k0(2) obtain ks where es': "es' = map Acq (Threads_Array # map Kobj ks)"
    and exit: "kio_config_exit (Some k0) c = Inr (c\<lparr>threads := None\<rparr>, map Rel (map Kobj ks @ [Threads_Array, Kobj k0]))"
    by (metis config_exit_created)
  let ?acq = "[Cfg_Res (Kobj k0), Io_Res (Dev_Name 0), Io_Res Bdev_Excl, Io_Res Bio_Set]
    @ map Cfg_Res (Threads_Array # map Kobj ks)"
  let ?rel = "[Io_Res Bio_Set, Io_Res (Dev_Name off), Io_Res Bdev_Excl]
    @ map Cfg_Res (map Kobj ks @ [Threads_Array, Kobj k0])"
  have "held_after [] (map Acq ?acq @ map Rel ?rel) = (if off = 0 then Some [] else None)"
  proof (cases "off = 0")
    case True
    have "held_after [] (map Acq ?acq @ map Rel ?rel) = Some []"
      by (rule held_after_balanced) (simp add: True)
    with True show ?thesis by simp
  next
    case False
    have "held_after [] (map Acq ?acq @ map Rel ?rel) = None"
      by (rule held_after_bad_release [of "Io_Res (Dev_Name off)"]) (use False in auto)
    with False show ?thesis by simp
  qed
  moreover have "es @ cfg_events es' = map Acq ?acq"
    by (simp add: es es')
  ultimately have "held_after [] (es @ cfg_events es' @ map Rel ?rel) = (if off = 0 then Some [] else None)"
    by (simp only: append_assoc [symmetric])
  with n exit_after_creation [OF k0(1) n exit] show ?thesis
    by (intro exI conjI) (assumption | simp)+
qed

theorem module_life_cycle_balanced_witness:
  "\<exists>m' es''. kio_exit \<lparr>m_kobj = Some 7, m_config = kio_config_zero\<lparr>num_threads := 2,
       threads := Some [ktc_zero\<lparr>ktc_kobj := Some 10\<rparr>, ktc_zero\<lparr>ktc_kobj := Some 11\<rparr>]\<rparr>, m_io = example_kio_io\<rparr>
       = Inr (m', es'')
     \<and> held_after [] ([Acq (Cfg_Res (Kobj 7)), Acq (Io_Res (Dev_Name 0)), Acq (Io_Res Bdev_Excl), Acq (Io_Res Bio_Set)]
         @ cfg_events [Acq Threads_Array, Acq (Kobj 10), Acq (Kobj 11)] @ es'') = Some []"
proof -
  let ?m = "\<lparr>m_kobj = Some 7, m_config = kio_config_zero, m_io = example_kio_io\<rparr>"
  let ?c = "kio_config_zero\<lparr>num_threads := 2,
       threads := Some [ktc_zero\<lparr>ktc_kobj := Some 10\<rparr>, ktc_zero\<lparr>ktc_kobj := Some 11\<rparr>]\<rparr>"
  have i: "kio_init example_env example_io_env = Inr (0, ?m,
      [Acq (Cfg_Res (Kobj 7)), Acq (Io_Res (Dev_Name 0)), Acq (Io_Res Bdev_Excl), Acq (Io_Res Bio_Set)])"
    by code_simp
  have s: "kio_num_threads_store example_env False ''2'' 1 (m_config ?m)
      = Inr (1, ?c, [Acq Threads_Array, Acq (Kobj 10), Acq (Kobj 11)])"
    by code_simp
  have "threads ?c \<noteq> None"
    by simp
  from module_life_cycle_balanced [OF i s this] show ?thesis
    by (auto simp: example_kio_io_def)
qed

text \<open>C23: What a module that fails to load leaves behind, whichever call fails: each resource taken so far is
  released exactly once, except in two cases, in which the error path releases something that is not held.
  When the path has leading blanks, it frees a pointer that was not allocated; when the device was opened but
  refuses the block size or is smaller than a gibibyte, it releases a bio set that was never created.\<close>

theorem failed_load_releases:
  assumes "kio_init cenv ienv = Inr (rc, m, es)" and "rc \<noteq> 0"
  shows "held_after [] es =
    (if fst (kio_config_init cenv) = 0 \<and> (leading_blanks ienv \<or> device_refused ienv) then None else Some [])"
proof -
  obtain rc0 k c fs where ci: "kio_config_init cenv = (rc0, k, c, fs)"
    by (metis prod_cases4)
  obtain rc1 io gs where ii: "kio_io_init ienv kio_io_zero = (rc1, io, gs)"
    by (metis prod_cases3)
  show ?thesis
  proof (cases "rc0 = 0")
    case True
    with ci obtain k0 where k0: "k = Some k0" "c = kio_config_zero" "fs = [Acq (Kobj k0)]"
      by (auto elim: config_init_ok)
    have "rc1 \<noteq> 0"
      using assms ci ii True by (auto simp: kio_init_def split: if_splits)
    moreover have "es = Acq (Cfg_Res (Kobj k0)) # io_events gs @ [Rel (Cfg_Res (Kobj k0))]"
      using assms(1) ci ii True \<open>rc1 \<noteq> 0\<close> k0 config_exit_zero by (simp add: kio_init_def)
    ultimately show ?thesis
      by (cases rule: io_init_failed [OF ii]) (use ci True in auto)
  next
    case False
    with config_init_failed [OF ci] assms(1) ci show ?thesis
      by (auto simp: kio_init_def)
  qed
qed

text \<open>A device that does not exist, and one that is too small.\<close>

theorem failed_load_releases_witness:
  "held_after [] [Acq (Cfg_Res (Kobj 7)), Acq (Io_Res (Dev_Name 0)), Rel (Io_Res (Dev_Name 0)), Rel (Cfg_Res (Kobj 7))] = Some []
   \<and> held_after [] [Acq (Cfg_Res (Kobj 7)), Acq (Io_Res (Dev_Name 0)), Acq (Io_Res Bdev_Excl), Rel (Io_Res Bio_Set),
       Rel (Io_Res Bdev_Excl), Rel (Io_Res (Dev_Name 0)), Rel (Cfg_Res (Kobj 7))] = None"
proof -
  let ?missing = "example_io_env\<lparr>kio_block_device := Some ''/dev/vdc''\<rparr>"
  let ?small = "example_io_env\<lparr>i_size_read := 4096\<rparr>"
  have "kio_init example_env ?missing = Inr (- 2, \<lparr>m_kobj = Some 7, m_config = kio_config_zero, m_io = kio_io_zero\<rparr>,
      [Acq (Cfg_Res (Kobj 7)), Acq (Io_Res (Dev_Name 0)), Rel (Io_Res (Dev_Name 0)), Rel (Cfg_Res (Kobj 7))])"
    and m: "leading_blanks ?missing = False" "device_refused ?missing = False"
    by code_simp+
  from failed_load_releases [OF this(1)] m
  have "held_after [] [Acq (Cfg_Res (Kobj 7)), Acq (Io_Res (Dev_Name 0)), Rel (Io_Res (Dev_Name 0)), Rel (Cfg_Res (Kobj 7))] = Some []"
    by simp
  moreover have "kio_init example_env ?small = Inr (- ETOOSMALL, \<lparr>m_kobj = Some 7, m_config = kio_config_zero, m_io = kio_io_zero\<rparr>,
      [Acq (Cfg_Res (Kobj 7)), Acq (Io_Res (Dev_Name 0)), Acq (Io_Res Bdev_Excl), Rel (Io_Res Bio_Set),
       Rel (Io_Res Bdev_Excl), Rel (Io_Res (Dev_Name 0)), Rel (Cfg_Res (Kobj 7))])"
    and r: "device_refused ?small = True" "fst (kio_config_init example_env) = 0"
    by code_simp+
  from failed_load_releases [OF this(1)] r
  have "held_after [] [Acq (Cfg_Res (Kobj 7)), Acq (Io_Res (Dev_Name 0)), Acq (Io_Res Bdev_Excl), Rel (Io_Res Bio_Set),
       Rel (Io_Res Bdev_Excl), Rel (Io_Res (Dev_Name 0)), Rel (Cfg_Res (Kobj 7))] = None"
    by simp
  ultimately show ?thesis ..
qed

section \<open>From loading to submission\<close>

text \<open>C1: Validation protects every run.  After the module was loaded on a device with a logical block size, in
  every history of the driver in which no attribute write overlaps a run (with pages of 4096 bytes), a worker
  that reaches the submission of a request calls \<open>kio_io_submit\<close> with a page and an offset that it accepts: the
  call does not fault and returns zero, \<open>-ENOMEM\<close> or \<open>-EIO\<close>; and the worker never has more requests in
  flight than its queue depth (one more when a signal is pending).\<close>

theorem driver_submits:
  assumes "kio_init cenv ienv = Inr (0, m, es)" and "queue_logical_block_size ienv \<noteq> 0"
    and "(serial_step E)\<^sup>*\<^sup>* (sys_init m) s" and "run_in_progress s" and "s_run s = Some r"
    and "i < length (r_tasks r)" and "r_tasks r ! i = Task w" and "page_size senv = 4096"
  shows "(w_pc w = Submit \<longrightarrow> (\<exists>rc evs. kio_io_submit senv (m_io m) (w_offset w) (w_page w) (dir_is_write (w_dir w))
        (unat (th_index (w_th w))) = Inr (rc, evs) \<and> rc \<in> {0, - ENOMEM, - EIO}))
    \<and> length (filter in_flight (w_bios w))
        \<le> unat (ktc_queue_depth (run_threads (s_config s) ! i)) + of_bool (w_signal w)"
proof -
  let ?ts = "run_threads (s_config s)"
  from assms(1) have ii: "kio_io_init ienv kio_io_zero = (0, m_io m, [Acq (Dev_Name 0), Acq Bdev_Excl, Acq Bio_Set])"
    by (rule kio_init_ok)
  then have io: "dev_block_size (m_io m) \<noteq> 0" "bdev (m_io m) \<noteq> None"
    using assms(2) by (auto elim!: kio_io_init_ok)
  have v: "\<forall>t \<in> set ?ts. thread_valid (dev_byte_size (m_io m)) t" and r: "(run_step (m_io m) ?ts)\<^sup>*\<^sup>* run_init r"
    using serial_inv_reach [OF assms(3)] assms(4,5) by (auto simp: run_refines_def)
  note wk = valid_worker [OF v r assms(6,7)]
  have "page_size senv = ucast (ktc_block_size (?ts ! i))"
    using wk(2) assms(8) by simp
  with worker_submits [OF wk(3,1) io] depth_inv_reach [OF wk(3) thread_valid_depth_ok [OF wk(1)]] show ?thesis
    by (auto simp: depth_inv_def w_load_def Let_def)
qed

theorem driver_submits_witness:
  "\<exists>s r w rc evs. (serial_step ((=) example_env))\<^sup>*\<^sup>* (sys_init example_module) s \<and> s_run s = Some r \<and> r_tasks r = [Task w]
     \<and> w_pc w = Submit \<and> kio_io_submit example_submit_env example_kio_io (w_offset w) (w_page w) (dir_is_write (w_dir w))
         (unat (th_index (w_th w))) = Inr (rc, evs) \<and> rc \<in> {0, - 12, - 5}"
proof -
  have i: "kio_init example_env example_io_env = Inr (0, example_module,
      [Acq (Cfg_Res (Kobj 7)), Acq (Io_Res (Dev_Name 0)), Acq (Io_Res Bdev_Excl), Acq (Io_Res Bio_Set)])"
    by code_simp
  have b: "queue_logical_block_size example_io_env \<noteq> 0"
    by (simp add: example_io_env_def)
  let ?f = "\<lambda>s. (list_ex (\<lambda>w. wr_pc w = W_In_Run) (s_writers s),
    map_option (\<lambda>r. map (\<lambda>t. case t of Task w \<Rightarrow> Some (w_pc w) | _ \<Rightarrow> None) (r_tasks r)) (s_run s))"
  have "map_option ?f (serial_acts example_env (example_start @ map Do_Run (work_steps 6)) example_ready)
    = Some (True, Some [Some Submit])"
    by code_simp
  then obtain s where s: "(serial_step ((=) example_env))\<^sup>*\<^sup>* (sys_init example_module) s" and f: "?f s = (True, Some [Some Submit])"
    by (rule example_serial_reach)
  then obtain r w where r: "s_run s = Some r" "r_tasks r = [Task w]" "w_pc w = Submit"
    by (auto split: task.splits)
  have p: "run_in_progress s"
    using f by (force simp: run_in_progress_def places_def list_ex_iff)
  have "page_size example_submit_env = 4096"
    by (simp add: example_submit_env_def)
  from driver_submits [OF i b s p r(1) _ _ this, of 0 w] r s show ?thesis
    by (auto simp: example_module_def)
qed

end
